theory Spec2Isabelle
  imports Main
begin

section \<open>Diagnostics\<close>

text \<open>
  The elaboration core reports problems through a diagnostics sink
  (\<^verbatim>\<open>context.addDiag(code, range)\<close>).  A diagnostic is modelled by its code; the sink
  is a list that grows at its end, in emission order.
\<close>

datatype DiagCode =
    InstanceNameRequired
  | MaxInstanceArrayExceeded
  | UnknownModule
  | InvalidPrimInstanceForParent
  | BindTargetPrimitive
  | InvalidInstanceForParent
  | BindUnderBind
  | MaxInstanceDepthExceeded
  | CheckerInForkJoin
  | CheckerInCheckerProc
  | CheckerParameterAssign
  | InvalidPrimitivePortConn
  | EmptyUdpPort
  | InvalidNGateCount
  | PrimitivePortCountWrong
  | CheckerClassBadInstantiation
  | CheckerFuncBadInstantiation
  | NotAChecker
  | CheckerArgCannotBeEmpty
  | UnconnectedArg
  | ImplicitNamedPortNotFound
  | TooManyPortConnections
  | PortDoesNotExist
  | InstanceWithStrength
  | InstanceWithDelay

section \<open>Port connections of primitive instances\<close>

text \<open>
  \<^verbatim>\<open>PrimitiveInstanceSymbol::getPortConnections\<close> (InstanceSymbols.cpp).  Expression
  syntax nodes are opaque identifiers.  \<^verbatim>\<open>ASTContext::requireSimpleExpr\<close> is a
  collaborator outside the sources; it is a parameter that either yields the simple
  expression of a property expression or fails.  \<^verbatim>\<open>Expression::bindArgument\<close> is
  recorded by the direction and the syntax it was called with.
\<close>

datatype PrimitiveKind = UserDefined | Fixed | NInput | NOutput

datatype ArgumentDirection = In | Out | InOut | Ref

datatype PrimitivePortDirection = PortIn | PortOut | PortOutReg | PortInOut

datatype PortConnectionSyntax =
    OrderedPortConnection nat
  | NamedPortConnection string "nat option"
  | EmptyPortConnection
  | WildcardPortConnection

datatype Expression = BoundArgument ArgumentDirection nat

record PrimitiveSymbol =
  primName :: string
  primitiveKind :: PrimitiveKind
  primPorts :: "PrimitivePortDirection list"

text \<open>
  The first loop gathers the connection expressions.  \<open>None\<close> is the early return
  with an empty port list (\<^verbatim>\<open>ports.emplace(); return *ports;\<close>); an entry \<open>None\<close> in
  the gathered list is the \<^verbatim>\<open>nullptr\<close> pushed for an empty connection of a
  user-defined primitive.
\<close>

fun gatherConns ::
  "(nat \<Rightarrow> nat option) \<Rightarrow> PrimitiveKind \<Rightarrow> PortConnectionSyntax list \<Rightarrow>
   nat option list \<Rightarrow> DiagCode list \<Rightarrow> nat option list option \<times> DiagCode list" where
  "gatherConns req k [] conns ds = (Some conns, ds)"
| "gatherConns req k (OrderedPortConnection e # ps) conns ds =
     (case req e of
        None \<Rightarrow> (None, ds)
      | Some ex \<Rightarrow> gatherConns req k ps (conns @ [Some ex]) ds)"
| "gatherConns req k (p # ps) conns ds =
     (if p \<noteq> EmptyPortConnection \<or> k \<noteq> UserDefined
      then (None, ds @ [InvalidPrimitivePortConn])
      else gatherConns req k ps (conns @ [None]) (ds @ [EmptyUdpPort]))"

text \<open>
  The direction chosen for connection \<open>i\<close> of \<open>n\<close> of an n-input or n-output gate:
  \<^verbatim>\<open>
  if (primitiveType.primitiveKind == PrimitiveSymbol::NInput)
      dir = i == 0 ? ArgumentDirection::Out : ArgumentDirection::In;
  else
      dir = conns.size() - 1 ? ArgumentDirection::In : ArgumentDirection::Out;
  \<close>
  The second conditional tests the value \<^verbatim>\<open>conns.size() - 1\<close> itself (non-zero is
  true); it does not mention \<open>i\<close>.  The branch is only reached with \<open>n \<ge> 2\<close>, so the
  unsigned subtraction does not wrap.
\<close>

definition nGateDirection :: "PrimitiveKind \<Rightarrow> nat \<Rightarrow> nat \<Rightarrow> ArgumentDirection" where
  "nGateDirection k i n =
     (if k = NInput then (if i = 0 then Out else In)
      else (if n - 1 \<noteq> 0 then In else Out))"

text \<open>
  The loop over the gathered connections of an n-input / n-output gate.  \<open>None\<close> is a
  failed \<^verbatim>\<open>SLANG_ASSERT(conns[i])\<close>.
\<close>

fun bindNGate ::
  "PrimitiveKind \<Rightarrow> nat \<Rightarrow> nat \<Rightarrow> nat option list \<Rightarrow> Expression list option" where
  "bindNGate k n i [] = Some []"
| "bindNGate k n i (None # cs) = None"
| "bindNGate k n i (Some e # cs) =
     (case bindNGate k n (Suc i) cs of
        None \<Rightarrow> None
      | Some rs \<Rightarrow> Some (BoundArgument (nGateDirection k i n) e # rs))"

definition portArgDirection :: "PrimitivePortDirection \<Rightarrow> ArgumentDirection" where
  "portArgDirection d =
     (case d of PortIn \<Rightarrow> In | PortInOut \<Rightarrow> InOut | PortOut \<Rightarrow> Out | PortOutReg \<Rightarrow> Out)"

text \<open>The loop for every other primitive: unconnected (null) entries are skipped.\<close>

fun bindFixed :: "PrimitivePortDirection list \<Rightarrow> nat option list \<Rightarrow> Expression list" where
  "bindFixed (d # dirs) (None # cs) = bindFixed dirs cs"
| "bindFixed (d # dirs) (Some e # cs) = BoundArgument (portArgDirection d) e # bindFixed dirs cs"
| "bindFixed dirs cs = []"

text \<open>
  The body run when the memo \<^verbatim>\<open>ports\<close> is still unset.  The result is the port list
  stored in the memo and the diagnostics sink; \<open>None\<close> is an assertion failure.
\<close>

definition resolvePrimitivePorts ::
  "(nat \<Rightarrow> nat option) \<Rightarrow> PrimitiveSymbol \<Rightarrow> PortConnectionSyntax list \<Rightarrow> DiagCode list \<Rightarrow>
   (Expression list \<times> DiagCode list) option" where
  "resolvePrimitivePorts req prim connections ds =
     (case gatherConns req (primitiveKind prim) connections [] ds of
        (None, ds1) \<Rightarrow> Some ([], ds1)
      | (Some conns, ds1) \<Rightarrow>
          if primitiveKind prim = NInput \<or> primitiveKind prim = NOutput then
            (if length conns < 2 then Some ([], ds1 @ [InvalidNGateCount])
             else (case bindNGate (primitiveKind prim) (length conns) 0 conns of
                     None \<Rightarrow> None
                   | Some rs \<Rightarrow> Some (rs, ds1)))
          else
            (if length conns \<noteq> length (primPorts prim)
             then Some ([], ds1 @ [PrimitivePortCountWrong])
             else Some (bindFixed (primPorts prim) conns, ds1)))"

record PrimitiveInstanceSymbol =
  primitiveType :: PrimitiveSymbol
  primConnections :: "PortConnectionSyntax list"
  ports :: "Expression list option"

text \<open>\<^verbatim>\<open>getPortConnections\<close>: the memo is filled on the first call and returned afterwards.\<close>

definition PrimitiveInstance_getPortConnections ::
  "(nat \<Rightarrow> nat option) \<Rightarrow> PrimitiveInstanceSymbol \<Rightarrow> DiagCode list \<Rightarrow>
   (Expression list \<times> PrimitiveInstanceSymbol \<times> DiagCode list) option" where
  "PrimitiveInstance_getPortConnections req inst ds =
     (case ports inst of
        Some ps \<Rightarrow> Some (ps, inst, ds)
      | None \<Rightarrow>
          (case resolvePrimitivePorts req (primitiveType inst) (primConnections inst) ds of
             None \<Rightarrow> None
           | Some (ps, ds1) \<Rightarrow> Some (ps, inst\<lparr>ports := Some ps\<rparr>, ds1)))"

text \<open>The direction an expression was bound with.\<close>

fun boundDirection :: "Expression \<Rightarrow> ArgumentDirection" where
  "boundDirection (BoundArgument d e) = d"

section \<open>Configuration blocks\<close>

text \<open>
  \<^verbatim>\<open>ConfigBlockSymbol::fromSyntax\<close> and \<^verbatim>\<open>ResolvedConfig::ResolvedConfig\<close>
  (CompilationUnitSymbols.cpp).  Source ranges and parameter-assignment syntax nodes are
  opaque identifiers.  A library is the object registered under a name;
  \<^verbatim>\<open>Compilation::getSourceLibrary\<close> is a parameter (null is \<open>None\<close>).
\<close>

record SourceLibrary =
  libName :: string
  priority :: int
  isDefault :: bool

text \<open>
  \<^verbatim>\<open>ConfigCellId\<close>: an empty \<open>cellName\<close> means that no cell is set (the code tests
  \<^verbatim>\<open>useCell.name.empty()\<close>).
\<close>

record ConfigCellId =
  cellLib :: string
  cellName :: string
  targetConfig :: bool

definition noCell :: ConfigCellId where
  "noCell = \<lparr>cellLib = [], cellName = [], targetConfig = False\<rparr>"

record ConfigRule =
  useCell :: ConfigCellId
  liblist :: "SourceLibrary list option"
  paramOverrides :: "nat option"
  ruleRange :: nat

record CellOverride =
  specificLib :: "SourceLibrary option"
  cellRule :: ConfigRule

text \<open>
  A node of the instance-override trie: an optional rule and the child nodes by name.
  The hash map of children is an association list with one entry per key.
\<close>

datatype InstanceOverride =
  InstanceOverride (nodeRule: "ConfigRule option") (childNodes: "(string \<times> InstanceOverride) list")

record ConfigBlockSymbol =
  configName :: string
  topCells :: "ConfigCellId list"
  defaultLiblist :: "SourceLibrary list"
  cellOverrides :: "string \<Rightarrow> CellOverride list"
  instanceOverrides :: "(string \<times> InstanceOverride) list"

subsection \<open>The parsed configuration\<close>

record ConfigCellIdSyntax =
  synLibrary :: string
  synCell :: string

datatype ConfigRuleClauseSyntax =
    ConfigUseClause "ConfigCellIdSyntax option" "nat option" bool
  | ConfigLiblist "string list"

text \<open>
  The three kinds of rule.  The last component is the source range of the rule
  (\<^verbatim>\<open>rule.parent->sourceRange()\<close> of its clause).
\<close>

datatype ConfigRuleSyntax =
    DefaultConfigRule "string list"
  | CellConfigRule ConfigCellIdSyntax ConfigRuleClauseSyntax nat
  | InstanceConfigRule string "string list" ConfigRuleClauseSyntax nat

record ConfigDeclarationSyntax =
  declName :: string
  declTopCells :: "ConfigCellIdSyntax list"
  declRules :: "ConfigRuleSyntax list"

subsection \<open>Construction\<close>

text \<open>\<^verbatim>\<open>buildLiblist\<close>: names of unregistered libraries are skipped.\<close>

definition buildLiblist :: "(string \<Rightarrow> SourceLibrary option) \<Rightarrow> string list \<Rightarrow> SourceLibrary list" where
  "buildLiblist getSourceLibrary libs = List.map_filter getSourceLibrary libs"

text \<open>\<^verbatim>\<open>buildRule\<close>: a use clause fills the parameter and cell slots, a liblist clause the liblist slot.\<close>

definition buildRule ::
  "(string \<Rightarrow> SourceLibrary option) \<Rightarrow> ConfigRuleClauseSyntax \<Rightarrow> nat \<Rightarrow> ConfigRule" where
  "buildRule getSourceLibrary clause rng =
     (case clause of
        ConfigUseClause nm params isConfig \<Rightarrow>
          \<lparr>useCell =
             (case nm of
                None \<Rightarrow> noCell
              | Some c \<Rightarrow>
                  if synCell c \<noteq> []
                  then \<lparr>cellLib = synLibrary c, cellName = synCell c, targetConfig = isConfig\<rparr>
                  else noCell),
           liblist = None, paramOverrides = params, ruleRange = rng\<rparr>
      | ConfigLiblist libs \<Rightarrow>
          \<lparr>useCell = noCell, liblist = Some (buildLiblist getSourceLibrary libs),
           paramOverrides = None, ruleRange = rng\<rparr>)"

text \<open>
  The conflict test of the merge:
  \<^verbatim>\<open>
  (bool(rule.paramOverrides) && bool(nr.paramOverrides)) ||
  (rule.liblist.has_value() && nr.liblist.has_value()) ||
  (!rule.useCell.name.empty() && !nr.useCell.name.empty())
  \<close>
\<close>

definition slotConflict :: "ConfigRule \<Rightarrow> ConfigRule \<Rightarrow> bool" where
  "slotConflict rule nr \<longleftrightarrow>
     (paramOverrides rule \<noteq> None \<and> paramOverrides nr \<noteq> None) \<or>
     (liblist rule \<noteq> None \<and> liblist nr \<noteq> None) \<or>
     (cellName (useCell rule) \<noteq> [] \<and> cellName (useCell nr) \<noteq> [])"

text \<open>The three conditional assignments of the merge branch.\<close>

definition mergeInto :: "ConfigRule \<Rightarrow> ConfigRule \<Rightarrow> ConfigRule" where
  "mergeInto rule nr =
     (let nr1 = (if paramOverrides rule \<noteq> None then nr\<lparr>paramOverrides := paramOverrides rule\<rparr> else nr);
          nr2 = (if liblist rule \<noteq> None then nr1\<lparr>liblist := liblist rule\<rparr> else nr1)
      in if cellName (useCell rule) \<noteq> [] then nr2\<lparr>useCell := useCell rule\<rparr> else nr2)"

text \<open>
  What one instance rule does to the node it addresses, together with the diagnostics
  sink.  Where the node already has a rule and a slot conflicts, the branch of the
  source is empty (its body is the comment \<^verbatim>\<open>// TODO: error\<close>): the node and the sink
  are left as they are.
\<close>

definition storeRule ::
  "ConfigRule \<Rightarrow> InstanceOverride \<times> DiagCode list \<Rightarrow> InstanceOverride \<times> DiagCode list" where
  "storeRule rule nd =
     (case nd of (InstanceOverride r cs, ds) \<Rightarrow>
        (case r of
           None \<Rightarrow> (InstanceOverride (Some rule) cs, ds)
         | Some nr \<Rightarrow>
             if slotConflict rule nr then (InstanceOverride (Some nr) cs, ds)
             else (InstanceOverride (Some (mergeInto rule nr)) cs, ds)))"

text \<open>
  \<^verbatim>\<open>map[key]\<close> followed by an update of the entry: a missing entry is created
  default-constructed (no rule, no children) first.  The update also passes the
  diagnostics sink through.
\<close>

fun updateEntry ::
  "string \<Rightarrow> (InstanceOverride \<times> DiagCode list \<Rightarrow> InstanceOverride \<times> DiagCode list) \<Rightarrow>
   (string \<times> InstanceOverride) list \<Rightarrow> DiagCode list \<Rightarrow>
   (string \<times> InstanceOverride) list \<times> DiagCode list" where
  "updateEntry k f [] ds = (case f (InstanceOverride None [], ds) of (n, ds') \<Rightarrow> ([(k, n)], ds'))"
| "updateEntry k f ((k', n) # cs) ds =
     (if k = k' then (case f (n, ds) of (n', ds') \<Rightarrow> ((k', n') # cs, ds'))
      else (case updateEntry k f cs ds of (cs', ds') \<Rightarrow> ((k', n) # cs', ds')))"

text \<open>
  The descent \<^verbatim>\<open>for (auto& part : icr.instanceNames) node = &node->childNodes[part->name]\<close>
  followed by the update of the node reached.
\<close>

fun atPath ::
  "string list \<Rightarrow> (InstanceOverride \<times> DiagCode list \<Rightarrow> InstanceOverride \<times> DiagCode list) \<Rightarrow>
   InstanceOverride \<times> DiagCode list \<Rightarrow> InstanceOverride \<times> DiagCode list" where
  "atPath [] f nd = f nd"
| "atPath (k # ks) f nd =
     (case updateEntry k (atPath ks f) (childNodes (fst nd)) (snd nd) of
        (cs', ds') \<Rightarrow> (InstanceOverride (nodeRule (fst nd)) cs', ds'))"

text \<open>One rule of the configuration applied to the block under construction.\<close>

fun addRule ::
  "(string \<Rightarrow> SourceLibrary option) \<Rightarrow> ConfigRuleSyntax \<Rightarrow>
   ConfigBlockSymbol \<times> DiagCode list \<Rightarrow> ConfigBlockSymbol \<times> DiagCode list" where
  "addRule gsl (DefaultConfigRule libs) (cfg, ds) =
     (cfg\<lparr>defaultLiblist := buildLiblist gsl libs\<rparr>, ds)"
| "addRule gsl (CellConfigRule nm clause rng) (cfg, ds) =
     (let co = \<lparr>specificLib = (if synLibrary nm \<noteq> [] then gsl (synLibrary nm) else None),
                cellRule = buildRule gsl clause rng\<rparr>
      in (cfg\<lparr>cellOverrides := (cellOverrides cfg)(synCell nm := cellOverrides cfg (synCell nm) @ [co])\<rparr>,
          ds))"
| "addRule gsl (InstanceConfigRule topModule instanceNames clause rng) (cfg, ds) =
     (case updateEntry topModule (atPath instanceNames (storeRule (buildRule gsl clause rng)))
             (instanceOverrides cfg) ds of
        (ov', ds') \<Rightarrow> (cfg\<lparr>instanceOverrides := ov'\<rparr>, ds'))"

text \<open>Top cells with an empty cell name are dropped.\<close>

definition buildTopCells :: "ConfigCellIdSyntax list \<Rightarrow> ConfigCellId list" where
  "buildTopCells cells =
     map (\<lambda>c. \<lparr>cellLib = synLibrary c, cellName = synCell c, targetConfig = False\<rparr>)
       (filter (\<lambda>c. synCell c \<noteq> []) cells)"

definition ConfigBlockSymbol_fromSyntax ::
  "(string \<Rightarrow> SourceLibrary option) \<Rightarrow> ConfigDeclarationSyntax \<Rightarrow> DiagCode list \<Rightarrow>
   ConfigBlockSymbol \<times> DiagCode list" where
  "ConfigBlockSymbol_fromSyntax gsl syn ds =
     fold (addRule gsl) (declRules syn)
       (\<lparr>configName = declName syn, topCells = buildTopCells (declTopCells syn),
         defaultLiblist = [], cellOverrides = (\<lambda>_. []), instanceOverrides = []\<rparr>, ds)"

text \<open>Reading the trie: the node at a path below a top module, and its rule.\<close>

fun nodeAt :: "string list \<Rightarrow> InstanceOverride \<Rightarrow> InstanceOverride option" where
  "nodeAt [] n = Some n"
| "nodeAt (k # ks) n = (case map_of (childNodes n) k of None \<Rightarrow> None | Some c \<Rightarrow> nodeAt ks c)"

definition ruleAt :: "ConfigBlockSymbol \<Rightarrow> string \<Rightarrow> string list \<Rightarrow> ConfigRule option" where
  "ruleAt cfg topModule path =
     (case map_of (instanceOverrides cfg) topModule of
        None \<Rightarrow> None
      | Some n \<Rightarrow> (case nodeAt path n of None \<Rightarrow> None | Some m \<Rightarrow> nodeRule m))"

section \<open>Packages and their exports\<close>

text \<open>
  \<^verbatim>\<open>PackageSymbol::findForImport\<close> and \<^verbatim>\<open>PackageSymbol::noteImport\<close>
  (CompilationUnitSymbols.cpp).  Symbols are opaque identifiers.  \<open>directMembers\<close> is
  what \<^verbatim>\<open>Scope::find\<close> answers for the package.  An export declaration is the pair of
  its package name and its item, \<open>None\<close> for the star of \<^verbatim>\<open>export P::*\<close>.
\<close>

record PackageSymbol =
  packageName :: string
  directMembers :: "string \<Rightarrow> nat option"
  hasExportAll :: bool
  exportDecls :: "(string \<times> string option) list"

text \<open>
  The mutable state that belongs to one package: its flag \<^verbatim>\<open>hasForceElaborated\<close>, the
  export candidates the compilation keeps for it, and a counter of the calls of
  \<^verbatim>\<open>Compilation::forceElaborate\<close> on it (a trace, read by no operation).
\<close>

record PackageState =
  hasForceElaborated :: bool
  exportCandidates :: "string \<Rightarrow> nat option"
  forceElaborations :: nat

text \<open>
  A symbol whose import through the package is noted: its name, its identity and the
  name of the package that the walk up its parent scopes ends in.
\<close>

record ImportedSymbol =
  importedName :: string
  importedSym :: nat
  owningPackage :: string

text \<open>
  Modelled from the spec: \<^verbatim>\<open>Compilation::notePackageExportCandidate\<close> and
  \<^verbatim>\<open>Compilation::findPackageExportCandidate\<close> are not in the sources.  Following
  section 4.9 (the resolver consults the export declarations to decide whether an import
  that passed through the package may be re-exported), the candidate set of a package is
  a map from names to symbols that noting fills and finding reads.
\<close>

definition notePackageExportCandidate :: "ImportedSymbol \<Rightarrow> PackageState \<Rightarrow> PackageState" where
  "notePackageExportCandidate s st =
     st\<lparr>exportCandidates := (exportCandidates st)(importedName s := Some (importedSym s))\<rparr>"

definition findPackageExportCandidate :: "PackageState \<Rightarrow> string \<Rightarrow> nat option" where
  "findPackageExportCandidate st lookupName = exportCandidates st lookupName"

text \<open>The loop of \<^verbatim>\<open>noteImport\<close> over the export declarations: the first match notes the symbol.\<close>

fun matchExportDecl :: "(string \<times> string option) list \<Rightarrow> ImportedSymbol \<Rightarrow> bool" where
  "matchExportDecl [] s = False"
| "matchExportDecl ((pkgName, item) # decls) s =
     (if pkgName \<noteq> owningPackage s then matchExportDecl decls s
      else if item = None \<or> item = Some (importedName s) then True
      else matchExportDecl decls s)"

definition PackageSymbol_noteImport :: "PackageSymbol \<Rightarrow> ImportedSymbol \<Rightarrow> PackageState \<Rightarrow> PackageState" where
  "PackageSymbol_noteImport pkg s st =
     (if hasExportAll pkg then notePackageExportCandidate s st
      else if exportDecls pkg = [] then st
      else if matchExportDecl (exportDecls pkg) s then notePackageExportCandidate s st
      else st)"

text \<open>
  \<^verbatim>\<open>Compilation::forceElaborate\<close> is not in the sources.  Its effect on the package is
  a parameter: the imports that elaborating the whole body notes, in order.  A lookup
  that re-enters \<^verbatim>\<open>findForImport\<close> during the elaboration finds the flag already set
  and changes nothing, so it leaves no mark on this state.
\<close>

definition forceElaborate :: "PackageSymbol \<Rightarrow> ImportedSymbol list \<Rightarrow> PackageState \<Rightarrow> PackageState" where
  "forceElaborate pkg noted st =
     fold (PackageSymbol_noteImport pkg) noted
       (st\<lparr>forceElaborations := Suc (forceElaborations st)\<rparr>)"

definition PackageSymbol_findForImport ::
  "ImportedSymbol list \<Rightarrow> PackageSymbol \<Rightarrow> string \<Rightarrow> PackageState \<Rightarrow> nat option \<times> PackageState" where
  "PackageSymbol_findForImport noted pkg lookupName st =
     (case directMembers pkg lookupName of
        Some found \<Rightarrow> (Some found, st)
      | None \<Rightarrow>
          if \<not> hasExportAll pkg \<and> exportDecls pkg = [] then (None, st)
          else
            (let st1 = (if \<not> hasForceElaborated st
                        then forceElaborate pkg noted (st\<lparr>hasForceElaborated := True\<rparr>)
                        else st)
             in (findPackageExportCandidate st1 lookupName, st1)))"

section \<open>Port connections of module instances\<close>

text \<open>
  \<^verbatim>\<open>InstanceSymbol::getPortConnections\<close>, \<^verbatim>\<open>getPortConnection\<close>,
  \<^verbatim>\<open>resolvePortConnections\<close> and \<^verbatim>\<open>connectDefaultIfacePorts\<close> (InstanceSymbols.cpp).
  Ports and connections are opaque identifiers.  The state is that of one instance and
  its body: the memo \<^verbatim>\<open>connectionMap\<close> (null is \<open>None\<close>), the span \<^verbatim>\<open>connections\<close>,
  the state of the body's lazy port list, and a trace of what each call of
  \<^verbatim>\<open>resolvePortConnections\<close> found at its test \<^verbatim>\<open>if (connectionMap) return;\<close>.
  The trace is read by no operation.
\<close>

datatype LazyState = Unset | InProgress | Ready

text \<open>
  An entry of the trace carries the nesting depth of the call: 0 for a call from outside,
  1 for a call made while the body's port list is being elaborated.
\<close>

datatype ConnEvent = FoundSet nat | FoundUnset nat | AllocatedMap nat

record InstanceConnState =
  connectionMap :: "(nat \<Rightarrow> nat option) option"
  connections :: "nat list"
  portListState :: LazyState
  connTrace :: "ConnEvent list"

text \<open>
  What is fixed for the instance: the port list of its body, whether it has syntax, the
  connections \<^verbatim>\<open>PortConnection::makeConnections\<close> builds (a collaborator outside the
  sources), whether default interface connections apply (\<^verbatim>\<open>isTopLevel()\<close> and the flag
  \<^verbatim>\<open>AllowTopLevelIfacePorts\<close>), the interface ports that have a definition with the
  connection made for each, and the ports whose connection the elaboration of the port
  list asks for (the interface ports that later port types depend on).
\<close>

record InstancePorts =
  portList :: "nat list"
  hasSyntax :: bool
  madeConnections :: "nat list"
  topLevelIfaceDefaults :: bool
  ifacePorts :: "(nat \<times> nat) list"
  portDemands :: "nat list"

text \<open>\<^verbatim>\<open>connectionMap->emplace(key, v)\<close>: an entry that exists is kept.\<close>

definition emplace :: "nat \<Rightarrow> nat \<Rightarrow> (nat \<Rightarrow> nat option) \<Rightarrow> (nat \<Rightarrow> nat option)" where
  "emplace k v m = (case m k of None \<Rightarrow> m(k := Some v) | Some _ \<Rightarrow> m)"

text \<open>
  The loop that pairs the connections with the ports.  \<open>None\<close> is a failed assertion:
  \<^verbatim>\<open>SLANG_ASSERT(portIt != portList.end())\<close> inside the loop,
  \<^verbatim>\<open>SLANG_ASSERT(portIt == portList.end())\<close> after it.
\<close>

fun fillMap ::
  "nat list \<Rightarrow> nat list \<Rightarrow> (nat \<Rightarrow> nat option) \<Rightarrow> (nat \<Rightarrow> nat option) option" where
  "fillMap [] [] m = Some m"
| "fillMap (p # ps) (c # cs) m = fillMap ps cs (emplace p c m)"
| "fillMap ps cs m = None"

definition connectDefaultIfacePorts :: "InstancePorts \<Rightarrow> InstanceConnState \<Rightarrow> InstanceConnState" where
  "connectDefaultIfacePorts P st =
     st\<lparr>connectionMap :=
          map_option (\<lambda>m. fold (\<lambda>(p, c) m. emplace p c m) (ifacePorts P) m) (connectionMap st),
        connections := map snd (ifacePorts P)\<rparr>"

text \<open>
  \<^verbatim>\<open>resolvePortConnections\<close> with the body's \<^verbatim>\<open>getPortList\<close> as its first argument:
  the port list is asked for first, the memo is tested after that, and only a call that
  finds the memo still null allocates the map and makes the connections.
\<close>

definition resolveWith ::
  "(InstanceConnState \<Rightarrow> InstanceConnState option) \<Rightarrow> nat \<Rightarrow> InstancePorts \<Rightarrow>
   InstanceConnState \<Rightarrow> InstanceConnState option" where
  "resolveWith getPortList depth P st =
     (case getPortList st of
        None \<Rightarrow> None
      | Some st1 \<Rightarrow>
          if connectionMap st1 \<noteq> None
          then Some (st1\<lparr>connTrace := connTrace st1 @ [FoundSet depth]\<rparr>)
          else
            (let st2 = st1\<lparr>connectionMap := Some (\<lambda>_. None),
                          connTrace := connTrace st1 @ [FoundUnset depth, AllocatedMap depth]\<rparr>
             in if \<not> hasSyntax P
                then Some (if topLevelIfaceDefaults P then connectDefaultIfacePorts P st2 else st2)
                else (case fillMap (portList P) (madeConnections P) (\<lambda>_. None) of
                        None \<Rightarrow> None
                      | Some m \<Rightarrow>
                          Some (st2\<lparr>connectionMap := Some m, connections := madeConnections P\<rparr>))))"

text \<open>
  Modelled from the spec: \<^verbatim>\<open>InstanceBodySymbol::getPortList\<close> is not in the sources.
  Following sections 4.5 and 9, the port list is a lazy field (unset, in progress,
  ready): the first demand elaborates the ports, which asks the instance for the
  connection of each port in \<open>portDemands\<close> and so re-enters
  \<^verbatim>\<open>resolvePortConnections\<close>; a demand made while the list is in progress, or when it
  is ready, returns the list and does nothing else.
\<close>

definition getPortListNested :: "InstanceConnState \<Rightarrow> InstanceConnState option" where
  "getPortListNested st = Some st"

text \<open>
  \<^verbatim>\<open>getPortConnection(port)\<close> called from the elaboration of the port list:
  \<^verbatim>\<open>if (!connectionMap) resolvePortConnections();\<close> followed by a read of the map.
\<close>

definition getPortConnectionNested ::
  "InstancePorts \<Rightarrow> nat \<Rightarrow> InstanceConnState \<Rightarrow> InstanceConnState option" where
  "getPortConnectionNested P port st =
     (if connectionMap st = None then resolveWith getPortListNested 1 P st else Some st)"

fun demandAll :: "InstancePorts \<Rightarrow> nat list \<Rightarrow> InstanceConnState \<Rightarrow> InstanceConnState option" where
  "demandAll P [] st = Some st"
| "demandAll P (p # ps) st =
     (case getPortConnectionNested P p st of None \<Rightarrow> None | Some st1 \<Rightarrow> demandAll P ps st1)"

definition getPortList :: "InstancePorts \<Rightarrow> InstanceConnState \<Rightarrow> InstanceConnState option" where
  "getPortList P st =
     (if portListState st = Unset
      then map_option (\<lambda>s. s\<lparr>portListState := Ready\<rparr>)
             (demandAll P (portDemands P) (st\<lparr>portListState := InProgress\<rparr>))
      else Some st)"

definition resolvePortConnections :: "InstancePorts \<Rightarrow> InstanceConnState \<Rightarrow> InstanceConnState option" where
  "resolvePortConnections P st = resolveWith (getPortList P) 0 P st"

text \<open>
  \<^verbatim>\<open>getPortConnections\<close>: \<^verbatim>\<open>if (!connectionMap) resolvePortConnections(); return connections;\<close>
\<close>

definition InstanceSymbol_getPortConnections ::
  "InstancePorts \<Rightarrow> InstanceConnState \<Rightarrow> (nat list \<times> InstanceConnState) option" where
  "InstanceSymbol_getPortConnections P st =
     (if connectionMap st = None
      then map_option (\<lambda>s. (connections s, s)) (resolvePortConnections P st)
      else Some (connections st, st))"

text \<open>What a caller reads from the memo: the connection of each port of the list.\<close>

definition mapContents :: "InstancePorts \<Rightarrow> InstanceConnState \<Rightarrow> (nat \<times> nat option) list" where
  "mapContents P st = map (\<lambda>p. (p, case connectionMap st of None \<Rightarrow> None | Some m \<Rightarrow> m p)) (portList P)"

section \<open>Symbols of the instance hierarchy\<close>

text \<open>
  The data that instance elaboration (InstanceSymbols.cpp) reads and builds.  Objects
  that the compilation allocates (\<^verbatim>\<open>compilation.emplace<T>(...)\<close>) live in an arena; a
  pointer to one is its index in the arena.  Locations, attributes and source ranges are
  left out.  Diagnostics that collaborators outside the sources emit by themselves
  (\<^verbatim>\<open>evalDimension\<close>, \<^verbatim>\<open>getDefinition\<close>, name lookup, parameter and port
  elaboration) are not part of the model: the sink holds what the modelled code adds.
\<close>

subsection \<open>Ranges and dimensions\<close>

text \<open>
  Modelled from the spec: the type \<^verbatim>\<open>ConstantRange\<close> is not in the sources.  Following
  sections 3, 4.4 and 8, a range has two bounds, \<open>lower\<close> and \<open>upper\<close> are the smaller and
  the larger one, and a range \<open>[lo..hi]\<close> has width \<open>hi - lo + 1\<close>.  The bounds are
  32-bit signed integers in the sources (\<^verbatim>\<open>int32_t i = range.lower()\<close>); they are
  integers here, and the one place where the sources increment such a value writes its
  overflow out.  \<open>ConstantRange_default\<close> is the value-initialised range
  \<^verbatim>\<open>ConstantRange()\<close>, which the spec calls the empty range of a substituted array.
\<close>

record ConstantRange =
  rangeLeft :: int
  rangeRight :: int

definition lower :: "ConstantRange \<Rightarrow> int" where
  "lower r = min (rangeLeft r) (rangeRight r)"

definition upper :: "ConstantRange \<Rightarrow> int" where
  "upper r = max (rangeLeft r) (rangeRight r)"

definition width :: "ConstantRange \<Rightarrow> nat" where
  "width r = nat (upper r - lower r + 1)"

definition ConstantRange_default :: ConstantRange where
  "ConstantRange_default = \<lparr>rangeLeft = 0, rangeRight = 0\<rparr>"

definition INT32_MAX :: int where
  "INT32_MAX = 2147483647"

text \<open>The result of \<^verbatim>\<open>ASTContext::evalDimension\<close>: whether it is a range, and the range.\<close>

record EvaluatedDimension =
  isRange :: bool
  dimRange :: ConstantRange

subsection \<open>Syntax\<close>

text \<open>
  A hierarchical instance: the identity of the node, its declarator if it has one (the
  instance name and the dimension syntax nodes), and its connections.
\<close>

record InstanceNameSyntax =
  nameText :: string
  dimensions :: "nat list"

record HierarchicalInstanceSyntax =
  nodeId :: nat
  decl :: "InstanceNameSyntax option"
  instConnections :: "PortConnectionSyntax list"

text \<open>
  An instantiation statement (\<^verbatim>\<open>HierarchyInstantiationSyntax\<close>,
  \<^verbatim>\<open>CheckerInstantiationSyntax\<close>): the name of the instantiated type, whether a
  parameter assignment is present, the instances, and whether the parent node is a
  checker instance statement.
\<close>

record InstantiationSyntax =
  typeName :: string
  hasParameters :: bool
  instances :: "HierarchicalInstanceSyntax list"
  inCheckerInstanceStatement :: bool

text \<open>\<^verbatim>\<open>getNameLoc\<close>: the name of the declarator, the empty name without one.\<close>

definition getName :: "HierarchicalInstanceSyntax \<Rightarrow> string" where
  "getName syn = (case decl syn of Some d \<Rightarrow> nameText d | None \<Rightarrow> [])"

subsection \<open>Definitions and overrides\<close>

datatype DefinitionKind = Module | Interface | Program

record DefinitionSymbol =
  defName :: string
  definitionKind :: DefinitionKind

text \<open>
  A checker: its name, the syntax node of its declaration and its formal ports (for each
  the name, the direction if it has one, and whether it has a default value).  A checker
  is created from its declaration, so \<^verbatim>\<open>checker.getSyntax()\<close> and its parent scope are
  there (the two assertions on them hold).
\<close>

record AssertionPort =
  apName :: string
  apDirection :: "ArgumentDirection option"
  apHasDefault :: bool

record CheckerSymbol =
  checkerName :: string
  checkerSyntax :: nat
  checkerPorts :: "AssertionPort list"

text \<open>
  A node of the hierarchy override tree.  Its children are found by the syntax node or
  the array index they belong to, and by name.  The parameter overrides and bind
  directives it carries only matter to the members of a body, which are not modelled.
\<close>

datatype OverrideKey = SyntaxKey nat | IndexKey nat

datatype HierarchyOverrideNode =
  HierarchyOverrideNode
    (childrenBySyntax: "(OverrideKey \<times> HierarchyOverrideNode) list")
    (childrenByName: "(string \<times> HierarchyOverrideNode) list")

text \<open>
  \<^verbatim>\<open>ResolvedConfig\<close>: the root instance is a pointer into the arena.  The constructor
  takes the liblist from the default liblist of the configuration and leaves the rule
  null.
\<close>

record ResolvedConfig =
  useConfig :: ConfigBlockSymbol
  rootInstance :: nat
  resolvedLiblist :: "SourceLibrary list"
  configRule :: "ConfigRule option"

definition ResolvedConfig_new :: "ConfigBlockSymbol \<Rightarrow> nat \<Rightarrow> ResolvedConfig" where
  "ResolvedConfig_new cfg root =
     \<lparr>useConfig = cfg, rootInstance = root, resolvedLiblist = defaultLiblist cfg,
      configRule = None\<rparr>"

subsection \<open>The arena\<close>

text \<open>
  A body is that of a module-like instance (\<^verbatim>\<open>InstanceBodySymbol\<close>: its definition and
  override node) or of a checker instance (\<^verbatim>\<open>CheckerInstanceBodySymbol\<close>: its checker,
  instance depth and whether it is procedural).  Both have the flags
  \<^verbatim>\<open>isUninstantiated\<close> and \<^verbatim>\<open>isFromBind\<close> and the back-pointer \<^verbatim>\<open>parentInstance\<close>,
  null until an instance is constructed on the body.
\<close>

datatype BodyOf =
    OfDefinition DefinitionSymbol "HierarchyOverrideNode option"
  | OfChecker CheckerSymbol nat bool

record BodySymbol =
  bodyOf :: BodyOf
  isUninstantiated :: bool
  isFromBind :: bool
  parentInstance :: "nat option"

text \<open>
  The symbols that instantiation creates.  An instance and a checker instance point to
  their body; an instance array holds pointers to its elements.
\<close>

datatype SymbolData =
    Instance nat "int list" "ResolvedConfig option"
  | CheckerInstance nat "int list"
  | InstanceArray "nat list" ConstantRange
  | PrimitiveInstance PrimitiveSymbol "int list"
  | UninstantiatedDef string bool
  | Net

record Symbol =
  name :: string
  symData :: SymbolData
  syntaxNode :: "nat option"
  parentScope :: "nat option"

text \<open>
  A call of \<^verbatim>\<open>Compilation::getDefinition\<close> or of a name lookup, as it is recorded in
  the trace \<open>lookups\<close> (read by no operation).
\<close>

datatype LookupEvent =
    DefinitionLookup string
  | RuleLookup string nat
  | CellLookup string string
  | NameLookup string

text \<open>
  The state that elaboration of one instantiation statement works on: the two arenas,
  the diagnostics sink, the trace of lookups, the definitions noted as instantiated,
  and the two vectors the caller passes in, \<^verbatim>\<open>results\<close> and \<^verbatim>\<open>implicitNets\<close>.
\<close>

record Elaboration =
  symbols :: "Symbol list"
  bodies :: "BodySymbol list"
  diags :: "DiagCode list"
  lookups :: "LookupEvent list"
  instantiated :: "string list"
  results :: "nat list"
  implicitNets :: "nat list"

definition addDiag :: "DiagCode \<Rightarrow> Elaboration \<Rightarrow> Elaboration" where
  "addDiag code st = st\<lparr>diags := diags st @ [code]\<rparr>"

definition noteLookup :: "LookupEvent \<Rightarrow> Elaboration \<Rightarrow> Elaboration" where
  "noteLookup ev st = st\<lparr>lookups := lookups st @ [ev]\<rparr>"

definition pushResult :: "nat \<Rightarrow> Elaboration \<Rightarrow> Elaboration" where
  "pushResult p st = st\<lparr>results := results st @ [p]\<rparr>"

text \<open>\<^verbatim>\<open>emplace\<close>: the new object goes to the end of its arena; its index is its address.\<close>

definition emplaceSymbol :: "Symbol \<Rightarrow> Elaboration \<Rightarrow> nat \<times> Elaboration" where
  "emplaceSymbol s st = (length (symbols st), st\<lparr>symbols := symbols st @ [s]\<rparr>)"

definition emplaceBody :: "BodySymbol \<Rightarrow> Elaboration \<Rightarrow> nat \<times> Elaboration" where
  "emplaceBody b st = (length (bodies st), st\<lparr>bodies := bodies st @ [b]\<rparr>)"

text \<open>A write through a pointer to a symbol or to a body.\<close>

definition updSymbol :: "nat \<Rightarrow> (Symbol \<Rightarrow> Symbol) \<Rightarrow> Elaboration \<Rightarrow> Elaboration" where
  "updSymbol p f st = st\<lparr>symbols := (symbols st)[p := f (symbols st ! p)]\<rparr>"

definition updBody :: "nat \<Rightarrow> (BodySymbol \<Rightarrow> BodySymbol) \<Rightarrow> Elaboration \<Rightarrow> Elaboration" where
  "updBody b f st = st\<lparr>bodies := (bodies st)[b := f (bodies st ! b)]\<rparr>"

definition newSymbol :: "string \<Rightarrow> SymbolData \<Rightarrow> Symbol" where
  "newSymbol n d = \<lparr>name = n, symData = d, syntaxNode = None, parentScope = None\<rparr>"

text \<open>The fields of an instance that are assigned after its construction.\<close>

fun setArrayPath :: "int list \<Rightarrow> Symbol \<Rightarrow> Symbol" where
  "setArrayPath path s =
     (case symData s of
        Instance b _ rc \<Rightarrow> s\<lparr>symData := Instance b path rc\<rparr>
      | CheckerInstance b _ \<Rightarrow> s\<lparr>symData := CheckerInstance b path\<rparr>
      | PrimitiveInstance prim _ \<Rightarrow> s\<lparr>symData := PrimitiveInstance prim path\<rparr>
      | _ \<Rightarrow> s)"

fun setResolvedConfig :: "ResolvedConfig option \<Rightarrow> Symbol \<Rightarrow> Symbol" where
  "setResolvedConfig rc s =
     (case symData s of Instance b path _ \<Rightarrow> s\<lparr>symData := Instance b path rc\<rparr> | _ \<Rightarrow> s)"

fun setMustBeChecker :: "Symbol \<Rightarrow> Symbol" where
  "setMustBeChecker s =
     (case symData s of UninstantiatedDef n _ \<Rightarrow> s\<lparr>symData := UninstantiatedDef n True\<rparr> | _ \<Rightarrow> s)"

text \<open>\<^verbatim>\<open>result->addMember(*element)\<close>, as far as the element is concerned: its parent scope is set.\<close>

definition addMembers :: "nat \<Rightarrow> nat list \<Rightarrow> Elaboration \<Rightarrow> Elaboration" where
  "addMembers arr elems st = fold (\<lambda>e. updSymbol e (\<lambda>s. s\<lparr>parentScope := Some arr\<rparr>)) elems st"

subsection \<open>Constructors of instances\<close>

text \<open>
  \<^verbatim>\<open>InstanceBodySymbol::fromDefinition\<close>, as far as the fields of the body go: a new body
  in the arena, no parent instance yet.
\<close>

definition InstanceBodySymbol_fromDefinition ::
  "DefinitionSymbol \<Rightarrow> HierarchyOverrideNode option \<Rightarrow> bool \<Rightarrow> bool \<Rightarrow> Elaboration \<Rightarrow>
   nat \<times> Elaboration" where
  "InstanceBodySymbol_fromDefinition definition overrideNode isUninst fromBind st =
     emplaceBody \<lparr>bodyOf = OfDefinition definition overrideNode, isUninstantiated = isUninst,
                  isFromBind = fromBind, parentInstance = None\<rparr> st"

text \<open>
  The constructor \<^verbatim>\<open>InstanceSymbol(name, loc, body)\<close>: the instance is placed in the
  arena and the body's back-pointer is set to it (\<^verbatim>\<open>body.parentInstance = this\<close>).
\<close>

definition InstanceSymbol_new :: "string \<Rightarrow> nat \<Rightarrow> Elaboration \<Rightarrow> nat \<times> Elaboration" where
  "InstanceSymbol_new n body st =
     (case emplaceSymbol (newSymbol n (Instance body [] None)) st of
        (this, st1) \<Rightarrow> (this, updBody body (\<lambda>b. b\<lparr>parentInstance := Some this\<rparr>) st1))"

text \<open>The constructor \<^verbatim>\<open>CheckerInstanceSymbol(name, loc, body)\<close>, likewise.\<close>

definition CheckerInstanceSymbol_new :: "string \<Rightarrow> nat \<Rightarrow> Elaboration \<Rightarrow> nat \<times> Elaboration" where
  "CheckerInstanceSymbol_new n body st =
     (case emplaceSymbol (newSymbol n (CheckerInstance body [])) st of
        (this, st1) \<Rightarrow> (this, updBody body (\<lambda>b. b\<lparr>parentInstance := Some this\<rparr>) st1))"

text \<open>
  The delegating constructor of \<^verbatim>\<open>InstanceSymbol\<close> that builds the body from a
  definition, and the factory functions \<^verbatim>\<open>createDefault\<close>, \<^verbatim>\<open>createInvalid\<close> and
  \<^verbatim>\<open>createVirtual\<close>.
\<close>

definition InstanceSymbol_fromDefinition ::
  "string \<Rightarrow> DefinitionSymbol \<Rightarrow> HierarchyOverrideNode option \<Rightarrow> bool \<Rightarrow> bool \<Rightarrow> Elaboration \<Rightarrow>
   nat \<times> Elaboration" where
  "InstanceSymbol_fromDefinition n definition overrideNode isUninst fromBind st =
     (case InstanceBodySymbol_fromDefinition definition overrideNode isUninst fromBind st of
        (body, st1) \<Rightarrow> InstanceSymbol_new n body st1)"

definition InstanceSymbol_createDefault ::
  "DefinitionSymbol \<Rightarrow> HierarchyOverrideNode option \<Rightarrow> Elaboration \<Rightarrow> nat \<times> Elaboration" where
  "InstanceSymbol_createDefault definition overrideNode st =
     InstanceSymbol_fromDefinition (defName definition) definition overrideNode False False st"

definition InstanceSymbol_createInvalid :: "DefinitionSymbol \<Rightarrow> Elaboration \<Rightarrow> nat \<times> Elaboration" where
  "InstanceSymbol_createInvalid definition st =
     InstanceSymbol_fromDefinition [] definition None True False st"

definition InstanceSymbol_createVirtual :: "DefinitionSymbol \<Rightarrow> Elaboration \<Rightarrow> nat \<times> Elaboration" where
  "InstanceSymbol_createVirtual definition st =
     InstanceSymbol_fromDefinition (defName definition) definition None False False st"

section \<open>Building instances and instance arrays\<close>

subsection \<open>Scopes and the elaboration context\<close>

text \<open>
  The chain of scopes that encloses an instantiation statement, as the walks over
  \<^verbatim>\<open>getParentScope()\<close> see it.  Each scope names its symbol and its parent scope
  (\<open>None\<close> is a null parent).  For the body of an instance the parent given is the scope
  that holds its parent instance, \<^verbatim>\<open>parentInstance->getParentScope()\<close>.  The body of a
  checker instance has two: the parent of the body itself (the scope of the checker
  declaration) and the scope that holds its parent instance.
\<close>

datatype StatementBlockKind = Sequential | JoinAll | JoinAny | JoinNone

record ParentInstance =
  piAddress :: nat
  piName :: string
  piResolvedConfig :: "ResolvedConfig option"

record ParentBody =
  pbDefinition :: DefinitionSymbol
  pbOverrideNode :: "HierarchyOverrideNode option"
  pbIsUninstantiated :: bool
  pbIsFromBind :: bool
  pbParentInstance :: "ParentInstance option"

record ParentCheckerBody =
  cbChecker :: CheckerSymbol
  cbIsUninstantiated :: bool

datatype Scope =
    InstanceBodyScope ParentBody "Scope option"
  | CheckerInstanceBodyScope ParentCheckerBody "Scope option" "Scope option"
  | GenerateBlockScope string bool "Scope option"
  | StatementBlockScope string StatementBlockKind "Scope option"
  | OtherScope string "Scope option"

text \<open>What the collaborators outside the sources answer.\<close>

datatype LocalSymbol =
    CheckerFound CheckerSymbol
  | ClassTypeFound
  | SubroutineFound
  | OtherFound

datatype DefinitionFound =
    PrimitiveFound PrimitiveSymbol
  | DefinitionFound DefinitionSymbol

datatype RuleDefinitionFound =
    RulePrimitive PrimitiveSymbol
  | RuleDefinition DefinitionSymbol
  | RuleConfigBlock ConfigBlockSymbol

text \<open>
  The enclosing body that \<^verbatim>\<open>ASTContext::tryFillAssertionDetails\<close> returns: the body of
  a checker instance (its instance depth and \<^verbatim>\<open>isFromBind\<close>) or the body of an instance
  (its \<^verbatim>\<open>isFromBind\<close>).
\<close>

datatype AssertionParent =
    CheckerBodyParent nat bool
  | InstanceBodyParent bool

text \<open>
  \<^verbatim>\<open>PortConnection::ConnMap\<close>, which is built outside the sources from the connections of
  an instance: whether they are ordered, the ordered connections, the named connections
  by name (one entry per name; each with whether it has parentheses and its expression),
  and whether there is a wildcard connection.
\<close>

record NamedConn =
  ncOpenParen :: bool
  ncExpr :: "nat option"

record ConnMap =
  usingOrdered :: bool
  orderedConns :: "PortConnectionSyntax list"
  namedConns :: "(string \<times> NamedConn) list"
  hasWildcard :: bool

text \<open>
  The context of one instantiation statement: its scope, the compilation options and
  flags, and the collaborators as parameters.  \<^verbatim>\<open>Compilation::getDefinition\<close> has three
  overloads: by name, by name and configuration rule, and by configuration and cell.
  \<open>foundParentOverrideNode\<close> is the result of \<^verbatim>\<open>findParentOverrideNode(*context.scope)\<close>;
  \<open>potentiallyImplicitNets\<close> lists, for an instance, the identifiers that
  \<^verbatim>\<open>Expression::findPotentiallyImplicitNets\<close> finds in its connections, in order;
  \<open>connMap\<close> is the connection map of an instance; \<open>lookupPortName\<close> says whether
  \<^verbatim>\<open>Lookup::unqualified\<close> finds the name of a port (the flag is
  \<^verbatim>\<open>DisallowWildcardImport\<close>); \<open>getGateType\<close> is \<^verbatim>\<open>Compilation::getGateType\<close>.
\<close>

record ASTContext =
  scope :: Scope
  maxInstanceArray :: nat
  maxCheckerInstanceDepth :: nat
  evalDimension :: "nat \<Rightarrow> EvaluatedDimension"
  lookupUnqualified :: "string \<Rightarrow> LocalSymbol option"
  lookupName :: "string \<Rightarrow> LocalSymbol option"
  getDefinition :: "string \<Rightarrow> DefinitionFound option"
  getDefinitionByRule :: "string \<Rightarrow> ConfigRule \<Rightarrow> RuleDefinitionFound option"
  getDefinitionInConfig :: "ConfigBlockSymbol \<Rightarrow> ConfigCellId \<Rightarrow> DefinitionFound option"
  netTypeIsError :: bool
  potentiallyImplicitNets :: "nat \<Rightarrow> string list"
  foundParentOverrideNode :: "HierarchyOverrideNode option"
  assertionParent :: "AssertionParent option"
  connMap :: "nat \<Rightarrow> ConnMap"
  lookupPortName :: "string \<Rightarrow> bool \<Rightarrow> bool"
  getGateType :: "string \<Rightarrow> PrimitiveSymbol option"
  allowBareValParamAssignment :: bool

subsection \<open>Implicit nets\<close>

text \<open>
  \<^verbatim>\<open>createImplicitNets\<close>: one net per name that is new to the set of names seen so far
  in the statement; nothing when the default net type is the error type.
\<close>

fun addImplicitNets :: "string list \<Rightarrow> string list \<times> Elaboration \<Rightarrow> string list \<times> Elaboration" where
  "addImplicitNets [] (seen, st) = (seen, st)"
| "addImplicitNets (n # ns) (seen, st) =
     (if n \<in> set seen then addImplicitNets ns (seen, st)
      else (case emplaceSymbol (newSymbol n Net) st of
              (net, st1) \<Rightarrow>
                addImplicitNets ns (seen @ [n], st1\<lparr>implicitNets := implicitNets st1 @ [net]\<rparr>)))"

definition createImplicitNets ::
  "ASTContext \<Rightarrow> HierarchicalInstanceSyntax \<Rightarrow> string list \<times> Elaboration \<Rightarrow> string list \<times> Elaboration" where
  "createImplicitNets ctx syn acc =
     (if netTypeIsError ctx then acc
      else addImplicitNets (potentiallyImplicitNets ctx (nodeId syn)) acc)"

subsection \<open>The instance builder\<close>

text \<open>The members of \<^verbatim>\<open>InstanceBuilder\<close> that are fixed at its construction.\<close>

record InstanceBuilder =
  ibDefinition :: DefinitionSymbol
  ibParentOverrideNode :: "HierarchyOverrideNode option"
  ibResolvedConfig :: "ResolvedConfig option"
  ibNewConfigRoot :: "ConfigBlockSymbol option"
  ibIsFromBind :: bool

text \<open>
  \<^verbatim>\<open>InstanceBuilder::createInstance\<close>.  The member \<^verbatim>\<open>path\<close> of the builder is passed as
  an argument: the recursion pushes an index before each call and pops it after.
\<close>

definition createInstance ::
  "InstanceBuilder \<Rightarrow> HierarchicalInstanceSyntax \<Rightarrow> HierarchyOverrideNode option \<Rightarrow> int list \<Rightarrow>
   Elaboration \<Rightarrow> nat \<times> Elaboration" where
  "createInstance b syn overrideNode path st =
     (case InstanceSymbol_fromDefinition (getName syn) (ibDefinition b) overrideNode False
             (ibIsFromBind b) st of
        (inst, st1) \<Rightarrow>
          (let st2 = updSymbol inst (\<lambda>s. (setArrayPath path s)\<lparr>syntaxNode := Some (nodeId syn)\<rparr>) st1
           in (inst,
               (case ibResolvedConfig b of
                  None \<Rightarrow> st2
                | Some rc \<Rightarrow>
                    (case ibNewConfigRoot b of
                       Some newRoot \<Rightarrow>
                         updSymbol inst
                           (setResolvedConfig
                              (Some ((ResolvedConfig_new newRoot inst)\<lparr>configRule := configRule rc\<rparr>)))
                           st2
                     | None \<Rightarrow> updSymbol inst (setResolvedConfig (Some rc)) st2)))))"

text \<open>
  \<^verbatim>\<open>createEmpty\<close>: an instance array with no elements and the value-initialised range,
  under the name of the declarator.
\<close>

definition createEmpty :: "HierarchicalInstanceSyntax \<Rightarrow> Elaboration \<Rightarrow> nat \<times> Elaboration" where
  "createEmpty syn st = emplaceSymbol (newSymbol (getName syn) (InstanceArray [] ConstantRange_default)) st"

text \<open>
  The array that ends a dimension: it is placed in the arena with its elements and its
  range, and every element becomes a member of it.
\<close>

definition finishArray ::
  "HierarchicalInstanceSyntax \<Rightarrow> bool \<Rightarrow> nat list \<Rightarrow> ConstantRange \<Rightarrow> Elaboration \<Rightarrow> nat \<times> Elaboration" where
  "finishArray syn withSyntax elements r st =
     (case emplaceSymbol (newSymbol (getName syn) (InstanceArray elements r)) st of
        (result, st1) \<Rightarrow>
          (result,
           addMembers result elements
             (if withSyntax then updSymbol result (\<lambda>s. s\<lparr>syntaxNode := Some (nodeId syn)\<rparr>) st1
              else st1)))"

text \<open>
  \<^verbatim>\<open>InstanceBuilder::recurse\<close>.  The loop
  \<^verbatim>\<open>for (uint32_t i = 0; i < range.width(); i++)\<close> runs over the indices
  \<open>[0..<width r]\<close>; \<open>recurseElements\<close> is its body and its continuation.
\<close>

fun recurse ::
  "ASTContext \<Rightarrow> InstanceBuilder \<Rightarrow> HierarchicalInstanceSyntax \<Rightarrow> HierarchyOverrideNode option \<Rightarrow>
   nat list \<Rightarrow> int list \<Rightarrow> Elaboration \<Rightarrow> nat \<times> Elaboration"
and recurseElements ::
  "ASTContext \<Rightarrow> InstanceBuilder \<Rightarrow> HierarchicalInstanceSyntax \<Rightarrow> HierarchyOverrideNode option \<Rightarrow>
   nat list \<Rightarrow> ConstantRange \<Rightarrow> nat list \<Rightarrow> int list \<Rightarrow> nat list \<Rightarrow> Elaboration \<Rightarrow>
   nat list \<times> Elaboration" where
  "recurse ctx b syn overrideNode [] path st = createInstance b syn overrideNode path st"
| "recurse ctx b syn overrideNode (d # ds) path st =
     (if \<not> isRange (evalDimension ctx d) then createEmpty syn st
      else if width (dimRange (evalDimension ctx d)) > maxInstanceArray ctx
      then createEmpty syn (addDiag MaxInstanceArrayExceeded st)
      else (case recurseElements ctx b syn overrideNode ds (dimRange (evalDimension ctx d))
                   [0 ..< width (dimRange (evalDimension ctx d))] path [] st of
              (elements, st1) \<Rightarrow> finishArray syn True elements (dimRange (evalDimension ctx d)) st1))"
| "recurseElements ctx b syn overrideNode ds r [] path elements st = (elements, st)"
| "recurseElements ctx b syn overrideNode ds r (i # idxs) path elements st =
     (case recurse ctx b syn
             (case overrideNode of
                None \<Rightarrow> None
              | Some n \<Rightarrow> map_of (childrenBySyntax n) (IndexKey i))
             ds (path @ [lower r + int i]) st of
        (symbol, st1) \<Rightarrow>
          recurseElements ctx b syn overrideNode ds r idxs path (elements @ [symbol])
            (updSymbol symbol (\<lambda>s. s\<lparr>name := []\<rparr>) st1))"

text \<open>
  \<^verbatim>\<open>InstanceBuilder::create\<close>.  An instance without a declarator is diagnosed and
  created as a single instance; otherwise the override node of the instance is looked
  up (by syntax node first, by name second) and the dimensions are walked.
\<close>

definition create ::
  "ASTContext \<Rightarrow> InstanceBuilder \<Rightarrow> HierarchicalInstanceSyntax \<Rightarrow> Elaboration \<Rightarrow> nat \<times> Elaboration" where
  "create ctx b syn st =
     (case decl syn of
        None \<Rightarrow> createInstance b syn None [] (addDiag InstanceNameRequired st)
      | Some d \<Rightarrow>
          recurse ctx b syn
            (case ibParentOverrideNode b of
               None \<Rightarrow> None
             | Some pn \<Rightarrow>
                 (case map_of (childrenBySyntax pn) (SyntaxKey (nodeId syn)) of
                    Some n \<Rightarrow> Some n
                  | None \<Rightarrow> map_of (childrenByName pn) (nameText d)))
            (dimensions d) [] st)"

subsection \<open>Arrays of primitive and checker instances\<close>

text \<open>
  \<^verbatim>\<open>recursePrimArray\<close> and \<^verbatim>\<open>recurseCheckerArray\<close> are the same function but for the
  instance created at the end of the dimensions, which is the parameter \<open>leaf\<close> here.
  Their loop is \<^verbatim>\<open>for (int32_t i = range.lower(); i <= range.upper(); i++)\<close>: it runs
  over the indices \<open>[lower r..upper r]\<close>, and when the upper bound is the largest 32-bit
  integer the increment after the last element overflows, which is undefined.  The
  result \<open>None\<close> stands for that.  Unlike \<^verbatim>\<open>InstanceBuilder::recurse\<close>, these functions
  do not set the syntax of the array.
\<close>

fun recurseLeafArray ::
  "(int list \<Rightarrow> Elaboration \<Rightarrow> nat \<times> Elaboration) \<Rightarrow> ASTContext \<Rightarrow> HierarchicalInstanceSyntax \<Rightarrow>
   nat list \<Rightarrow> int list \<Rightarrow> Elaboration \<Rightarrow> (nat \<times> Elaboration) option"
and leafElements ::
  "(int list \<Rightarrow> Elaboration \<Rightarrow> nat \<times> Elaboration) \<Rightarrow> ASTContext \<Rightarrow> HierarchicalInstanceSyntax \<Rightarrow>
   nat list \<Rightarrow> int list \<Rightarrow> int list \<Rightarrow> nat list \<Rightarrow> Elaboration \<Rightarrow>
   (nat list \<times> Elaboration) option" where
  "recurseLeafArray leaf ctx syn [] path st = Some (leaf path st)"
| "recurseLeafArray leaf ctx syn (d # ds) path st =
     (if \<not> isRange (evalDimension ctx d) then Some (createEmpty syn st)
      else if width (dimRange (evalDimension ctx d)) > maxInstanceArray ctx
      then Some (createEmpty syn (addDiag MaxInstanceArrayExceeded st))
      else if INT32_MAX \<le> upper (dimRange (evalDimension ctx d)) then None
      else (case leafElements leaf ctx syn ds
                   [lower (dimRange (evalDimension ctx d)) .. upper (dimRange (evalDimension ctx d))]
                   path [] st of
              None \<Rightarrow> None
            | Some (elements, st1) \<Rightarrow>
                Some (finishArray syn False elements (dimRange (evalDimension ctx d)) st1)))"
| "leafElements leaf ctx syn ds [] path elements st = Some (elements, st)"
| "leafElements leaf ctx syn ds (i # idxs) path elements st =
     (case recurseLeafArray leaf ctx syn ds (path @ [i]) st of
        None \<Rightarrow> None
      | Some (symbol, st1) \<Rightarrow>
          leafElements leaf ctx syn ds idxs path (elements @ [symbol])
            (updSymbol symbol (\<lambda>s. s\<lparr>name := []\<rparr>) st1))"

text \<open>\<^verbatim>\<open>createPrimInst\<close>.\<close>

definition createPrimInst ::
  "PrimitiveSymbol \<Rightarrow> HierarchicalInstanceSyntax \<Rightarrow> int list \<Rightarrow> Elaboration \<Rightarrow> nat \<times> Elaboration" where
  "createPrimInst prim syn path st =
     emplaceSymbol ((newSymbol (getName syn) (PrimitiveInstance prim path))
                      \<lparr>syntaxNode := Some (nodeId syn)\<rparr>) st"

definition recursePrimArray ::
  "ASTContext \<Rightarrow> PrimitiveSymbol \<Rightarrow> HierarchicalInstanceSyntax \<Rightarrow> nat list \<Rightarrow> int list \<Rightarrow>
   Elaboration \<Rightarrow> (nat \<times> Elaboration) option" where
  "recursePrimArray ctx prim syn dims path st =
     recurseLeafArray (createPrimInst prim syn) ctx syn dims path st"

section \<open>Placeholders, primitive instances and checker instances\<close>

subsection \<open>Uninstantiated definitions\<close>

text \<open>
  \<^verbatim>\<open>createUninstantiatedDef\<close>: the implicit nets of the instance, then one placeholder
  with the name of the instance and the name of the definition, pushed to the results.
  The parameter expressions that the placeholder keeps are not modelled.
\<close>

definition createUninstantiatedDef ::
  "ASTContext \<Rightarrow> string \<Rightarrow> HierarchicalInstanceSyntax \<Rightarrow> string list \<times> Elaboration \<Rightarrow>
   string list \<times> Elaboration" where
  "createUninstantiatedDef ctx moduleName syn acc =
     (case createImplicitNets ctx syn acc of
        (seen, st) \<Rightarrow>
          (case emplaceSymbol ((newSymbol (getName syn) (UninstantiatedDef moduleName False))
                                 \<lparr>syntaxNode := Some (nodeId syn)\<rparr>) st of
             (p, st1) \<Rightarrow> (seen, pushResult p st1)))"

text \<open>\<^verbatim>\<open>createUninstantiatedDefs\<close>: a new set of net names, and one placeholder per instance.\<close>

definition createUninstantiatedDefs ::
  "ASTContext \<Rightarrow> string \<Rightarrow> HierarchicalInstanceSyntax list \<Rightarrow> Elaboration \<Rightarrow> Elaboration" where
  "createUninstantiatedDefs ctx moduleName insts st =
     snd (fold (createUninstantiatedDef ctx moduleName) insts ([], st))"

text \<open>
  The overloads of \<^verbatim>\<open>UninstantiatedDefSymbol::fromSyntax\<close>: for a hierarchy
  instantiation; for one with an optional specific instance and the caller's set of
  net names; and for a checker instantiation, which marks every symbol of the results
  vector as a checker.  In the last, \<^verbatim>\<open>sym->as<UninstantiatedDefSymbol>()\<close> asserts the
  kind of each symbol: \<open>None\<close> is the failed assertion.
\<close>

definition UninstantiatedDefSymbol_fromSyntax :: "ASTContext \<Rightarrow> InstantiationSyntax \<Rightarrow> Elaboration \<Rightarrow> Elaboration" where
  "UninstantiatedDefSymbol_fromSyntax ctx syn st =
     createUninstantiatedDefs ctx (typeName syn) (instances syn) st"

definition UninstantiatedDefSymbol_fromSyntaxSpecific ::
  "ASTContext \<Rightarrow> InstantiationSyntax \<Rightarrow> HierarchicalInstanceSyntax option \<Rightarrow>
   string list \<times> Elaboration \<Rightarrow> string list \<times> Elaboration" where
  "UninstantiatedDefSymbol_fromSyntaxSpecific ctx syn specificInstance acc =
     (case specificInstance of
        Some inst \<Rightarrow> createUninstantiatedDef ctx (typeName syn) inst acc
      | None \<Rightarrow> fold (createUninstantiatedDef ctx (typeName syn)) (instances syn) acc)"

definition isUninstantiatedDef :: "Symbol \<Rightarrow> bool" where
  "isUninstantiatedDef s = (case symData s of UninstantiatedDef _ _ \<Rightarrow> True | _ \<Rightarrow> False)"

definition UninstantiatedDefSymbol_fromCheckerSyntax ::
  "ASTContext \<Rightarrow> InstantiationSyntax \<Rightarrow> Elaboration \<Rightarrow> Elaboration option" where
  "UninstantiatedDefSymbol_fromCheckerSyntax ctx syn st =
     (let st1 = createUninstantiatedDefs ctx (typeName syn) (instances syn) st
      in if list_all (\<lambda>p. p < length (symbols st1) \<and> isUninstantiatedDef (symbols st1 ! p)) (results st1)
         then Some (fold (\<lambda>p. updSymbol p setMustBeChecker) (results st1) st1)
         else None)"

subsection \<open>Primitive instances\<close>

text \<open>
  \<^verbatim>\<open>createPrimitives\<close>, reached through
  \<^verbatim>\<open>PrimitiveInstanceSymbol::fromSyntax(primitive, syntax, ...)\<close>.  An instance without
  a declarator is created as it is, with no diagnostic.
\<close>

fun createPrimitivesLoop ::
  "ASTContext \<Rightarrow> PrimitiveSymbol \<Rightarrow> HierarchicalInstanceSyntax list \<Rightarrow> string list \<times> Elaboration \<Rightarrow>
   Elaboration option" where
  "createPrimitivesLoop ctx prim [] (seen, st) = Some st"
| "createPrimitivesLoop ctx prim (inst # insts) (seen, st) =
     (case createImplicitNets ctx inst (seen, st) of
        (seen1, st1) \<Rightarrow>
          (case decl inst of
             None \<Rightarrow>
               (case createPrimInst prim inst [] st1 of
                  (p, st2) \<Rightarrow> createPrimitivesLoop ctx prim insts (seen1, pushResult p st2))
           | Some d \<Rightarrow>
               (case recursePrimArray ctx prim inst (dimensions d) [] st1 of
                  None \<Rightarrow> None
                | Some (p, st2) \<Rightarrow> createPrimitivesLoop ctx prim insts (seen1, pushResult p st2))))"

definition PrimitiveInstanceSymbol_fromSyntax ::
  "ASTContext \<Rightarrow> PrimitiveSymbol \<Rightarrow> InstantiationSyntax \<Rightarrow> Elaboration \<Rightarrow> Elaboration option" where
  "PrimitiveInstanceSymbol_fromSyntax ctx prim syn st =
     createPrimitivesLoop ctx prim (instances syn) ([], st)"

subsection \<open>Checker instances\<close>

text \<open>
  \<^verbatim>\<open>CheckerInstanceSymbol::createInvalid\<close>: a body that is uninstantiated and not from a
  bind, and an instance on it under the name of the checker, whose syntax is set to the
  declaration of the checker.  The formal arguments and members that are added to the
  body are not modelled.
\<close>

definition CheckerInstanceSymbol_createInvalid :: "CheckerSymbol \<Rightarrow> Elaboration \<Rightarrow> nat \<times> Elaboration" where
  "CheckerInstanceSymbol_createInvalid chk st =
     (case emplaceBody \<lparr>bodyOf = OfChecker chk 0 False, isUninstantiated = True,
                        isFromBind = False, parentInstance = None\<rparr> st of
        (body, st1) \<Rightarrow>
          (case CheckerInstanceSymbol_new (checkerName chk) body st1 of
             (inst, st2) \<Rightarrow>
               (inst, updSymbol inst (\<lambda>s. s\<lparr>syntaxNode := Some (checkerSyntax chk)\<rparr>) st2)))"

text \<open>
  The loop that looks for a fork-join block: it walks up while the scope is a statement
  block and stops at the first block that is not sequential.  (A statement block with a
  null parent would fail \<^verbatim>\<open>SLANG_ASSERT(parentScope)\<close>; the walk ends there.)
\<close>

fun inForkJoin :: "Scope \<Rightarrow> bool" where
  "inForkJoin (StatementBlockScope n k up) =
     (if k \<noteq> Sequential then True else (case up of None \<Rightarrow> False | Some s \<Rightarrow> inForkJoin s))"
| "inForkJoin _ = False"

text \<open>
  The diagnostics of the loop over the formal ports of the checker, which maps each to
  its connection.  \<open>setDefault\<close> and \<open>createImplicitNamed\<close> are the two lambdas of the
  loop, as far as diagnostics go; \<open>connectPorts\<close> is the loop, with the index into the
  ordered connections and the names of the named connections that were used; what
  follows the loop reports the connections that are left over.  The formal arguments,
  the argument map and the attributes are not modelled.
\<close>

definition setDefault :: "AssertionPort \<Rightarrow> bool \<Rightarrow> DiagCode list" where
  "setDefault port explicitRange =
     (if \<not> apHasDefault port \<or> apDirection port \<noteq> Some In
      then [if explicitRange then CheckerArgCannotBeEmpty else UnconnectedArg]
      else [])"

definition createImplicitNamed :: "ASTContext \<Rightarrow> AssertionPort \<Rightarrow> bool \<Rightarrow> DiagCode list" where
  "createImplicitNamed ctx port isWildcard =
     (if \<not> lookupPortName ctx (apName port) isWildcard
      then (if isWildcard \<and> apHasDefault port \<and> apDirection port = Some In then []
            else [ImplicitNamedPortNotFound])
      else [])"

fun connectPorts ::
  "ASTContext \<Rightarrow> ConnMap \<Rightarrow> AssertionPort list \<Rightarrow> nat \<times> string list \<times> DiagCode list \<Rightarrow>
   nat \<times> string list \<times> DiagCode list" where
  "connectPorts ctx cm [] acc = acc"
| "connectPorts ctx cm (port # rest) (orderedIndex, used, ds) =
     (if apName port = [] then connectPorts ctx cm rest (orderedIndex, used, ds)
      else if usingOrdered cm then
        (if orderedIndex \<ge> length (orderedConns cm)
         then connectPorts ctx cm rest (orderedIndex + 1, used, ds @ setDefault port False)
         else (case orderedConns cm ! orderedIndex of
                 OrderedPortConnection e \<Rightarrow> connectPorts ctx cm rest (orderedIndex + 1, used, ds)
               | _ \<Rightarrow> connectPorts ctx cm rest (orderedIndex + 1, used, ds @ setDefault port True)))
      else
        (case map_of (namedConns cm) (apName port) of
           None \<Rightarrow>
             if hasWildcard cm
             then connectPorts ctx cm rest (orderedIndex, used, ds @ createImplicitNamed ctx port True)
             else connectPorts ctx cm rest (orderedIndex, used, ds @ setDefault port False)
         | Some conn \<Rightarrow>
             if ncOpenParen conn
             then connectPorts ctx cm rest
                    (orderedIndex, used @ [apName port],
                     ds @ (if ncExpr conn = None then [CheckerArgCannotBeEmpty] else []))
             else connectPorts ctx cm rest
                    (orderedIndex, used @ [apName port], ds @ createImplicitNamed ctx port False)))"

definition checkerConnectionDiags ::
  "ASTContext \<Rightarrow> CheckerSymbol \<Rightarrow> HierarchicalInstanceSyntax \<Rightarrow> DiagCode list" where
  "checkerConnectionDiags ctx chk syn =
     (case connectPorts ctx (connMap ctx (nodeId syn)) (checkerPorts chk) (0, [], []) of
        (orderedIndex, used, ds) \<Rightarrow>
          ds @
          (if usingOrdered (connMap ctx (nodeId syn))
           then (if orderedIndex < length (orderedConns (connMap ctx (nodeId syn)))
                 then [TooManyPortConnections] else [])
           else map (\<lambda>c. PortDoesNotExist)
                  (filter (\<lambda>c. fst c \<notin> set used) (namedConns (connMap ctx (nodeId syn))))))"

text \<open>
  The part of \<^verbatim>\<open>CheckerInstanceSymbol::fromSyntax\<close> (the overload that creates one
  instance) after the depth check: the bind check, the two containment diagnostics, the
  body, the diagnostics of the connections, and the instance.
\<close>

definition checkerInstanceBody ::
  "ASTContext \<Rightarrow> CheckerSymbol \<Rightarrow> HierarchicalInstanceSyntax \<Rightarrow> int list \<Rightarrow> bool \<Rightarrow> bool \<Rightarrow>
   nat \<Rightarrow> bool \<Rightarrow> bool \<Rightarrow> Elaboration \<Rightarrow> nat \<times> Elaboration" where
  "checkerInstanceBody ctx chk syn path isProcedural fromBind depth parentIsFromBind parentIsChecker st =
     (if parentIsFromBind \<and> fromBind
      then CheckerInstanceSymbol_createInvalid chk (addDiag BindUnderBind st)
      else
        (let st1 = (if inForkJoin (scope ctx) then addDiag CheckerInForkJoin st else st);
             st2 = (if parentIsChecker \<and> isProcedural then addDiag CheckerInCheckerProc st1 else st1)
         in (case emplaceBody \<lparr>bodyOf = OfChecker chk depth isProcedural, isUninstantiated = False,
                                isFromBind = (fromBind \<or> parentIsFromBind), parentInstance = None\<rparr> st2 of
               (body, st3) \<Rightarrow>
                 (case CheckerInstanceSymbol_new (getName syn) body
                         (st3\<lparr>diags := diags st3 @ checkerConnectionDiags ctx chk syn\<rparr>) of
                    (inst, st4) \<Rightarrow>
                      (inst, updSymbol inst
                               (\<lambda>s. (setArrayPath path s)\<lparr>syntaxNode := Some (nodeId syn)\<rparr>) st4)))))"

definition CheckerInstanceSymbol_fromSyntaxOne ::
  "ASTContext \<Rightarrow> CheckerSymbol \<Rightarrow> HierarchicalInstanceSyntax \<Rightarrow> bool \<Rightarrow> bool \<Rightarrow> int list \<Rightarrow>
   Elaboration \<Rightarrow> nat \<times> Elaboration" where
  "CheckerInstanceSymbol_fromSyntaxOne ctx chk syn isProcedural fromBind path st =
     (case assertionParent ctx of
        None \<Rightarrow> checkerInstanceBody ctx chk syn path isProcedural fromBind 0 False False st
      | Some (InstanceBodyParent parentIsFromBind) \<Rightarrow>
          checkerInstanceBody ctx chk syn path isProcedural fromBind 0 parentIsFromBind False st
      | Some (CheckerBodyParent instanceDepth parentIsFromBind) \<Rightarrow>
          if instanceDepth + 1 > maxCheckerInstanceDepth ctx
          then CheckerInstanceSymbol_createInvalid chk (addDiag MaxInstanceDepthExceeded st)
          else checkerInstanceBody ctx chk syn path isProcedural fromBind (instanceDepth + 1)
                 parentIsFromBind True st)"

definition recurseCheckerArray ::
  "ASTContext \<Rightarrow> CheckerSymbol \<Rightarrow> HierarchicalInstanceSyntax \<Rightarrow> bool \<Rightarrow> bool \<Rightarrow> nat list \<Rightarrow>
   int list \<Rightarrow> Elaboration \<Rightarrow> (nat \<times> Elaboration) option" where
  "recurseCheckerArray ctx chk syn isProcedural fromBind dims path st =
     recurseLeafArray (CheckerInstanceSymbol_fromSyntaxOne ctx chk syn isProcedural fromBind)
       ctx syn dims path st"

text \<open>\<^verbatim>\<open>createCheckers\<close>.\<close>

fun createCheckersLoop ::
  "ASTContext \<Rightarrow> CheckerSymbol \<Rightarrow> bool \<Rightarrow> bool \<Rightarrow> HierarchicalInstanceSyntax list \<Rightarrow>
   string list \<times> Elaboration \<Rightarrow> Elaboration option" where
  "createCheckersLoop ctx chk isProcedural fromBind [] (seen, st) = Some st"
| "createCheckersLoop ctx chk isProcedural fromBind (inst # insts) (seen, st) =
     (case (if \<not> isProcedural then createImplicitNets ctx inst (seen, st) else (seen, st)) of
        (seen1, st1) \<Rightarrow>
          (case decl inst of
             None \<Rightarrow>
               (case CheckerInstanceSymbol_fromSyntaxOne ctx chk inst isProcedural fromBind []
                       (addDiag InstanceNameRequired st1) of
                  (p, st2) \<Rightarrow>
                    createCheckersLoop ctx chk isProcedural fromBind insts (seen1, pushResult p st2))
           | Some d \<Rightarrow>
               (case recurseCheckerArray ctx chk inst isProcedural fromBind (dimensions d) [] st1 of
                  None \<Rightarrow> None
                | Some (p, st2) \<Rightarrow>
                    createCheckersLoop ctx chk isProcedural fromBind insts (seen1, pushResult p st2))))"

definition createCheckers ::
  "ASTContext \<Rightarrow> CheckerSymbol \<Rightarrow> InstantiationSyntax \<Rightarrow> bool \<Rightarrow> bool \<Rightarrow> Elaboration \<Rightarrow>
   Elaboration option" where
  "createCheckers ctx chk syn isProcedural fromBind st =
     createCheckersLoop ctx chk isProcedural fromBind (instances syn)
       ([], if hasParameters syn then addDiag CheckerParameterAssign st else st)"

text \<open>
  \<^verbatim>\<open>CheckerInstanceSymbol::fromSyntax\<close> for a hierarchy instantiation whose name is a
  checker: never procedural.
\<close>

definition CheckerInstanceSymbol_fromSyntax ::
  "ASTContext \<Rightarrow> CheckerSymbol \<Rightarrow> InstantiationSyntax \<Rightarrow> bool \<Rightarrow> Elaboration \<Rightarrow> Elaboration option" where
  "CheckerInstanceSymbol_fromSyntax ctx chk syn fromBind st =
     createCheckers ctx chk syn False fromBind st"

text \<open>
  Modelled from the spec: \<^verbatim>\<open>Scope::isUninstantiated\<close> is not in the sources.
  Following section 4.7 step 1, a scope is uninstantiated when it is inside an untaken
  generate arm or inside a body that is uninstantiated already.
\<close>

fun Scope_isUninstantiated :: "Scope \<Rightarrow> bool" where
  "Scope_isUninstantiated (InstanceBodyScope pb up) = pbIsUninstantiated pb"
| "Scope_isUninstantiated (CheckerInstanceBodyScope cb lexical site) = cbIsUninstantiated cb"
| "Scope_isUninstantiated (GenerateBlockScope n u up) =
     (u \<or> (case up of None \<Rightarrow> False | Some s \<Rightarrow> Scope_isUninstantiated s))"
| "Scope_isUninstantiated (StatementBlockScope n k up) =
     (case up of None \<Rightarrow> False | Some s \<Rightarrow> Scope_isUninstantiated s)"
| "Scope_isUninstantiated (OtherScope n up) =
     (case up of None \<Rightarrow> False | Some s \<Rightarrow> Scope_isUninstantiated s)"

text \<open>
  \<^verbatim>\<open>CheckerInstanceSymbol::fromSyntax\<close> for a checker instantiation: placeholders in an
  uninstantiated scope; otherwise the name is looked up, anything but a checker is
  diagnosed, and the checkers are created, procedural when the statement is a checker
  instance statement.
\<close>

definition CheckerInstanceSymbol_fromCheckerSyntax ::
  "ASTContext \<Rightarrow> InstantiationSyntax \<Rightarrow> bool \<Rightarrow> Elaboration \<Rightarrow> Elaboration option" where
  "CheckerInstanceSymbol_fromCheckerSyntax ctx syn fromBind st =
     (if Scope_isUninstantiated (scope ctx) then UninstantiatedDefSymbol_fromCheckerSyntax ctx syn st
      else
        (let st1 = noteLookup (NameLookup (typeName syn)) st
         in (case lookupName ctx (typeName syn) of
               None \<Rightarrow> Some st1
             | Some (CheckerFound chk) \<Rightarrow>
                 createCheckers ctx chk syn (inCheckerInstanceStatement syn) fromBind st1
             | Some ClassTypeFound \<Rightarrow> Some (addDiag CheckerClassBadInstantiation st1)
             | Some SubroutineFound \<Rightarrow> Some (addDiag CheckerFuncBadInstantiation st1)
             | Some OtherFound \<Rightarrow> Some (addDiag NotAChecker st1))))"

section \<open>Elaborating an instantiation statement\<close>

subsection \<open>The enclosing instance\<close>

text \<open>
  The first loop of \<^verbatim>\<open>InstanceSymbol::fromSyntax\<close>: it walks up the scopes to the body
  of the enclosing instance and gathers, on the way, whether a generate block or a body
  is uninstantiated and whether a checker body was crossed.  At a checker body the walk
  goes on from the scope of the checker instance.  The result is the parent body (null
  when the walk runs out of scopes) and the two flags.
\<close>

fun findParentInstance :: "Scope \<Rightarrow> bool \<Rightarrow> bool \<Rightarrow> ParentBody option \<times> bool \<times> bool" where
  "findParentInstance (InstanceBodyScope pb up) isUninst inChecker =
     (Some pb, isUninst \<or> pbIsUninstantiated pb, inChecker)"
| "findParentInstance (CheckerInstanceBodyScope cb lexical site) isUninst inChecker =
     (case site of
        None \<Rightarrow> (None, isUninst \<or> cbIsUninstantiated cb, True)
      | Some s \<Rightarrow> findParentInstance s (isUninst \<or> cbIsUninstantiated cb) True)"
| "findParentInstance (GenerateBlockScope n u up) isUninst inChecker =
     (case up of
        None \<Rightarrow> (None, isUninst \<or> u, inChecker)
      | Some s \<Rightarrow> findParentInstance s (isUninst \<or> u) inChecker)"
| "findParentInstance (StatementBlockScope n k up) isUninst inChecker =
     (case up of None \<Rightarrow> (None, isUninst, inChecker) | Some s \<Rightarrow> findParentInstance s isUninst inChecker)"
| "findParentInstance (OtherScope n up) isUninst inChecker =
     (case up of None \<Rightarrow> (None, isUninst, inChecker) | Some s \<Rightarrow> findParentInstance s isUninst inChecker)"

subsection \<open>The instance override node of a configuration\<close>

text \<open>
  A symbol on the parent stack of \<^verbatim>\<open>findInstanceOverrideNode\<close>: an instance (its
  address, its name and the name of its definition) or any other symbol (its name).
\<close>

datatype StackSymbol =
    StackInstance nat string string
  | StackOther string

definition stackName :: "StackSymbol \<Rightarrow> string" where
  "stackName s = (case s of StackInstance a n d \<Rightarrow> n | StackOther n \<Rightarrow> n)"

definition stackRootName :: "StackSymbol \<Rightarrow> string" where
  "stackRootName s = (case s of StackInstance a n d \<Rightarrow> d | StackOther n \<Rightarrow> n)"

text \<open>
  The walk up that records the parent stack, innermost symbol first.  The symbol of an
  instance body is replaced by its parent instance; \<open>None\<close> is the failed
  \<^verbatim>\<open>SLANG_ASSERT(sym)\<close> for a body without one.  The walk stops after the symbol that
  has no parent scope or that is the root instance of the resolved configuration.
\<close>

fun parentStack :: "nat \<Rightarrow> Scope \<Rightarrow> StackSymbol list option" where
  "parentStack root (InstanceBodyScope pb up) =
     (case pbParentInstance pb of
        None \<Rightarrow> None
      | Some pi \<Rightarrow>
          (case up of
             None \<Rightarrow> Some [StackInstance (piAddress pi) (piName pi) (defName (pbDefinition pb))]
           | Some s \<Rightarrow>
               if piAddress pi = root
               then Some [StackInstance (piAddress pi) (piName pi) (defName (pbDefinition pb))]
               else map_option
                      (\<lambda>rest. StackInstance (piAddress pi) (piName pi) (defName (pbDefinition pb)) # rest)
                      (parentStack root s)))"
| "parentStack root (CheckerInstanceBodyScope cb lexical site) =
     (case lexical of
        None \<Rightarrow> Some [StackOther (checkerName (cbChecker cb))]
      | Some s \<Rightarrow> map_option (\<lambda>rest. StackOther (checkerName (cbChecker cb)) # rest) (parentStack root s))"
| "parentStack root (GenerateBlockScope n u up) =
     (case up of
        None \<Rightarrow> Some [StackOther n]
      | Some s \<Rightarrow> map_option (\<lambda>rest. StackOther n # rest) (parentStack root s))"
| "parentStack root (StatementBlockScope n k up) =
     (case up of
        None \<Rightarrow> Some [StackOther n]
      | Some s \<Rightarrow> map_option (\<lambda>rest. StackOther n # rest) (parentStack root s))"
| "parentStack root (OtherScope n up) =
     (case up of
        None \<Rightarrow> Some [StackOther n]
      | Some s \<Rightarrow> map_option (\<lambda>rest. StackOther n # rest) (parentStack root s))"

text \<open>
  \<^verbatim>\<open>findInstanceOverrideNode\<close>.  The outer \<open>None\<close> is the failed assertion of the walk;
  \<open>Some None\<close> is the null result.  The walk down follows the names of the stack from
  the symbol below the root to the innermost one; a node without children is not
  returned.
\<close>

definition findInstanceOverrideNode :: "ResolvedConfig \<Rightarrow> Scope \<Rightarrow> InstanceOverride option option" where
  "findInstanceOverrideNode rc sc =
     (if instanceOverrides (useConfig rc) = [] then Some None
      else
        (case parentStack (rootInstance rc) sc of
           None \<Rightarrow> None
         | Some stack \<Rightarrow>
             Some
               (case map_of (instanceOverrides (useConfig rc)) (stackRootName (last stack)) of
                  None \<Rightarrow> None
                | Some rootNode \<Rightarrow>
                    (case nodeAt (map stackName (rev (butlast stack))) rootNode of
                       None \<Rightarrow> None
                     | Some node \<Rightarrow> if childNodes node = [] then None else Some node))))"

subsection \<open>Creating the instances of a statement\<close>

text \<open>
  The variables that the lambda \<^verbatim>\<open>createInstances\<close> captures and does not change.
\<close>

record Captured =
  cParentInst :: "ParentBody option"
  cInChecker :: bool
  cOwningDefinition :: "DefinitionSymbol option"
  cParentOverrideNode :: "HierarchyOverrideNode option"
  cResolvedConfig :: "ResolvedConfig option"

text \<open>
  The containment diagnostic for a module-like definition: inside a checker, or in a
  program, or a module in an interface.
\<close>

definition containmentDiag :: "Captured \<Rightarrow> DefinitionSymbol \<Rightarrow> Elaboration \<Rightarrow> Elaboration" where
  "containmentDiag cap definition st =
     (if cInChecker cap then addDiag InvalidInstanceForParent st
      else (case cOwningDefinition cap of
              None \<Rightarrow> st
            | Some owner \<Rightarrow>
                if definitionKind owner = Program \<or>
                   (definitionKind owner = Interface \<and> definitionKind definition = Module)
                then addDiag InvalidInstanceForParent st
                else st))"

text \<open>The diagnostic that follows the creation of primitive instances.\<close>

definition primitiveParentDiag :: "Captured \<Rightarrow> bool \<Rightarrow> Elaboration \<Rightarrow> Elaboration" where
  "primitiveParentDiag cap fromBind st =
     (if results st \<noteq> [] then
        (if cOwningDefinition cap = None \<or>
            map_option definitionKind (cOwningDefinition cap) \<noteq> Some Module \<or> cInChecker cap
         then addDiag InvalidPrimInstanceForParent st
         else if fromBind then addDiag BindTargetPrimitive st
         else st)
      else st)"

text \<open>
  The configuration that the builder gets: with a rule, a copy of the resolved
  configuration that carries the rule and, if the rule has one, its liblist.  \<open>None\<close> is
  the failed \<^verbatim>\<open>SLANG_ASSERT(resolvedConfig)\<close>.
\<close>

definition localConfig :: "Captured \<Rightarrow> ConfigRule option \<Rightarrow> ResolvedConfig option option" where
  "localConfig cap confRule =
     (case confRule of
        None \<Rightarrow> Some (cResolvedConfig cap)
      | Some rule \<Rightarrow>
          (case cResolvedConfig cap of
             None \<Rightarrow> None
           | Some rc \<Rightarrow>
               Some (Some (rc\<lparr>configRule := Some rule,
                              resolvedLiblist :=
                                (case liblist rule of None \<Rightarrow> resolvedLiblist rc | Some l \<Rightarrow> l)\<rparr>))))"

text \<open>The loop over the instances of the statement, each built by the same builder.\<close>

fun createAll ::
  "ASTContext \<Rightarrow> InstanceBuilder \<Rightarrow> HierarchicalInstanceSyntax list \<Rightarrow> string list \<times> Elaboration \<Rightarrow>
   string list \<times> Elaboration" where
  "createAll ctx b [] acc = acc"
| "createAll ctx b (inst # insts) acc =
     (case createImplicitNets ctx inst acc of
        (seen, st) \<Rightarrow>
          (case create ctx b inst st of
             (p, st1) \<Rightarrow> createAll ctx b insts (seen, pushResult p st1)))"

text \<open>
  The lambda \<^verbatim>\<open>createInstances\<close>.  Besides the state it changes two captured variables:
  the parameter \<^verbatim>\<open>isFromBind\<close> of the enclosing function and the set of implicit net
  names; both are passed in and returned.  \<open>None\<close> is a run that does not return
  normally (a failed assertion, or the undefined loop of a primitive array).
\<close>

definition createInstances ::
  "ASTContext \<Rightarrow> InstantiationSyntax \<Rightarrow> Captured \<Rightarrow> DefinitionFound option \<Rightarrow>
   HierarchicalInstanceSyntax option \<Rightarrow> ConfigRule option \<Rightarrow> ConfigBlockSymbol option \<Rightarrow>
   bool \<times> string list \<times> Elaboration \<Rightarrow> (bool \<times> string list \<times> Elaboration) option" where
  "createInstances ctx syn cap def specificInstance confRule newConfigRoot acc =
     (case acc of (fromBind, seen, st) \<Rightarrow>
        (case def of
           None \<Rightarrow>
             (case UninstantiatedDefSymbol_fromSyntaxSpecific ctx syn specificInstance (seen, st) of
                (seen1, st1) \<Rightarrow> Some (fromBind, seen1, st1))
         | Some (PrimitiveFound prim) \<Rightarrow>
             (case PrimitiveInstanceSymbol_fromSyntax ctx prim syn st of
                None \<Rightarrow> None
              | Some st1 \<Rightarrow> Some (fromBind, seen, primitiveParentDiag cap fromBind st1))
         | Some (DefinitionFound definition) \<Rightarrow>
             (let st1 = containmentDiag cap definition
                          (st\<lparr>instantiated := instantiated st @ [defName definition]\<rparr>);
                  parentFromBind = (case cParentInst cap of None \<Rightarrow> False | Some pb \<Rightarrow> pbIsFromBind pb)
              in if parentFromBind \<and> fromBind then Some (fromBind, seen, addDiag BindUnderBind st1)
                 else
                   (case localConfig cap confRule of
                      None \<Rightarrow> None
                    | Some lc \<Rightarrow>
                        (let b = \<lparr>ibDefinition = definition,
                                  ibParentOverrideNode = cParentOverrideNode cap,
                                  ibResolvedConfig = lc, ibNewConfigRoot = newConfigRoot,
                                  ibIsFromBind = (fromBind \<or> parentFromBind)\<rparr>
                         in (case createAll ctx b
                                    (case specificInstance of Some inst \<Rightarrow> [inst] | None \<Rightarrow> instances syn)
                                    (seen, st1) of
                               (seen1, st2) \<Rightarrow> Some (fromBind \<or> parentFromBind, seen1, st2)))))))"

text \<open>
  The resolution of a per-instance rule: the definition is looked up with the rule; a
  configuration block becomes the new root and its only top cell is looked up in it
  (null when it does not have exactly one top cell).
\<close>

definition resolveByRule ::
  "ASTContext \<Rightarrow> string \<Rightarrow> ConfigRule \<Rightarrow> Elaboration \<Rightarrow>
   DefinitionFound option \<times> ConfigBlockSymbol option \<times> Elaboration" where
  "resolveByRule ctx nm rule st =
     (let st1 = noteLookup (RuleLookup nm (ruleRange rule)) st
      in (case getDefinitionByRule ctx nm rule of
            None \<Rightarrow> (None, None, st1)
          | Some (RulePrimitive prim) \<Rightarrow> (Some (PrimitiveFound prim), None, st1)
          | Some (RuleDefinition definition) \<Rightarrow> (Some (DefinitionFound definition), None, st1)
          | Some (RuleConfigBlock newRoot) \<Rightarrow>
              if length (topCells newRoot) \<noteq> 1 then (None, Some newRoot, st1)
              else (getDefinitionInConfig ctx newRoot (topCells newRoot ! 0), Some newRoot,
                    noteLookup (CellLookup (configName newRoot) (cellName (topCells newRoot ! 0))) st1)))"

text \<open>
  The loop over the instances when the configuration has overrides at this place: an
  instance with a rule is resolved by that rule; for the others the definition is looked
  up by name once (the memo \<^verbatim>\<open>explicitDef\<close>) and used for each.
\<close>

fun perInstance ::
  "ASTContext \<Rightarrow> InstantiationSyntax \<Rightarrow> Captured \<Rightarrow> (string \<times> InstanceOverride) list \<Rightarrow>
   HierarchicalInstanceSyntax list \<Rightarrow> DefinitionFound option option \<Rightarrow>
   bool \<times> string list \<times> Elaboration \<Rightarrow> (bool \<times> string list \<times> Elaboration) option" where
  "perInstance ctx syn cap overrideMap [] explicitDef acc = Some acc"
| "perInstance ctx syn cap overrideMap (inst # insts) explicitDef (fromBind, seen, st) =
     (case (case map_of overrideMap (getName inst) of None \<Rightarrow> None | Some child \<Rightarrow> nodeRule child) of
        Some rule \<Rightarrow>
          (case resolveByRule ctx (typeName syn) rule st of
             (def, newRoot, st1) \<Rightarrow>
               (case createInstances ctx syn cap def (Some inst) (Some rule) newRoot
                       (fromBind, seen, st1) of
                  None \<Rightarrow> None
                | Some acc1 \<Rightarrow> perInstance ctx syn cap overrideMap insts explicitDef acc1))
      | None \<Rightarrow>
          (case explicitDef of
             Some def \<Rightarrow>
               (case createInstances ctx syn cap def (Some inst) None None (fromBind, seen, st) of
                  None \<Rightarrow> None
                | Some acc1 \<Rightarrow> perInstance ctx syn cap overrideMap insts explicitDef acc1)
           | None \<Rightarrow>
               (case createInstances ctx syn cap (getDefinition ctx (typeName syn)) (Some inst) None None
                       (fromBind, seen, noteLookup (DefinitionLookup (typeName syn)) st) of
                  None \<Rightarrow> None
                | Some acc1 \<Rightarrow>
                    perInstance ctx syn cap overrideMap insts
                      (Some (getDefinition ctx (typeName syn))) acc1)))"

text \<open>The simple case: one lookup by name, and all instances in one go.\<close>

definition createSimple ::
  "ASTContext \<Rightarrow> InstantiationSyntax \<Rightarrow> Captured \<Rightarrow> bool \<Rightarrow> Elaboration \<Rightarrow> Elaboration option" where
  "createSimple ctx syn cap fromBind st =
     map_option (\<lambda>acc. snd (snd acc))
       (createInstances ctx syn cap (getDefinition ctx (typeName syn)) None None None
          (fromBind, [], noteLookup (DefinitionLookup (typeName syn)) st))"

text \<open>
  \<^verbatim>\<open>InstanceSymbol::fromSyntax\<close>.  The result is the state after the call; \<open>None\<close> is a
  run that does not return normally.
\<close>

definition InstanceSymbol_fromSyntax ::
  "ASTContext \<Rightarrow> InstantiationSyntax \<Rightarrow> bool \<Rightarrow> Elaboration \<Rightarrow> Elaboration option" where
  "InstanceSymbol_fromSyntax ctx syn fromBind st =
     (case findParentInstance (scope ctx) False False of
        (parentInst, isUninst, inChecker) \<Rightarrow>
          if isUninst then Some (UninstantiatedDefSymbol_fromSyntax ctx syn st)
          else
            (case lookupUnqualified ctx (typeName syn) of
               Some (CheckerFound chk) \<Rightarrow>
                 CheckerInstanceSymbol_fromSyntax ctx chk syn fromBind
                   (noteLookup (NameLookup (typeName syn)) st)
             | _ \<Rightarrow>
                 (let st1 = noteLookup (NameLookup (typeName syn)) st;
                      cap0 = \<lparr>cParentInst = parentInst, cInChecker = inChecker,
                              cOwningDefinition = None, cParentOverrideNode = None,
                              cResolvedConfig = None\<rparr>
                  in (case parentInst of
                        None \<Rightarrow> createSimple ctx syn cap0 fromBind st1
                      | Some pb \<Rightarrow>
                          (let cap1 = cap0\<lparr>cOwningDefinition := Some (pbDefinition pb),
                                           cParentOverrideNode :=
                                             (if pbOverrideNode pb \<noteq> None
                                              then foundParentOverrideNode ctx else None)\<rparr>
                           in (case pbParentInstance pb of
                                 None \<Rightarrow> createSimple ctx syn cap1 fromBind st1
                               | Some pi \<Rightarrow>
                                   (case piResolvedConfig pi of
                                      None \<Rightarrow> createSimple ctx syn cap1 fromBind st1
                                    | Some rc \<Rightarrow>
                                        (case findInstanceOverrideNode rc (scope ctx) of
                                           None \<Rightarrow> None
                                         | Some None \<Rightarrow>
                                             createSimple ctx syn (cap1\<lparr>cResolvedConfig := Some rc\<rparr>)
                                               fromBind st1
                                         | Some (Some overrideNode) \<Rightarrow>
                                             map_option (\<lambda>acc. snd (snd acc))
                                               (perInstance ctx syn (cap1\<lparr>cResolvedConfig := Some rc\<rparr>)
                                                  (childNodes overrideNode) (instances syn) None
                                                  (fromBind, [], st1))))))))))"

section \<open>Elaborating a primitive instantiation statement\<close>

text \<open>
  A primitive instantiation (\<^verbatim>\<open>PrimitiveInstantiationSyntax\<close>): the name of the type and
  whether its token is an identifier (otherwise it is the keyword of a gate), whether a
  drive strength is given, the kind of the delay if one is given, and the instances.
\<close>

datatype DelayKind = DelayControl | OtherDelay

record PrimitiveInstantiationSyntax =
  primTypeName :: string
  typeIsIdentifier :: bool
  hasStrength :: bool
  primDelay :: "DelayKind option"
  primInstances :: "HierarchicalInstanceSyntax list"

text \<open>
  \<^verbatim>\<open>PrimitiveInstanceSymbol::fromSyntax\<close> for a primitive instantiation.  An identifier is
  looked up: a primitive has its instances created; a definition is diagnosed for its
  strength or its delay and replaced by placeholders, or, with a delay control and the
  flag \<^verbatim>\<open>AllowBareValParamAssignment\<close>, elaborated as a hierarchy instantiation with a
  parameter assignment that is not from a bind; nothing found gives placeholders.  A
  gate keyword has its gate type fetched and its instances created.  \<open>None\<close> is a failed
  assertion (a definition with neither strength nor delay, an unknown gate type) or a
  run of the callee that does not return normally.  The function does not test whether
  the scope is uninstantiated.
\<close>

definition PrimitiveInstanceSymbol_fromPrimitiveSyntax ::
  "ASTContext \<Rightarrow> PrimitiveInstantiationSyntax \<Rightarrow> Elaboration \<Rightarrow> Elaboration option" where
  "PrimitiveInstanceSymbol_fromPrimitiveSyntax ctx syn st =
     (if typeIsIdentifier syn then
        (let st1 = noteLookup (DefinitionLookup (primTypeName syn)) st
         in (case getDefinition ctx (primTypeName syn) of
               Some (PrimitiveFound prim) \<Rightarrow>
                 createPrimitivesLoop ctx prim (primInstances syn) ([], st1)
             | Some (DefinitionFound d) \<Rightarrow>
                 if \<not> hasStrength syn \<and> primDelay syn = None then None
                 else if hasStrength syn
                 then Some (createUninstantiatedDefs ctx (primTypeName syn) (primInstances syn)
                              (addDiag InstanceWithStrength st1))
                 else if allowBareValParamAssignment ctx \<and> primDelay syn = Some DelayControl
                 then InstanceSymbol_fromSyntax ctx
                        \<lparr>typeName = primTypeName syn, hasParameters = True,
                          instances = primInstances syn, inCheckerInstanceStatement = False\<rparr>
                        False st1
                 else Some (createUninstantiatedDefs ctx (primTypeName syn) (primInstances syn)
                              (addDiag InstanceWithDelay st1))
             | None \<Rightarrow>
                 Some (createUninstantiatedDefs ctx (primTypeName syn) (primInstances syn) st1)))
      else
        (case getGateType ctx (primTypeName syn) of
           None \<Rightarrow> None
         | Some prim \<Rightarrow> createPrimitivesLoop ctx prim (primInstances syn) ([], st)))"

section \<open>Predicates on the arena\<close>

text \<open>The body that a symbol points to, if it is an instance or a checker instance.\<close>

fun bodyRef :: "SymbolData \<Rightarrow> nat option" where
  "bodyRef (Instance b path rc) = Some b"
| "bodyRef (CheckerInstance b path) = Some b"
| "bodyRef d = None"

text \<open>
  The invariant of the back-pointers: every instance and every checker instance in the
  arena points to a body of the arena whose \<^verbatim>\<open>parentInstance\<close> is that instance.
\<close>

definition backPointersOk :: "Elaboration \<Rightarrow> bool" where
  "backPointersOk st \<longleftrightarrow>
     (\<forall>p < length (symbols st). \<forall>b. bodyRef (symData (symbols st ! p)) = Some b \<longrightarrow>
        b < length (bodies st) \<and> parentInstance (bodies st ! b) = Some p)"

text \<open>
  A later state keeps what an earlier one holds: every instance of the earlier state
  still points to the same body, and every body of the earlier state is unchanged.
\<close>

definition keeps :: "Elaboration \<Rightarrow> Elaboration \<Rightarrow> bool" where
  "keeps st st' \<longleftrightarrow>
     length (symbols st) \<le> length (symbols st') \<and> length (bodies st) \<le> length (bodies st') \<and>
     (\<forall>p < length (symbols st). bodyRef (symData (symbols st' ! p)) = bodyRef (symData (symbols st ! p))) \<and>
     (\<forall>b < length (bodies st). bodies st' ! b = bodies st ! b)"

text \<open>
  A later state extends an earlier one by symbols that satisfy \<open>Q\<close> and bodies that
  satisfy \<open>R\<close>: the data of the old symbols and the old bodies are unchanged, and every
  new instance points to a new body whose back-pointer is that instance.
\<close>

definition extends ::
  "(nat \<Rightarrow> SymbolData \<Rightarrow> bool) \<Rightarrow> (BodySymbol \<Rightarrow> bool) \<Rightarrow> Elaboration \<Rightarrow> Elaboration \<Rightarrow> bool" where
  "extends Q R st st' \<longleftrightarrow>
     length (symbols st) \<le> length (symbols st') \<and> length (bodies st) \<le> length (bodies st') \<and>
     (\<forall>p < length (symbols st). symData (symbols st' ! p) = symData (symbols st ! p)) \<and>
     (\<forall>b < length (bodies st). bodies st' ! b = bodies st ! b) \<and>
     (\<forall>p. length (symbols st) \<le> p \<and> p < length (symbols st') \<longrightarrow>
        Q p (symData (symbols st' ! p)) \<and>
        (\<forall>b. bodyRef (symData (symbols st' ! p)) = Some b \<longrightarrow>
           length (bodies st) \<le> b \<and> b < length (bodies st') \<and>
           parentInstance (bodies st' ! b) = Some p)) \<and>
     (\<forall>b. length (bodies st) \<le> b \<and> b < length (bodies st') \<longrightarrow> R (bodies st' ! b))"

text \<open>The resolved configuration that \<^verbatim>\<open>createInstance\<close> gives the instance at address \<open>p\<close>.\<close>

definition builderConfig :: "InstanceBuilder \<Rightarrow> nat \<Rightarrow> ResolvedConfig option" where
  "builderConfig b p =
     (case ibResolvedConfig b of
        None \<Rightarrow> None
      | Some rc \<Rightarrow>
          (case ibNewConfigRoot b of
             Some newRoot \<Rightarrow>
               Some \<lparr>useConfig = newRoot, rootInstance = p, resolvedLiblist = defaultLiblist newRoot,
                     configRule = configRule rc\<rparr>
           | None \<Rightarrow> Some rc))"

text \<open>
  What a builder creates: instances that carry its configuration, and instance arrays
  that have as many elements as their range is wide, or no element and the
  value-initialised range.
\<close>

definition builtBy :: "InstanceBuilder \<Rightarrow> nat \<Rightarrow> SymbolData \<Rightarrow> bool" where
  "builtBy b p d =
     (case d of
        Instance body path rc \<Rightarrow> rc = builderConfig b p
      | InstanceArray es r \<Rightarrow> length es = width r \<or> (es = [] \<and> r = ConstantRange_default)
      | _ \<Rightarrow> False)"

definition bodyBuiltBy :: "InstanceBuilder \<Rightarrow> BodySymbol \<Rightarrow> bool" where
  "bodyBuiltBy b body \<longleftrightarrow>
     (\<exists>ov. bodyOf body = OfDefinition (ibDefinition b) ov) \<and>
     \<not> isUninstantiated body \<and> isFromBind body = ibIsFromBind b"

text \<open>The kinds of symbol data.\<close>

definition isInstanceData :: "SymbolData \<Rightarrow> bool" where
  "isInstanceData d = (case d of Instance b path rc \<Rightarrow> True | _ \<Rightarrow> False)"


definition isPlaceholderOrNet :: "string \<Rightarrow> nat \<Rightarrow> SymbolData \<Rightarrow> bool" where
  "isPlaceholderOrNet moduleName p d =
     (case d of UninstantiatedDef n c \<Rightarrow> n = moduleName | Net \<Rightarrow> True | _ \<Rightarrow> False)"

text \<open>
  The diagnostics of the two containment checks of a checker instance: inside a fork-join
  block, and procedural inside the body of another checker.
\<close>

definition checkerDiags :: "ASTContext \<Rightarrow> bool \<Rightarrow> bool \<Rightarrow> DiagCode list" where
  "checkerDiags ctx parentIsChecker isProcedural =
     (if inForkJoin (scope ctx) then [CheckerInForkJoin] else []) @
     (if parentIsChecker \<and> isProcedural then [CheckerInCheckerProc] else [])"


text \<open>
  The parent instance body of a scope, in the words of the specification: the body of the
  instance that encloses the scope, through generate blocks, statement blocks and other
  scopes (and not through the body of a checker).
\<close>

fun parentBodyIs :: "Scope \<Rightarrow> ParentBody \<Rightarrow> bool" where
  "parentBodyIs (InstanceBodyScope b up) pb = (b = pb)"
| "parentBodyIs (CheckerInstanceBodyScope cb lexical site) pb = False"
| "parentBodyIs (GenerateBlockScope n u up) pb =
     (case up of None \<Rightarrow> False | Some s \<Rightarrow> parentBodyIs s pb)"
| "parentBodyIs (StatementBlockScope n k up) pb =
     (case up of None \<Rightarrow> False | Some s \<Rightarrow> parentBodyIs s pb)"
| "parentBodyIs (OtherScope n up) pb =
     (case up of None \<Rightarrow> False | Some s \<Rightarrow> parentBodyIs s pb)"

text \<open>No configuration applies to the instance of the parent body.\<close>

definition unconfigured :: "ParentBody \<Rightarrow> bool" where
  "unconfigured pb =
     (case pbParentInstance pb of None \<Rightarrow> True | Some pi \<Rightarrow> piResolvedConfig pi = None)"

section \<open>Example inputs\<close>

text \<open>
  Inputs at which the theorems are instantiated: the state before anything is
  elaborated, a context whose collaborators find nothing (with the default values of the
  options \<^verbatim>\<open>maxInstanceArray\<close> and \<^verbatim>\<open>maxCheckerInstanceDepth\<close>), instances with and
  without a declarator, and a statement without parameters.
\<close>

definition emptyElaboration :: Elaboration where
  "emptyElaboration =
     \<lparr>symbols = [], bodies = [], diags = [], lookups = [], instantiated = [], results = [],
      implicitNets = []\<rparr>"

definition plainContext :: "Scope \<Rightarrow> ASTContext" where
  "plainContext sc =
     \<lparr>scope = sc, maxInstanceArray = 65535, maxCheckerInstanceDepth = 64,
      evalDimension = (\<lambda>d. \<lparr>isRange = False, dimRange = ConstantRange_default\<rparr>),
      lookupUnqualified = (\<lambda>n. None), lookupName = (\<lambda>n. None), getDefinition = (\<lambda>n. None),
      getDefinitionByRule = (\<lambda>n r. None), getDefinitionInConfig = (\<lambda>c i. None),
      netTypeIsError = False, potentiallyImplicitNets = (\<lambda>i. []),
      foundParentOverrideNode = None, assertionParent = None,
      connMap = (\<lambda>i. \<lparr>usingOrdered = True, orderedConns = [], namedConns = [],
                          hasWildcard = False\<rparr>),
      lookupPortName = (\<lambda>n w. False), getGateType = (\<lambda>n. None),
      allowBareValParamAssignment = False\<rparr>"

text \<open>A checker without ports, declared at syntax node 100.\<close>

definition plainChecker :: "string \<Rightarrow> CheckerSymbol" where
  "plainChecker nm = \<lparr>checkerName = nm, checkerSyntax = 100, checkerPorts = []\<rparr>"

definition namedInstance :: "nat \<Rightarrow> string \<Rightarrow> nat list \<Rightarrow> HierarchicalInstanceSyntax" where
  "namedInstance n nm dims =
     \<lparr>nodeId = n, decl = Some \<lparr>nameText = nm, dimensions = dims\<rparr>, instConnections = []\<rparr>"


definition statement :: "string \<Rightarrow> HierarchicalInstanceSyntax list \<Rightarrow> InstantiationSyntax" where
  "statement nm insts =
     \<lparr>typeName = nm, hasParameters = False, instances = insts,
      inCheckerInstanceStatement = False\<rparr>"

text \<open>The body of a module \<open>top\<close> as a parent: without and with a parent instance.\<close>

definition topDefinition :: DefinitionSymbol where
  "topDefinition = \<lparr>defName = ''top'', definitionKind = Module\<rparr>"

definition topBody :: "bool \<Rightarrow> bool \<Rightarrow> ParentInstance option \<Rightarrow> ParentBody" where
  "topBody uninst fromBind pi =
     \<lparr>pbDefinition = topDefinition, pbOverrideNode = None, pbIsUninstantiated = uninst,
      pbIsFromBind = fromBind, pbParentInstance = pi\<rparr>"


definition boundParentContext :: "ResolvedConfig option \<Rightarrow> ASTContext" where
  "boundParentContext rc =
     (plainContext (InstanceBodyScope
        (topBody False True (Some \<lparr>piAddress = 0, piName = ''t'', piResolvedConfig = rc\<rparr>)) None))
       \<lparr>getDefinition := \<lambda>n. Some (DefinitionFound \<lparr>defName = ''m'', definitionKind = Module\<rparr>)\<rparr>"



text \<open>
  A sequential block in an untaken generate arm in the body of \<open>top\<close>, and a context in
  which every gate keyword is an n-input gate and every identifier a user-defined
  primitive.
\<close>

definition untakenArm :: Scope where
  "untakenArm =
     StatementBlockScope ''b'' Sequential
       (Some (GenerateBlockScope ''g'' True
                (Some (InstanceBodyScope (topBody False False None) None))))"

definition primitiveContext :: "Scope \<Rightarrow> ASTContext" where
  "primitiveContext sc =
     (plainContext sc)
       \<lparr>getGateType := \<lambda>n. Some \<lparr>primName = n, primitiveKind = NInput, primPorts = []\<rparr>,
        getDefinition :=
          \<lambda>n. Some (PrimitiveFound \<lparr>primName = n, primitiveKind = UserDefined, primPorts = []\<rparr>)\<rparr>"

section \<open>Properties of primitive port connections\<close>

lemma gatherConns_ordered:
  "\<forall>e \<in> set es. req e \<noteq> None \<Longrightarrow>
   gatherConns req k (map OrderedPortConnection es) conns ds =
     (Some (conns @ map req es), ds)"
proof (induction es arbitrary: conns)
  case Nil
  then show ?case by simp
next
  case (Cons e es)
  then obtain ex where ex: "req e = Some ex" by auto
  with Cons show ?case by simp
qed

lemma bindNGate_Some:
  "bindNGate k n i (map Some es) =
     Some (map (\<lambda>(j, e). BoundArgument (nGateDirection k j n) e) (enumerate i es))"
  by (induction es arbitrary: i) simp_all

lemma nGateDirection_NInput:
  "nGateDirection NInput i n = (if i = 0 then Out else In)"
  by (simp add: nGateDirection_def)

lemma nGateDirection_NOutput:
  "2 \<le> n \<Longrightarrow> nGateDirection NOutput i n = In"
  by (simp add: nGateDirection_def)

lemma resolve_ngate_ordered:
  assumes kind: "primitiveKind prim = NInput \<or> primitiveKind prim = NOutput"
    and simple: "\<forall>e \<in> set es. req e = Some e"
    and two: "2 \<le> length es"
  shows "resolvePrimitivePorts req prim (map OrderedPortConnection es) ds =
           Some (map (\<lambda>(j, e). BoundArgument (nGateDirection (primitiveKind prim) j (length es)) e)
                   (enumerate 0 es), ds)"
proof -
  from simple have "\<forall>e \<in> set es. req e \<noteq> None" by auto
  then have g: "gatherConns req (primitiveKind prim) (map OrderedPortConnection es) [] ds =
      (Some (map req es), ds)"
    using gatherConns_ordered [of es req "primitiveKind prim" "[]" ds] by simp
  from simple have m: "map req es = map Some es" by (induction es) auto
  from kind two show ?thesis
    by (auto simp: resolvePrimitivePorts_def g m bindNGate_Some)
qed

text \<open>
  For an n-input gate the first connection is the output and every later one an input.
\<close>

lemma ninput_directions:
  assumes "primitiveKind prim = NInput" "\<forall>e \<in> set es. req e = Some e" "2 \<le> length es"
    and "resolvePrimitivePorts req prim (map OrderedPortConnection es) ds = Some (ps, ds')"
  shows "length ps = length es \<and> boundDirection (ps ! 0) = Out \<and>
         (\<forall>i. 0 < i \<and> i < length es \<longrightarrow> boundDirection (ps ! i) = In)"
proof -
  have ps: "ps = map (\<lambda>(j, e). BoundArgument (nGateDirection NInput j (length es)) e) (enumerate 0 es)"
    using assms resolve_ngate_ordered [of prim es req ds] by simp
  have len: "length ps = length es" by (simp add: ps)
  have nth: "\<And>i. i < length es \<Longrightarrow> ps ! i = BoundArgument (nGateDirection NInput i (length es)) (es ! i)"
    by (simp add: ps nth_enumerate_eq)
  from assms(3) have "0 < length es" by linarith
  with len nth show ?thesis by (simp add: nGateDirection_NInput)
qed

text \<open>
  For an n-output gate every connection is bound as an input, the outputs included.
\<close>

lemma noutput_directions:
  assumes "primitiveKind prim = NOutput" "\<forall>e \<in> set es. req e = Some e" "2 \<le> length es"
    and "resolvePrimitivePorts req prim (map OrderedPortConnection es) ds = Some (ps, ds')"
  shows "length ps = length es \<and> (\<forall>i < length es. boundDirection (ps ! i) = In)"
proof -
  have ps: "ps = map (\<lambda>(j, e). BoundArgument (nGateDirection NOutput j (length es)) e) (enumerate 0 es)"
    using assms resolve_ngate_ordered [of prim es req ds] by simp
  have nth: "\<And>i. i < length es \<Longrightarrow> ps ! i = BoundArgument (nGateDirection NOutput i (length es)) (es ! i)"
    by (simp add: ps nth_enumerate_eq)
  from assms(3) nth show ?thesis by (simp add: ps nGateDirection_NOutput)
qed

text \<open>
  Claim C9.  The claim asks that an n-output gate binds its last connection as an input
  and every earlier one as an output.  On \<^verbatim>\<open>buf (o1, o2, i)\<close> (three ordered
  connections, expressions 0, 1 and 2) the code binds all three as inputs: the two
  outputs are not bound with direction \<open>Out\<close>.
\<close>

theorem C9_noutput_gate_binds_outputs_as_inputs:
  "resolvePrimitivePorts Some
     \<lparr>primName = ''buf'', primitiveKind = NOutput, primPorts = []\<rparr>
     [OrderedPortConnection 0, OrderedPortConnection 1, OrderedPortConnection 2] [] =
   Some ([BoundArgument In 0, BoundArgument In 1, BoundArgument In 2], [])"
  by (simp add: resolvePrimitivePorts_def nGateDirection_def)

section \<open>Properties of configuration blocks\<close>

lemma storeRule_sink: "snd (storeRule rule nd) = snd nd"
  by (cases nd; cases "fst nd") (auto simp: storeRule_def split: option.splits)

lemma updateEntry_sink:
  "(\<And>nd. snd (f nd) = snd nd) \<Longrightarrow> snd (updateEntry k f cs ds) = ds"
proof (induction cs)
  case Nil
  from Nil [of "(InstanceOverride None [], ds)"] show ?case
    by (auto split: prod.splits)
next
  case (Cons c cs)
  obtain k' n where c: "c = (k', n)" by (cases c)
  show ?case
  proof (cases "k = k'")
    case True
    with Cons.prems [of "(n, ds)"] c show ?thesis by (auto split: prod.splits)
  next
    case False
    with Cons c show ?thesis by (auto split: prod.splits)
  qed
qed

lemma atPath_sink:
  "(\<And>nd. snd (f nd) = snd nd) \<Longrightarrow> snd (atPath ks f nd) = snd nd"
proof (induction ks arbitrary: nd)
  case Nil
  then show ?case by simp
next
  case (Cons k ks)
  have "snd (updateEntry k (atPath ks f) (childNodes (fst nd)) (snd nd)) = snd nd"
    by (rule updateEntry_sink) (rule Cons.IH, rule Cons.prems)
  then show ?case by (auto split: prod.splits)
qed

lemma addRule_sink: "snd (addRule gsl r c) = snd c"
proof (cases c)
  case (Pair cfg ds)
  show ?thesis
  proof (cases r)
    case (InstanceConfigRule topModule names clause rng)
    have "snd (updateEntry topModule (atPath names (storeRule (buildRule gsl clause rng)))
            (instanceOverrides cfg) ds) = ds"
      by (rule updateEntry_sink) (rule atPath_sink, rule storeRule_sink)
    with Pair InstanceConfigRule show ?thesis by (auto split: prod.splits)
  qed (simp_all add: Pair Let_def)
qed

text \<open>
  Building a configuration block never adds a diagnostic, whatever its rules are:
  conflicting instance rules included.
\<close>

lemma fromSyntax_sink: "snd (ConfigBlockSymbol_fromSyntax gsl syn ds) = ds"
proof -
  have "snd (fold (addRule gsl) rs c) = snd c" for rs c
    by (induction rs arbitrary: c) (simp_all add: addRule_sink)
  then show ?thesis by (simp add: ConfigBlockSymbol_fromSyntax_def)
qed

text \<open>
  Rules for the same node that fill different slots are merged: each slot of the result
  is the one slot that was filled.
\<close>

lemma mergeInto_union:
  assumes "\<not> slotConflict rule nr"
  shows "paramOverrides (mergeInto rule nr) =
           (if paramOverrides rule \<noteq> None then paramOverrides rule else paramOverrides nr)"
    and "liblist (mergeInto rule nr) = (if liblist rule \<noteq> None then liblist rule else liblist nr)"
    and "useCell (mergeInto rule nr) =
           (if cellName (useCell rule) \<noteq> [] then useCell rule else useCell nr)"
    and "ruleRange (mergeInto rule nr) = ruleRange nr"
  by (simp_all add: mergeInto_def Let_def)

text \<open>
  Claim C2.  The claim asks for an error diagnostic when two instance rules set the same
  slot of the same path.  The configuration
  \<^verbatim>\<open>config cfg; design top; instance top.a use foo; instance top.a use bar; endconfig\<close>
  has two rules that both set the cell slot of \<open>top.a\<close>.  The code emits nothing (the sink
  stays empty) and keeps the first rule; the second is dropped.
\<close>

theorem C2_conflicting_rules_emit_no_diagnostic:
  "(let r = ConfigBlockSymbol_fromSyntax (\<lambda>_. None)
             \<lparr>declName = ''cfg'',
              declTopCells = [\<lparr>synLibrary = [], synCell = ''top''\<rparr>],
              declRules =
                [InstanceConfigRule ''top'' [''a'']
                   (ConfigUseClause (Some \<lparr>synLibrary = [], synCell = ''foo''\<rparr>) None False) 1,
                 InstanceConfigRule ''top'' [''a'']
                   (ConfigUseClause (Some \<lparr>synLibrary = [], synCell = ''bar''\<rparr>) None False) 2]\<rparr>
             []
    in snd r = [] \<and>
       ruleAt (fst r) ''top'' [''a''] =
         Some \<lparr>useCell = \<lparr>cellLib = [], cellName = ''foo'', targetConfig = False\<rparr>,
               liblist = None, paramOverrides = None, ruleRange = 1\<rparr>)"
  by (simp add: ConfigBlockSymbol_fromSyntax_def ruleAt_def storeRule_def buildRule_def
      slotConflict_def buildTopCells_def Let_def)

section \<open>Properties of package lookup\<close>

lemma noteImport_keeps:
  "hasForceElaborated (PackageSymbol_noteImport pkg s st) = hasForceElaborated st"
  "forceElaborations (PackageSymbol_noteImport pkg s st) = forceElaborations st"
  by (simp_all add: PackageSymbol_noteImport_def notePackageExportCandidate_def)

lemma fold_noteImport_keeps:
  "hasForceElaborated (fold (PackageSymbol_noteImport pkg) noted st) = hasForceElaborated st"
  "forceElaborations (fold (PackageSymbol_noteImport pkg) noted st) = forceElaborations st"
  by (induction noted arbitrary: st) (simp_all add: noteImport_keeps)

lemma forceElaborate_keeps:
  "hasForceElaborated (forceElaborate pkg noted st) = hasForceElaborated st"
  "forceElaborations (forceElaborate pkg noted st) = Suc (forceElaborations st)"
  by (simp_all add: forceElaborate_def fold_noteImport_keeps)

text \<open>A name that the package declares itself is answered at once, with no elaboration.\<close>

lemma findForImport_direct:
  "directMembers pkg n = Some s \<Longrightarrow> PackageSymbol_findForImport noted pkg n st = (Some s, st)"
  by (simp add: PackageSymbol_findForImport_def)

text \<open>
  Claim C8, as stated, fails for a package that has no export declaration: the early
  return \<^verbatim>\<open>if (!hasExportAll && exportDecls.empty()) return nullptr;\<close> comes before the
  forced elaboration.  The package \<open>p\<close> below exports nothing and does not declare \<open>n\<close>;
  the first lookup of \<open>n\<close> answers null, leaves the flag unset and elaborates nothing
  (the counter stays 0).
\<close>

theorem C8_package_without_exports_is_not_elaborated:
  "PackageSymbol_findForImport
     [\<lparr>importedName = ''n'', importedSym = 1, owningPackage = ''q''\<rparr>]
     \<lparr>packageName = ''p'', directMembers = (\<lambda>_. None), hasExportAll = False, exportDecls = []\<rparr>
     ''n''
     \<lparr>hasForceElaborated = False, exportCandidates = (\<lambda>_. None), forceElaborations = 0\<rparr>
   = (None, \<lparr>hasForceElaborated = False, exportCandidates = (\<lambda>_. None), forceElaborations = 0\<rparr>)"
  by (simp add: PackageSymbol_findForImport_def)

text \<open>
  Claim C8, amended.  For every package that has an export-all or at least one export
  declaration, and every name it does not declare itself: the first lookup for import
  (flag unset) sets the flag, force-elaborates the body exactly once, and answers from
  the export candidates as they are after that elaboration; a later lookup of a name
  that is not declared either elaborates nothing more, leaves the state as it is, and
  answers from the same candidate set.  A package with no export declaration answers
  null without elaborating.
\<close>

theorem C8_first_lookup_force_elaborates_once:
  assumes "directMembers pkg n = None" and "directMembers pkg n' = None"
    and "\<not> hasForceElaborated st"
  shows "(hasExportAll pkg \<or> exportDecls pkg \<noteq> [] \<longrightarrow>
           (\<exists>st1. PackageSymbol_findForImport noted pkg n st =
                    (findPackageExportCandidate st1 n, st1) \<and>
              st1 = forceElaborate pkg noted (st\<lparr>hasForceElaborated := True\<rparr>) \<and>
              hasForceElaborated st1 \<and>
              forceElaborations st1 = Suc (forceElaborations st) \<and>
              PackageSymbol_findForImport noted pkg n' st1 =
                (findPackageExportCandidate st1 n', st1))) \<and>
         (\<not> hasExportAll pkg \<and> exportDecls pkg = [] \<longrightarrow>
           PackageSymbol_findForImport noted pkg n st = (None, st))"
  using assms
  by (auto simp: PackageSymbol_findForImport_def Let_def forceElaborate_keeps)

theorem C8_first_lookup_witness:
  "(let pkg = \<lparr>packageName = ''p'', directMembers = (\<lambda>_. None), hasExportAll = True,
               exportDecls = []\<rparr>;
        noted = [\<lparr>importedName = ''n'', importedSym = 5, owningPackage = ''q''\<rparr>];
        st = \<lparr>hasForceElaborated = False, exportCandidates = (\<lambda>_. None), forceElaborations = 0\<rparr>;
        r1 = PackageSymbol_findForImport noted pkg ''n'' st;
        r2 = PackageSymbol_findForImport noted pkg ''m'' (snd r1)
    in directMembers pkg ''n'' = None \<and> directMembers pkg ''m'' = None \<and>
       \<not> hasForceElaborated st \<and> hasExportAll pkg \<and>
       fst r1 = Some 5 \<and> hasForceElaborated (snd r1) \<and> forceElaborations (snd r1) = 1 \<and>
       fst r2 = None \<and> forceElaborations (snd r2) = 1)"
  using C8_first_lookup_force_elaborates_once
    [of "\<lparr>packageName = ''p'', directMembers = (\<lambda>_. None), hasExportAll = True, exportDecls = []\<rparr>"
        "''n''" "''m''"
        "\<lparr>hasForceElaborated = False, exportCandidates = (\<lambda>_. None), forceElaborations = 0\<rparr>"
        "[\<lparr>importedName = ''n'', importedSym = 5, owningPackage = ''q''\<rparr>]"]
  by (simp add: Let_def forceElaborate_def PackageSymbol_noteImport_def
      notePackageExportCandidate_def findPackageExportCandidate_def)

section \<open>Properties of the port connection memo\<close>

lemma connectDefault_map:
  "connectionMap (connectDefaultIfacePorts P st) =
     map_option (\<lambda>m. fold (\<lambda>(p, c) m. emplace p c m) (ifacePorts P) m) (connectionMap st)"
  by (simp add: connectDefaultIfacePorts_def)

lemma connectDefault_keeps:
  "portListState (connectDefaultIfacePorts P st) = portListState st"
  "connTrace (connectDefaultIfacePorts P st) = connTrace st"
  by (simp_all add: connectDefaultIfacePorts_def)

text \<open>Every call of \<^verbatim>\<open>resolvePortConnections\<close> that returns leaves the memo set.\<close>

lemma resolveWith_sets:
  "resolveWith g d P st = Some st' \<Longrightarrow> connectionMap st' \<noteq> None"
  by (auto simp: resolveWith_def Let_def connectDefault_map
      split: option.splits if_splits)

text \<open>What a call adds to the trace, by what it finds after asking for the port list.\<close>

lemma resolveWith_trace:
  assumes "resolveWith g d P st = Some st'" and "g st = Some st1"
  shows "connTrace st' =
           connTrace st1 @ (if connectionMap st1 \<noteq> None then [FoundSet d]
                            else [FoundUnset d, AllocatedMap d])"
    and "portListState st' = portListState st1"
  using assms
  by (auto simp: resolveWith_def Let_def connectDefault_keeps split: option.splits if_splits)

lemma demandAll_set:
  "connectionMap st \<noteq> None \<Longrightarrow> demandAll P ps st = Some st"
  by (induction ps) (auto simp: getPortConnectionNested_def)

text \<open>
  While the port list is elaborated, the first demand for a connection resolves the
  connections (the memo is still null then); the later demands find the memo set.
\<close>

lemma demandAll_unset:
  assumes "connectionMap st = None" and "ps \<noteq> []" and "demandAll P ps st = Some st'"
  shows "connectionMap st' \<noteq> None \<and>
         connTrace st' = connTrace st @ [FoundUnset 1, AllocatedMap 1] \<and>
         portListState st' = portListState st"
proof -
  from assms(2) obtain p qs where ps: "ps = p # qs" by (cases ps) auto
  from assms(1,3) ps obtain s1 where
    s1: "resolveWith getPortListNested 1 P st = Some s1" and rest: "demandAll P qs s1 = Some st'"
    by (auto simp: getPortConnectionNested_def split: option.splits)
  from s1 have set1: "connectionMap s1 \<noteq> None" by (rule resolveWith_sets)
  with rest have eq: "st' = s1" by (simp add: demandAll_set)
  have g: "getPortListNested st = Some st" by (simp add: getPortListNested_def)
  from resolveWith_trace [OF s1 g] assms(1) set1 eq show ?thesis by simp
qed

lemma getPortList_cases:
  assumes "getPortList P st = Some st1" and "connectionMap st = None"
  shows "(portListState st = Unset \<and> portDemands P \<noteq> [] \<longrightarrow>
            connectionMap st1 \<noteq> None \<and>
            connTrace st1 = connTrace st @ [FoundUnset 1, AllocatedMap 1]) \<and>
         (portListState st \<noteq> Unset \<or> portDemands P = [] \<longrightarrow>
            connectionMap st1 = None \<and> connTrace st1 = connTrace st)"
proof (cases "portListState st = Unset")
  case False
  with assms show ?thesis by (simp add: getPortList_def)
next
  case True
  with assms(1) obtain s where
    s: "demandAll P (portDemands P) (st\<lparr>portListState := InProgress\<rparr>) = Some s"
    and st1: "st1 = s\<lparr>portListState := Ready\<rparr>"
    by (auto simp: getPortList_def)
  show ?thesis
  proof (cases "portDemands P = []")
    case True
    with s st1 assms(2) show ?thesis by auto
  next
    case False
    from assms(2) have "connectionMap (st\<lparr>portListState := InProgress\<rparr>) = None" by simp
    from demandAll_unset [OF this False s] st1 False \<open>portListState st = Unset\<close>
    show ?thesis by simp
  qed
qed

text \<open>
  Claim C5, as stated, fails in the re-entrant scenario.  The instance below has two
  ports, and the elaboration of its port list asks for the connection of port 0.  On
  the first call of \<^verbatim>\<open>getPortConnections\<close> the trace is: the nested call (depth 1), made
  while the port list is being elaborated, finds the memo unset and allocates the map;
  the first call (depth 0) finds the memo set afterwards.  So the re-entrant call does
  not observe an already set map, and it is not the first call that allocates.
\<close>

theorem C5_reentrant_call_finds_memo_unset:
  "map_option (\<lambda>r. (fst r, connTrace (snd r)))
     (InstanceSymbol_getPortConnections
        \<lparr>portList = [0, 1], hasSyntax = True, madeConnections = [10, 11],
         topLevelIfaceDefaults = False, ifacePorts = [], portDemands = [0]\<rparr>
        \<lparr>connectionMap = None, connections = [], portListState = Unset, connTrace = []\<rparr>)
   = Some ([10, 11], [FoundUnset 1, AllocatedMap 1, FoundSet 0])"
  by (simp add: InstanceSymbol_getPortConnections_def resolvePortConnections_def
      resolveWith_def getPortList_def getPortConnectionNested_def getPortListNested_def
      Let_def emplace_def)

text \<open>
  Claim C5, amended.  \<^verbatim>\<open>getPortConnections\<close> is idempotent: a call that returns leaves
  the memo set, and a second call returns the same connections and changes nothing (so
  the map contents are the same and no work is redone).  The map is allocated and the
  connections are resolved by the first call that finds the memo still null after it
  has asked for the port list.  When the elaboration of the port list re-enters, that
  is the nested call, and the outer call finds the memo set when the port list returns;
  otherwise it is the outer call itself.
\<close>

theorem C5_getPortConnections_idempotent:
  assumes "InstanceSymbol_getPortConnections P st = Some (cs, st')"
  shows "connectionMap st' \<noteq> None \<and>
         InstanceSymbol_getPortConnections P st' = Some (cs, st') \<and>
         (connectionMap st = None \<and> portListState st = Unset \<and> portDemands P \<noteq> [] \<longrightarrow>
            connTrace st' = connTrace st @ [FoundUnset 1, AllocatedMap 1, FoundSet 0]) \<and>
         (connectionMap st = None \<and> (portListState st \<noteq> Unset \<or> portDemands P = []) \<longrightarrow>
            connTrace st' = connTrace st @ [FoundUnset 0, AllocatedMap 0])"
proof (cases "connectionMap st = None")
  case False
  with assms show ?thesis by (auto simp: InstanceSymbol_getPortConnections_def)
next
  case True
  with assms have r: "resolveWith (getPortList P) 0 P st = Some st'" and cs: "cs = connections st'"
    by (auto simp: InstanceSymbol_getPortConnections_def resolvePortConnections_def)
  from r have set': "connectionMap st' \<noteq> None" by (rule resolveWith_sets)
  from r obtain st1 where g: "getPortList P st = Some st1"
    by (auto simp: resolveWith_def split: option.splits)
  note c = getPortList_cases [OF g True]
  note t = resolveWith_trace(1) [OF r g]
  have again: "InstanceSymbol_getPortConnections P st' = Some (cs, st')"
    using set' cs by (auto simp: InstanceSymbol_getPortConnections_def)
  from set' again c t True show ?thesis by auto
qed

theorem C5_idempotent_witness:
  "(let P = \<lparr>portList = [0, 1], hasSyntax = True, madeConnections = [10, 11],
             topLevelIfaceDefaults = False, ifacePorts = [], portDemands = []\<rparr>;
        Q = P\<lparr>portDemands := [0]\<rparr>;
        st = \<lparr>connectionMap = None, connections = [], portListState = Unset, connTrace = []\<rparr>;
        st' = \<lparr>connectionMap = Some ((\<lambda>_. None)(0 := Some 10, 1 := Some 11)),
               connections = [10, 11], portListState = Ready,
               connTrace = [FoundUnset 0, AllocatedMap 0]\<rparr>;
        st'' = st'\<lparr>connTrace := [FoundUnset 1, AllocatedMap 1, FoundSet 0]\<rparr>
    in InstanceSymbol_getPortConnections P st = Some ([10, 11], st') \<and>
       InstanceSymbol_getPortConnections P st' = Some ([10, 11], st') \<and>
       mapContents P st' = [(0, Some 10), (1, Some 11)] \<and>
       InstanceSymbol_getPortConnections Q st = Some ([10, 11], st'') \<and>
       InstanceSymbol_getPortConnections Q st'' = Some ([10, 11], st'') \<and>
       mapContents Q st'' = [(0, Some 10), (1, Some 11)])"
proof -
  let ?P = "\<lparr>portList = [0, 1], hasSyntax = True, madeConnections = [10, 11],
             topLevelIfaceDefaults = False, ifacePorts = [], portDemands = []\<rparr>"
  let ?Q = "?P\<lparr>portDemands := [0]\<rparr>"
  let ?st = "\<lparr>connectionMap = None, connections = [], portListState = Unset, connTrace = []\<rparr>"
  let ?st' = "\<lparr>connectionMap = Some ((\<lambda>_. None)(0 := Some (10::nat), 1 := Some 11)),
               connections = [10, 11], portListState = Ready,
               connTrace = [FoundUnset 0, AllocatedMap 0]\<rparr>"
  let ?st'' = "?st'\<lparr>connTrace := [FoundUnset 1, AllocatedMap 1, FoundSet 0]\<rparr>"
  have first: "InstanceSymbol_getPortConnections ?P ?st = Some ([10, 11], ?st')"
    by (simp add: InstanceSymbol_getPortConnections_def resolvePortConnections_def
        resolveWith_def getPortList_def Let_def emplace_def)
  have nested: "InstanceSymbol_getPortConnections ?Q ?st = Some ([10, 11], ?st'')"
    by (simp add: InstanceSymbol_getPortConnections_def resolvePortConnections_def
        resolveWith_def getPortList_def getPortConnectionNested_def getPortListNested_def
        Let_def emplace_def)
  from C5_getPortConnections_idempotent [OF first] C5_getPortConnections_idempotent [OF nested]
    first nested
  show ?thesis by (simp add: Let_def mapContents_def)
qed

section \<open>Properties of the arena\<close>

lemma extendsI:
  assumes "length (symbols st) \<le> length (symbols st')"
    and "length (bodies st) \<le> length (bodies st')"
    and "\<And>p. p < length (symbols st) \<Longrightarrow> symData (symbols st' ! p) = symData (symbols st ! p)"
    and "\<And>b. b < length (bodies st) \<Longrightarrow> bodies st' ! b = bodies st ! b"
    and "\<And>p. length (symbols st) \<le> p \<Longrightarrow> p < length (symbols st') \<Longrightarrow>
           Q p (symData (symbols st' ! p))"
    and "\<And>p b. length (symbols st) \<le> p \<Longrightarrow> p < length (symbols st') \<Longrightarrow>
           bodyRef (symData (symbols st' ! p)) = Some b \<Longrightarrow>
           length (bodies st) \<le> b \<and> b < length (bodies st') \<and>
           parentInstance (bodies st' ! b) = Some p"
    and "\<And>b. length (bodies st) \<le> b \<Longrightarrow> b < length (bodies st') \<Longrightarrow> R (bodies st' ! b)"
  shows "extends Q R st st'"
  unfolding extends_def using assms by blast

lemma extends_lengths:
  "extends Q R st st' \<Longrightarrow> length (symbols st) \<le> length (symbols st')"
  "extends Q R st st' \<Longrightarrow> length (bodies st) \<le> length (bodies st')"
  by (simp_all add: extends_def)

lemma extends_old:
  "extends Q R st st' \<Longrightarrow> p < length (symbols st) \<Longrightarrow>
     symData (symbols st' ! p) = symData (symbols st ! p)"
  "extends Q R st st' \<Longrightarrow> b < length (bodies st) \<Longrightarrow> bodies st' ! b = bodies st ! b"
  by (simp_all add: extends_def)

lemma extends_new:
  "extends Q R st st' \<Longrightarrow> length (symbols st) \<le> p \<Longrightarrow> p < length (symbols st') \<Longrightarrow>
     Q p (symData (symbols st' ! p))"
  "extends Q R st st' \<Longrightarrow> length (bodies st) \<le> b \<Longrightarrow> b < length (bodies st') \<Longrightarrow>
     R (bodies st' ! b)"
  unfolding extends_def by blast+

lemma extends_new_ref:
  "extends Q R st st' \<Longrightarrow> length (symbols st) \<le> p \<Longrightarrow> p < length (symbols st') \<Longrightarrow>
     bodyRef (symData (symbols st' ! p)) = Some b \<Longrightarrow>
     length (bodies st) \<le> b \<and> b < length (bodies st') \<and> parentInstance (bodies st' ! b) = Some p"
  unfolding extends_def by blast

lemma extends_refl: "extends Q R st st"
  by (rule extendsI) simp_all

lemma extends_same:
  "symbols st' = symbols st \<Longrightarrow> bodies st' = bodies st \<Longrightarrow> extends Q R st st'"
  by (rule extendsI) simp_all

lemma extends_trans:
  assumes a: "extends Q R st st1" and b: "extends Q R st1 st2"
  shows "extends Q R st st2"
proof (rule extendsI)
  show "length (symbols st) \<le> length (symbols st2)"
    using extends_lengths(1) [OF a] extends_lengths(1) [OF b] by simp
  show "length (bodies st) \<le> length (bodies st2)"
    using extends_lengths(2) [OF a] extends_lengths(2) [OF b] by simp
next
  fix p assume "p < length (symbols st)"
  then show "symData (symbols st2 ! p) = symData (symbols st ! p)"
    using extends_old(1) [OF a, of p] extends_old(1) [OF b, of p] extends_lengths(1) [OF a] by simp
next
  fix c assume "c < length (bodies st)"
  then show "bodies st2 ! c = bodies st ! c"
    using extends_old(2) [OF a, of c] extends_old(2) [OF b, of c] extends_lengths(2) [OF a] by simp
next
  fix p assume p: "length (symbols st) \<le> p" "p < length (symbols st2)"
  show "Q p (symData (symbols st2 ! p))"
  proof (cases "p < length (symbols st1)")
    case True
    with p extends_new(1) [OF a, of p] extends_old(1) [OF b, of p] show ?thesis by simp
  next
    case False
    with p extends_new(1) [OF b, of p] show ?thesis by simp
  qed
next
  fix p c assume p: "length (symbols st) \<le> p" "p < length (symbols st2)"
    and c: "bodyRef (symData (symbols st2 ! p)) = Some c"
  show "length (bodies st) \<le> c \<and> c < length (bodies st2) \<and>
        parentInstance (bodies st2 ! c) = Some p"
  proof (cases "p < length (symbols st1)")
    case True
    with c extends_old(1) [OF b, of p] have "bodyRef (symData (symbols st1 ! p)) = Some c" by simp
    from extends_new_ref [OF a p(1) True this] extends_old(2) [OF b, of c]
      extends_lengths(2) [OF b]
    show ?thesis by simp
  next
    case False
    then have "length (symbols st1) \<le> p" by simp
    from extends_new_ref [OF b this p(2) c] extends_lengths(2) [OF a]
    show ?thesis by simp
  qed
next
  fix c assume c: "length (bodies st) \<le> c" "c < length (bodies st2)"
  show "R (bodies st2 ! c)"
  proof (cases "c < length (bodies st1)")
    case True
    with c extends_new(2) [OF a, of c] extends_old(2) [OF b, of c] show ?thesis by simp
  next
    case False
    with c extends_new(2) [OF b, of c] show ?thesis by simp
  qed
qed

lemma extends_mono:
  assumes "extends Q R st st'" and "\<And>p d. Q p d \<Longrightarrow> Q' p d" and "\<And>b. R b \<Longrightarrow> R' b"
  shows "extends Q' R' st st'"
  using assms unfolding extends_def by blast

lemma extends_keeps: "extends Q R st st' \<Longrightarrow> keeps st st'"
  by (simp add: extends_def keeps_def)

lemma extends_backPointers:
  assumes e: "extends Q R st st'" and ok: "backPointersOk st"
  shows "backPointersOk st'"
  unfolding backPointersOk_def
proof (intro allI impI)
  fix p b
  assume p: "p < length (symbols st')" and b: "bodyRef (symData (symbols st' ! p)) = Some b"
  show "b < length (bodies st') \<and> parentInstance (bodies st' ! b) = Some p"
  proof (cases "p < length (symbols st)")
    case True
    with b extends_old(1) [OF e True] ok
    have "b < length (bodies st) \<and> parentInstance (bodies st ! b) = Some p"
      by (simp add: backPointersOk_def)
    with extends_old(2) [OF e, of b] extends_lengths(2) [OF e] show ?thesis by simp
  next
    case False
    then have "length (symbols st) \<le> p" by simp
    from extends_new_ref [OF e this p b] show ?thesis by simp
  qed
qed

lemma symbols_simps [simp]:
  "symbols (addDiag c st) = symbols st" "bodies (addDiag c st) = bodies st"
  "results (addDiag c st) = results st" "lookups (addDiag c st) = lookups st"
  "diags (addDiag c st) = diags st @ [c]" "implicitNets (addDiag c st) = implicitNets st"
  "symbols (noteLookup ev st) = symbols st" "bodies (noteLookup ev st) = bodies st"
  "results (noteLookup ev st) = results st" "lookups (noteLookup ev st) = lookups st @ [ev]"
  "diags (noteLookup ev st) = diags st" "implicitNets (noteLookup ev st) = implicitNets st"
  "symbols (pushResult p st) = symbols st" "bodies (pushResult p st) = bodies st"
  "results (pushResult p st) = results st @ [p]" "lookups (pushResult p st) = lookups st"
  "diags (pushResult p st) = diags st" "implicitNets (pushResult p st) = implicitNets st"
  by (simp_all add: addDiag_def noteLookup_def pushResult_def)

lemma updSymbol_simps [simp]:
  "length (symbols (updSymbol p f st)) = length (symbols st)"
  "bodies (updSymbol p f st) = bodies st" "results (updSymbol p f st) = results st"
  "lookups (updSymbol p f st) = lookups st" "diags (updSymbol p f st) = diags st"
  "implicitNets (updSymbol p f st) = implicitNets st"
  by (simp_all add: updSymbol_def)

lemma updSymbol_nth:
  "q < length (symbols st) \<Longrightarrow>
   symbols (updSymbol p f st) ! q = (if q = p then f (symbols st ! q) else symbols st ! q)"
  by (simp add: updSymbol_def nth_list_update)

lemma emplaceSymbol_simps:
  "emplaceSymbol s st = (p, st') \<Longrightarrow>
     p = length (symbols st) \<and> symbols st' = symbols st @ [s] \<and> bodies st' = bodies st \<and>
     results st' = results st \<and> lookups st' = lookups st \<and> diags st' = diags st \<and>
     implicitNets st' = implicitNets st"
  by (auto simp: emplaceSymbol_def)

lemma emplaceBody_simps:
  "emplaceBody b st = (p, st') \<Longrightarrow>
     p = length (bodies st) \<and> bodies st' = bodies st @ [b] \<and> symbols st' = symbols st \<and>
     results st' = results st \<and> lookups st' = lookups st \<and> diags st' = diags st \<and>
     implicitNets st' = implicitNets st"
  by (auto simp: emplaceBody_def)

text \<open>A write that leaves the data of a symbol as it is (its name, syntax or parent scope).\<close>

lemma extends_updSymbol:
  assumes "\<And>s. symData (f s) = symData s"
  shows "extends Q R st (updSymbol p f st)"
proof (rule extendsI)
  fix q assume "q < length (symbols st)"
  then show "symData (symbols (updSymbol p f st) ! q) = symData (symbols st ! q)"
    by (simp add: updSymbol_nth assms)
qed simp_all

lemma addMembers_extends: "extends Q R st (addMembers arr elems st)"
proof -
  have "extends Q R st (fold (\<lambda>e. updSymbol e (\<lambda>s. s\<lparr>parentScope := Some arr\<rparr>)) elems st0)"
    if "extends Q R st st0" for st0
    using that
  proof (induction elems arbitrary: st0)
    case Nil
    then show ?case by simp
  next
    case (Cons e es)
    have "extends Q R st0 (updSymbol e (\<lambda>s. s\<lparr>parentScope := Some arr\<rparr>) st0)"
      by (rule extends_updSymbol) simp
    with Cons.prems have "extends Q R st (updSymbol e (\<lambda>s. s\<lparr>parentScope := Some arr\<rparr>) st0)"
      by (rule extends_trans)
    then show ?case using Cons.IH by simp
  qed
  then show ?thesis by (simp add: addMembers_def extends_refl)
qed

lemma addMembers_simps [simp]:
  "length (symbols (addMembers arr elems st)) = length (symbols st)"
  "bodies (addMembers arr elems st) = bodies st" "results (addMembers arr elems st) = results st"
  "lookups (addMembers arr elems st) = lookups st" "diags (addMembers arr elems st) = diags st"
  "implicitNets (addMembers arr elems st) = implicitNets st"
  unfolding addMembers_def by (induction elems arbitrary: st; simp)+

text \<open>A new symbol that points to no body.\<close>

lemma extends_emplaceSymbol:
  assumes "emplaceSymbol s st = (p, st')" and "Q (length (symbols st)) (symData s)"
    and "bodyRef (symData s) = None"
  shows "extends Q R st st'"
proof -
  from emplaceSymbol_simps [OF assms(1)]
  have s: "symbols st' = symbols st @ [s]" and b: "bodies st' = bodies st" by simp_all
  show ?thesis
  proof (rule extendsI)
    fix q assume "length (symbols st) \<le> q" "q < length (symbols st')"
    then have q: "q = length (symbols st)" by (simp add: s)
    then show "Q q (symData (symbols st' ! q))" using assms(2) by (simp add: s)
    fix c assume "bodyRef (symData (symbols st' ! q)) = Some c"
    with q assms(3) show "length (bodies st) \<le> c \<and> c < length (bodies st') \<and>
        parentInstance (bodies st' ! c) = Some q" by (simp add: s)
  qed (simp_all add: s b nth_append)
qed

text \<open>
  The constructor on a body from a definition: one new body, one new instance that
  points to it, and the back-pointer of the body set to the instance.
\<close>

lemma InstanceSymbol_fromDefinition_eq:
  "InstanceSymbol_fromDefinition n definition ov u fb st =
     (length (symbols st),
      st\<lparr>symbols := symbols st @ [newSymbol n (Instance (length (bodies st)) [] None)],
         bodies := bodies st @ [\<lparr>bodyOf = OfDefinition definition ov, isUninstantiated = u,
                                isFromBind = fb, parentInstance = Some (length (symbols st))\<rparr>]\<rparr>)"
  by (simp add: InstanceSymbol_fromDefinition_def InstanceBodySymbol_fromDefinition_def
      InstanceSymbol_new_def emplaceBody_def emplaceSymbol_def updBody_def)

lemma createInstance_eq:
  "createInstance b syn ov path st =
     (length (symbols st),
      st\<lparr>symbols := symbols st @
           [\<lparr>name = getName syn,
             symData = Instance (length (bodies st)) path (builderConfig b (length (symbols st))),
             syntaxNode = Some (nodeId syn), parentScope = None\<rparr>],
         bodies := bodies st @ [\<lparr>bodyOf = OfDefinition (ibDefinition b) ov, isUninstantiated = False,
                                isFromBind = ibIsFromBind b,
                                parentInstance = Some (length (symbols st))\<rparr>]\<rparr>)"
  by (simp add: createInstance_def InstanceSymbol_fromDefinition_eq Let_def updSymbol_def
      newSymbol_def builderConfig_def ResolvedConfig_new_def split: option.splits)

lemma extends_new_instance:
  assumes s: "symbols st' = symbols st @ [s]" and b: "bodies st' = bodies st @ [body]"
    and ref: "bodyRef (symData s) = Some (length (bodies st))"
    and bp: "parentInstance body = Some (length (symbols st))"
    and Q: "Q (length (symbols st)) (symData s)" and R: "R body"
  shows "extends Q R st st'"
proof (rule extendsI)
  fix q assume "length (symbols st) \<le> q" "q < length (symbols st')"
  then have q: "q = length (symbols st)" by (simp add: s)
  then show "Q q (symData (symbols st' ! q))" using Q by (simp add: s)
  fix c assume "bodyRef (symData (symbols st' ! q)) = Some c"
  with q ref bp show "length (bodies st) \<le> c \<and> c < length (bodies st') \<and>
      parentInstance (bodies st' ! c) = Some q" by (auto simp: s b)
next
  fix c assume "length (bodies st) \<le> c" "c < length (bodies st')"
  then have "c = length (bodies st)" by (simp add: b)
  then show "R (bodies st' ! c)" using R by (simp add: b)
qed (simp_all add: s b nth_append)

lemma createInstance_extends:
  assumes "createInstance b syn ov path st = (p, st')"
  shows "extends (builtBy b) (bodyBuiltBy b) st st'"
proof -
  let ?s = "\<lparr>name = getName syn,
             symData = Instance (length (bodies st)) path (builderConfig b (length (symbols st))),
             syntaxNode = Some (nodeId syn), parentScope = None\<rparr>"
  let ?body = "\<lparr>bodyOf = OfDefinition (ibDefinition b) ov, isUninstantiated = False,
                isFromBind = ibIsFromBind b, parentInstance = Some (length (symbols st))\<rparr>"
  from assms have s: "symbols st' = symbols st @ [?s]" and bd: "bodies st' = bodies st @ [?body]"
    by (auto simp: createInstance_eq)
  have ref: "bodyRef (symData ?s) = Some (length (bodies st))" by simp
  have bp: "parentInstance ?body = Some (length (symbols st))" by simp
  have Q: "builtBy b (length (symbols st)) (symData ?s)" by (simp add: builtBy_def)
  have R: "bodyBuiltBy b ?body" by (simp add: bodyBuiltBy_def)
  from s bd ref bp Q R show ?thesis by (rule extends_new_instance)
qed

lemma createEmpty_eq:
  "createEmpty syn st =
     (length (symbols st),
      st\<lparr>symbols := symbols st @ [newSymbol (getName syn) (InstanceArray [] ConstantRange_default)]\<rparr>)"
  by (simp add: createEmpty_def emplaceSymbol_def)

lemma createEmpty_extends:
  assumes "createEmpty syn st = (p, st')" and "\<And>q. Q q (InstanceArray [] ConstantRange_default)"
  shows "extends Q R st st'"
  using assms(1) unfolding createEmpty_def
  by (rule extends_emplaceSymbol) (simp_all add: newSymbol_def assms(2))

lemma finishArray_extends:
  assumes "finishArray syn w elements r st = (p, st')" and "\<And>q. Q q (InstanceArray elements r)"
  shows "extends Q R st st'"
proof -
  obtain q st1 where e: "emplaceSymbol (newSymbol (getName syn) (InstanceArray elements r)) st = (q, st1)"
    by (cases "emplaceSymbol (newSymbol (getName syn) (InstanceArray elements r)) st")
  then have 1: "extends Q R st st1"
    by (rule extends_emplaceSymbol) (simp_all add: newSymbol_def assms(2))
  let ?st2 = "if w then updSymbol q (\<lambda>s. s\<lparr>syntaxNode := Some (nodeId syn)\<rparr>) st1 else st1"
  have 2: "extends Q R st1 ?st2"
    by (simp add: extends_refl extends_updSymbol)
  have 3: "extends Q R ?st2 (addMembers q elements ?st2)" by (rule addMembers_extends)
  from assms(1) e have "st' = addMembers q elements ?st2"
    by (auto simp: finishArray_def)
  with 1 2 3 show ?thesis by (metis extends_trans)
qed

text \<open>The array that \<open>finishArray\<close> returns holds the elements and the range it was given.\<close>

lemma finishArray_result:
  assumes "finishArray syn w elements r st = (p, st')"
  shows "p = length (symbols st) \<and> length (symbols st') = Suc (length (symbols st)) \<and>
         symData (symbols st' ! p) = InstanceArray elements r \<and>
         diags st' = diags st \<and> results st' = results st \<and> lookups st' = lookups st"
proof -
  obtain q st1 where e: "emplaceSymbol (newSymbol (getName syn) (InstanceArray elements r)) st = (q, st1)"
    by (cases "emplaceSymbol (newSymbol (getName syn) (InstanceArray elements r)) st")
  note s = emplaceSymbol_simps [OF e]
  let ?st2 = "if w then updSymbol q (\<lambda>s. s\<lparr>syntaxNode := Some (nodeId syn)\<rparr>) st1 else st1"
  from assms e have st': "st' = addMembers q elements ?st2" and p: "p = q"
    by (auto simp: finishArray_def)
  have "extends (\<lambda>_ _. True) (\<lambda>_. True) ?st2 (addMembers q elements ?st2)"
    by (rule addMembers_extends)
  from extends_old(1) [OF this, of q] s
  have "symData (symbols st' ! q) = symData (symbols ?st2 ! q)"
    by (simp add: st')
  also have "\<dots> = InstanceArray elements r"
    using s by (simp add: updSymbol_nth newSymbol_def)
  finally show ?thesis using s p st' by simp
qed

lemma builtBy_array [simp]:
  "builtBy b q (InstanceArray es r) \<longleftrightarrow>
     length es = width r \<or> (es = [] \<and> r = ConstantRange_default)"
  by (simp add: builtBy_def)

lemma recurseElements_length:
  "recurseElements ctx b syn ov ds r idxs path elements st = (es, st') \<Longrightarrow>
     length es = length elements + length idxs"
proof (induction idxs arbitrary: elements st)
  case Nil
  then show ?case by simp
next
  case (Cons i idxs)
  then show ?case by (auto split: prod.splits)
qed

lemma recurse_extends:
  "recurse ctx b syn ov dims path st = (p, st') \<Longrightarrow>
     extends (builtBy b) (bodyBuiltBy b) st st'"
  "recurseElements ctx b syn ov ds r idxs path elements st = (es, st') \<Longrightarrow>
     extends (builtBy b) (bodyBuiltBy b) st st'"
proof (induction ctx b syn ov dims path st and ctx b syn ov ds r idxs path elements st
    arbitrary: p st' and es st' rule: recurse_recurseElements.induct)
  case (1 ctx b syn overrideNode path st)
  then show ?case by (simp add: createInstance_extends)
next
  case (2 ctx b syn overrideNode d ds path st)
  let ?dim = "evalDimension ctx d"
  show ?case
  proof (cases "isRange ?dim \<and> \<not> width (dimRange ?dim) > maxInstanceArray ctx")
    case False
    then consider "\<not> isRange ?dim" | "isRange ?dim" "width (dimRange ?dim) > maxInstanceArray ctx"
      by blast
    then show ?thesis
    proof cases
      case 1
      with "2.prems" show ?thesis by (auto intro: createEmpty_extends)
    next
      case 2
      with "2.prems" have e: "createEmpty syn (addDiag MaxInstanceArrayExceeded st) = (p, st')"
        by simp
      have "extends (builtBy b) (bodyBuiltBy b) (addDiag MaxInstanceArrayExceeded st) st'"
        using e by (rule createEmpty_extends) simp
      moreover have "extends (builtBy b) (bodyBuiltBy b) st (addDiag MaxInstanceArrayExceeded st)"
        by (rule extends_same) simp_all
      ultimately show ?thesis by (metis extends_trans)
    qed
  next
    case True
    obtain elems st1 where r: "recurseElements ctx b syn overrideNode ds (dimRange ?dim)
                   [0 ..< width (dimRange ?dim)] path [] st = (elems, st1)"
      by (cases "recurseElements ctx b syn overrideNode ds (dimRange ?dim)
                   [0 ..< width (dimRange ?dim)] path [] st")
    with True "2.prems" have f: "finishArray syn True elems (dimRange ?dim) st1 = (p, st')"
      by simp
    from True have "extends (builtBy b) (bodyBuiltBy b) st st1"
      using "2.IH" r by simp
    moreover have "extends (builtBy b) (bodyBuiltBy b) st1 st'"
      using f recurseElements_length [OF r] by (auto intro: finishArray_extends)
    ultimately show ?thesis by (rule extends_trans)
  qed
next
  case (3 ctx b syn overrideNode ds r path elements st)
  then show ?case by (simp add: extends_refl)
next
  case (4 ctx b syn overrideNode ds r i idxs path elements st)
  let ?ov = "case overrideNode of None \<Rightarrow> None | Some n \<Rightarrow> map_of (childrenBySyntax n) (IndexKey i)"
  obtain symbol st1 where r: "recurse ctx b syn ?ov ds (path @ [lower r + int i]) st = (symbol, st1)"
    by (cases "recurse ctx b syn ?ov ds (path @ [lower r + int i]) st")
  let ?st2 = "updSymbol symbol (\<lambda>s. s\<lparr>name := []\<rparr>) st1"
  from "4.prems" r have rest: "recurseElements ctx b syn overrideNode ds r idxs path
        (elements @ [symbol]) ?st2 = (es, st')" by simp
  have 1: "extends (builtBy b) (bodyBuiltBy b) st st1" using "4.IH"(1) r by simp
  have 2: "extends (builtBy b) (bodyBuiltBy b) st1 ?st2" by (rule extends_updSymbol) simp
  have 3: "extends (builtBy b) (bodyBuiltBy b) ?st2 st'"
    using "4.IH"(2) [OF r [symmetric] rest] .
  from 1 2 3 show ?case by (metis extends_trans)
qed


text \<open>
  The builder adds nothing to the results, the implicit nets or the trace of lookups, and
  it only adds to the diagnostics.  The symbol it returns is one that it created.
\<close>

lemma createInstance_frame:
  "createInstance b syn ov path st = (p, st') \<Longrightarrow>
     results st' = results st \<and> implicitNets st' = implicitNets st \<and>
     lookups st' = lookups st \<and> diags st' = diags st \<and>
     p = length (symbols st) \<and> length (symbols st') = Suc (length (symbols st))"
  by (auto simp: createInstance_eq)

lemma createEmpty_frame:
  "createEmpty syn st = (p, st') \<Longrightarrow>
     results st' = results st \<and> implicitNets st' = implicitNets st \<and>
     lookups st' = lookups st \<and> diags st' = diags st \<and>
     p = length (symbols st) \<and> length (symbols st') = Suc (length (symbols st)) \<and>
     symData (symbols st' ! p) = InstanceArray [] ConstantRange_default"
  by (auto simp: createEmpty_eq newSymbol_def)

lemma finishArray_frame:
  "finishArray syn w elements r st = (p, st') \<Longrightarrow>
     results st' = results st \<and> implicitNets st' = implicitNets st \<and>
     lookups st' = lookups st \<and> diags st' = diags st"
  by (auto simp: finishArray_def emplaceSymbol_def split: prod.splits if_splits)

lemma recurse_frame:
  "recurse ctx b syn ov dims path st = (p, st') \<Longrightarrow>
     results st' = results st \<and> implicitNets st' = implicitNets st \<and>
     lookups st' = lookups st \<and> (\<exists>new. diags st' = diags st @ new) \<and>
     length (symbols st) \<le> p \<and> p < length (symbols st')"
  "recurseElements ctx b syn ov ds r idxs path elements st = (es, st') \<Longrightarrow>
     results st' = results st \<and> implicitNets st' = implicitNets st \<and>
     lookups st' = lookups st \<and> (\<exists>new. diags st' = diags st @ new)"
proof (induction ctx b syn ov dims path st and ctx b syn ov ds r idxs path elements st
    arbitrary: p st' and es st' rule: recurse_recurseElements.induct)
  case (1 ctx b syn overrideNode path st)
  then show ?case using createInstance_frame by auto
next
  case (2 ctx b syn overrideNode d ds path st)
  let ?dim = "evalDimension ctx d"
  show ?case
  proof (cases "isRange ?dim \<and> \<not> width (dimRange ?dim) > maxInstanceArray ctx")
    case False
    then consider "\<not> isRange ?dim" | "isRange ?dim" "width (dimRange ?dim) > maxInstanceArray ctx"
      by blast
    then show ?thesis
    proof cases
      case 1
      with "2.prems" createEmpty_frame [of syn st p st'] show ?thesis by auto
    next
      case 2
      with "2.prems"
        createEmpty_frame [of syn "addDiag MaxInstanceArrayExceeded st" p st']
      show ?thesis by auto
    qed
  next
    case True
    obtain elems st1 where r: "recurseElements ctx b syn overrideNode ds (dimRange ?dim)
                   [0 ..< width (dimRange ?dim)] path [] st = (elems, st1)"
      by (cases "recurseElements ctx b syn overrideNode ds (dimRange ?dim)
                   [0 ..< width (dimRange ?dim)] path [] st")
    with True "2.prems" have f: "finishArray syn True elems (dimRange ?dim) st1 = (p, st')"
      by simp
    from True have 1: "results st1 = results st \<and> implicitNets st1 = implicitNets st \<and>
      lookups st1 = lookups st \<and> (\<exists>new. diags st1 = diags st @ new)"
      using "2.IH" r by simp
    have len: "length (symbols st) \<le> length (symbols st1)"
      using recurse_extends(2) [OF r] by (rule extends_lengths)
    from 1 len finishArray_frame [OF f] finishArray_result [OF f] show ?thesis by auto
  qed
next
  case (3 ctx b syn overrideNode ds r path elements st)
  then show ?case by simp
next
  case (4 ctx b syn overrideNode ds r i idxs path elements st)
  let ?ov = "case overrideNode of None \<Rightarrow> None | Some n \<Rightarrow> map_of (childrenBySyntax n) (IndexKey i)"
  obtain symbol st1 where r: "recurse ctx b syn ?ov ds (path @ [lower r + int i]) st = (symbol, st1)"
    by (cases "recurse ctx b syn ?ov ds (path @ [lower r + int i]) st")
  let ?st2 = "updSymbol symbol (\<lambda>s. s\<lparr>name := []\<rparr>) st1"
  from "4.prems" r have rest: "recurseElements ctx b syn overrideNode ds r idxs path
        (elements @ [symbol]) ?st2 = (es, st')" by simp
  from "4.IH"(1) [OF r] "4.IH"(2) [OF r [symmetric] rest] show ?case by auto
qed

text \<open>
  One dimension of a module-like instance array, by the three cases of the evaluated
  dimension: not a range, a range that is too wide, and a range within the limit.
\<close>

lemma width_int: "int (width r) = upper r - lower r + 1"
  by (simp add: width_def upper_def lower_def)

lemma recurse_dimension:
  assumes "recurse ctx b syn ov (d # ds) path st = (p, st')"
  shows "(\<not> isRange (evalDimension ctx d) \<longrightarrow>
            symData (symbols st' ! p) = InstanceArray [] ConstantRange_default \<and>
            diags st' = diags st) \<and>
         (isRange (evalDimension ctx d) \<and>
          width (dimRange (evalDimension ctx d)) > maxInstanceArray ctx \<longrightarrow>
            symData (symbols st' ! p) = InstanceArray [] ConstantRange_default \<and>
            diags st' = diags st @ [MaxInstanceArrayExceeded]) \<and>
         (isRange (evalDimension ctx d) \<and>
          width (dimRange (evalDimension ctx d)) \<le> maxInstanceArray ctx \<longrightarrow>
            (\<exists>es. symData (symbols st' ! p) = InstanceArray es (dimRange (evalDimension ctx d)) \<and>
                  int (length es) =
                    upper (dimRange (evalDimension ctx d)) - lower (dimRange (evalDimension ctx d)) + 1))"
proof -
  let ?dim = "evalDimension ctx d"
  consider "\<not> isRange ?dim" | "isRange ?dim" "width (dimRange ?dim) > maxInstanceArray ctx"
    | "isRange ?dim" "width (dimRange ?dim) \<le> maxInstanceArray ctx"
    by linarith
  then show ?thesis
  proof cases
    case 1
    with assms createEmpty_frame [of syn st p st'] show ?thesis by auto
  next
    case 2
    with assms createEmpty_frame [of syn "addDiag MaxInstanceArrayExceeded st" p st']
    show ?thesis by auto
  next
    case 3
    obtain elems st1 where r: "recurseElements ctx b syn ov ds (dimRange ?dim)
                   [0 ..< width (dimRange ?dim)] path [] st = (elems, st1)"
      by (cases "recurseElements ctx b syn ov ds (dimRange ?dim)
                   [0 ..< width (dimRange ?dim)] path [] st")
    with 3 assms have f: "finishArray syn True elems (dimRange ?dim) st1 = (p, st')"
      by simp
    from recurseElements_length [OF r] have "int (length elems) = int (width (dimRange ?dim))"
      by simp
    with 3 finishArray_result [OF f] show ?thesis by (auto simp: width_int)
  qed
qed

lemma create_extends:
  "create ctx b syn st = (p, st') \<Longrightarrow> extends (builtBy b) (bodyBuiltBy b) st st'"
proof (cases "decl syn")
  case None
  assume "create ctx b syn st = (p, st')"
  with None have c: "createInstance b syn None [] (addDiag InstanceNameRequired st) = (p, st')"
    by (simp add: create_def)
  have "extends (builtBy b) (bodyBuiltBy b) st (addDiag InstanceNameRequired st)"
    by (rule extends_same) simp_all
  with createInstance_extends [OF c] show ?thesis by (metis extends_trans)
next
  case (Some d)
  assume "create ctx b syn st = (p, st')"
  with Some show ?thesis by (auto simp: create_def intro: recurse_extends(1))
qed

lemma create_frame:
  "create ctx b syn st = (p, st') \<Longrightarrow>
     results st' = results st \<and> implicitNets st' = implicitNets st \<and>
     lookups st' = lookups st \<and> (\<exists>new. diags st' = diags st @ new) \<and>
     length (symbols st) \<le> p \<and> p < length (symbols st')"
proof (cases "decl syn")
  case None
  assume "create ctx b syn st = (p, st')"
  with None have c: "createInstance b syn None [] (addDiag InstanceNameRequired st) = (p, st')"
    by (simp add: create_def)
  from createInstance_frame [OF c] show ?thesis by auto
next
  case (Some d)
  assume "create ctx b syn st = (p, st')"
  with Some show ?thesis by (auto simp: create_def dest: recurse_frame(1))
qed

text \<open>Arrays of primitive and checker instances, for any instance at the leaves.\<close>

lemma leafElements_length:
  "leafElements leaf ctx syn ds idxs path elements st = Some (es, st') \<Longrightarrow>
     length es = length elements + length idxs"
proof (induction idxs arbitrary: elements st)
  case Nil
  then show ?case by simp
next
  case (Cons i idxs)
  then show ?case by (auto split: prod.splits option.splits)
qed

lemma upto_length_width: "length [lower r .. upper r] = width r"
  by (simp add: width_def)

lemma recurseLeafArray_extends:
  assumes leaf: "\<And>path st p st'. leaf path st = (p, st') \<Longrightarrow> extends Q R st st'"
    and arr: "\<And>q es r. length es = width r \<or> (es = [] \<and> r = ConstantRange_default) \<Longrightarrow>
                Q q (InstanceArray es r)"
  shows "recurseLeafArray leaf ctx syn dims path st = Some (p, st') \<Longrightarrow> extends Q R st st'"
    and "leafElements leaf ctx syn ds idxs path elements st = Some (es, st') \<Longrightarrow> extends Q R st st'"
  using leaf arr
proof (induction leaf ctx syn dims path st and leaf ctx syn ds idxs path elements st
    arbitrary: p st' and es st' rule: recurseLeafArray_leafElements.induct)
  case (1 leaf ctx syn path st)
  then show ?case by simp
next
  case (2 leaf ctx syn d ds path st)
  let ?dim = "evalDimension ctx d"
  note leaf' = "2.prems"(2) and arr' = "2.prems"(3)
  show ?case
  proof (cases "isRange ?dim \<and> \<not> width (dimRange ?dim) > maxInstanceArray ctx")
    case False
    then consider "\<not> isRange ?dim" | "isRange ?dim" "width (dimRange ?dim) > maxInstanceArray ctx"
      by blast
    then show ?thesis
    proof cases
      case 1
      with "2.prems"(1) have "createEmpty syn st = (p, st')" by simp
      then show ?thesis by (rule createEmpty_extends) (rule arr', simp)
    next
      case 2
      with "2.prems"(1) have e: "createEmpty syn (addDiag MaxInstanceArrayExceeded st) = (p, st')"
        by simp
      have "extends Q R (addDiag MaxInstanceArrayExceeded st) st'"
        using e by (rule createEmpty_extends) (rule arr', simp)
      moreover have "extends Q R st (addDiag MaxInstanceArrayExceeded st)"
        by (rule extends_same) simp_all
      ultimately show ?thesis by (metis extends_trans)
    qed
  next
    case True
    with "2.prems"(1) have nov: "\<not> INT32_MAX \<le> upper (dimRange ?dim)"
      by (auto split: if_splits)
    with True "2.prems"(1) obtain elems st1 where
      r: "leafElements leaf ctx syn ds [lower (dimRange ?dim) .. upper (dimRange ?dim)] path [] st
            = Some (elems, st1)"
      and f: "finishArray syn False elems (dimRange ?dim) st1 = (p, st')"
      by (auto split: option.splits)
    have 1: "extends Q R st st1"
      using "2.IH" [OF _ _ nov r leaf' arr'] True by simp
    from leafElements_length [OF r] have "length elems = width (dimRange ?dim)"
      by (simp add: width_def)
    then have 2: "extends Q R st1 st'"
      by (intro finishArray_extends [OF f] arr') simp
    from 1 2 show ?thesis by (rule extends_trans)
  qed
next
  case (3 leaf ctx syn ds path elements st)
  then show ?case by (simp add: extends_refl)
next
  case (4 leaf ctx syn ds i idxs path elements st)
  note leaf' = "4.prems"(2) and arr' = "4.prems"(3)
  from "4.prems"(1) obtain symbol st1 where
    r: "recurseLeafArray leaf ctx syn ds (path @ [i]) st = Some (symbol, st1)"
    and rest: "leafElements leaf ctx syn ds idxs path (elements @ [symbol])
            (updSymbol symbol (\<lambda>s. s\<lparr>name := []\<rparr>) st1) = Some (es, st')"
    by (auto split: option.splits)
  let ?st2 = "updSymbol symbol (\<lambda>s. s\<lparr>name := []\<rparr>) st1"
  have 1: "extends Q R st st1" using "4.IH"(1) [OF r leaf' arr'] .
  have 2: "extends Q R st1 ?st2" by (rule extends_updSymbol) simp
  have 3: "extends Q R ?st2 st'" using "4.IH"(2) [OF r _ rest leaf' arr'] by simp
  from 1 2 3 show ?case by (metis extends_trans)
qed


lemma recurseLeafArray_frame:
  assumes leaf: "\<And>path st p st'. leaf path st = (p, st') \<Longrightarrow>
       results st' = results st \<and> implicitNets st' = implicitNets st \<and>
       lookups st' = lookups st \<and> (\<exists>new. diags st' = diags st @ new) \<and>
       length (symbols st) \<le> p \<and> p < length (symbols st') \<and>
       length (symbols st) \<le> length (symbols st')"
  shows "recurseLeafArray leaf ctx syn dims path st = Some (p, st') \<Longrightarrow>
       results st' = results st \<and> implicitNets st' = implicitNets st \<and>
       lookups st' = lookups st \<and> (\<exists>new. diags st' = diags st @ new) \<and>
       length (symbols st) \<le> p \<and> p < length (symbols st') \<and>
       length (symbols st) \<le> length (symbols st')"
    and "leafElements leaf ctx syn ds idxs path elements st = Some (es, st') \<Longrightarrow>
       results st' = results st \<and> implicitNets st' = implicitNets st \<and>
       lookups st' = lookups st \<and> (\<exists>new. diags st' = diags st @ new) \<and>
       length (symbols st) \<le> length (symbols st')"
  using leaf
proof (induction leaf ctx syn dims path st and leaf ctx syn ds idxs path elements st
    arbitrary: p st' and es st' rule: recurseLeafArray_leafElements.induct)
  case (1 leaf ctx syn path st)
  from "1.prems"(1) have "leaf path st = (p, st')" by simp
  then show ?case by (rule "1.prems"(2))
next
  case (2 leaf ctx syn d ds path st)
  let ?dim = "evalDimension ctx d"
  note leaf' = "2.prems"(2)
  show ?case
  proof (cases "isRange ?dim \<and> \<not> width (dimRange ?dim) > maxInstanceArray ctx")
    case False
    then consider "\<not> isRange ?dim" | "isRange ?dim" "width (dimRange ?dim) > maxInstanceArray ctx"
      by blast
    then show ?thesis
    proof cases
      case 1
      with "2.prems"(1) createEmpty_frame [of syn st p st'] show ?thesis by auto
    next
      case 2
      with "2.prems"(1)
        createEmpty_frame [of syn "addDiag MaxInstanceArrayExceeded st" p st']
      show ?thesis by auto
    qed
  next
    case True
    with "2.prems"(1) have nov: "\<not> INT32_MAX \<le> upper (dimRange ?dim)"
      by (auto split: if_splits)
    with True "2.prems"(1) obtain elems st1 where
      r: "leafElements leaf ctx syn ds [lower (dimRange ?dim) .. upper (dimRange ?dim)] path [] st
            = Some (elems, st1)"
      and f: "finishArray syn False elems (dimRange ?dim) st1 = (p, st')"
      by (auto split: option.splits)
    have 1: "results st1 = results st \<and> implicitNets st1 = implicitNets st \<and>
       lookups st1 = lookups st \<and> (\<exists>new. diags st1 = diags st @ new) \<and>
       length (symbols st) \<le> length (symbols st1)"
      using "2.IH" [OF _ _ nov r] leaf' True by blast
    from 1 finishArray_frame [OF f] finishArray_result [OF f] show ?thesis by auto
  qed
next
  case (3 leaf ctx syn ds path elements st)
  then show ?case by simp
next
  case (4 leaf ctx syn ds i idxs path elements st)
  note leaf' = "4.prems"(2)
  from "4.prems"(1) obtain symbol st1 where
    r: "recurseLeafArray leaf ctx syn ds (path @ [i]) st = Some (symbol, st1)"
    and rest: "leafElements leaf ctx syn ds idxs path (elements @ [symbol])
            (updSymbol symbol (\<lambda>s. s\<lparr>name := []\<rparr>) st1) = Some (es, st')"
    by (auto split: option.splits)
  have 1: "results st1 = results st \<and> implicitNets st1 = implicitNets st \<and>
       lookups st1 = lookups st \<and> (\<exists>new. diags st1 = diags st @ new) \<and>
       length (symbols st) \<le> length (symbols st1)"
    using "4.IH"(1) [OF r] leaf' by blast
  have 2: "results st' = results (updSymbol symbol (\<lambda>s. s\<lparr>name := []\<rparr>) st1) \<and>
       implicitNets st' = implicitNets (updSymbol symbol (\<lambda>s. s\<lparr>name := []\<rparr>) st1) \<and>
       lookups st' = lookups (updSymbol symbol (\<lambda>s. s\<lparr>name := []\<rparr>) st1) \<and>
       (\<exists>new. diags st' = diags (updSymbol symbol (\<lambda>s. s\<lparr>name := []\<rparr>) st1) @ new) \<and>
       length (symbols (updSymbol symbol (\<lambda>s. s\<lparr>name := []\<rparr>) st1)) \<le> length (symbols st')"
    using "4.IH"(2) [OF r _ rest] leaf' by blast
  from 1 2 show ?case by auto
qed

text \<open>
  One dimension of an array of primitive or checker instances.  The call returns unless
  the increment of the loop counter overflows (at this dimension or at one below); when
  it returns, the three cases are those of a module-like array.
\<close>

lemma recurseLeafArray_dimension:
  assumes "recurseLeafArray leaf ctx syn (d # ds) path st = Some (p, st')"
  shows "(\<not> isRange (evalDimension ctx d) \<longrightarrow>
            symData (symbols st' ! p) = InstanceArray [] ConstantRange_default \<and>
            diags st' = diags st) \<and>
         (isRange (evalDimension ctx d) \<and>
          width (dimRange (evalDimension ctx d)) > maxInstanceArray ctx \<longrightarrow>
            symData (symbols st' ! p) = InstanceArray [] ConstantRange_default \<and>
            diags st' = diags st @ [MaxInstanceArrayExceeded]) \<and>
         (isRange (evalDimension ctx d) \<and>
          width (dimRange (evalDimension ctx d)) \<le> maxInstanceArray ctx \<longrightarrow>
            upper (dimRange (evalDimension ctx d)) < INT32_MAX \<and>
            (\<exists>es. symData (symbols st' ! p) = InstanceArray es (dimRange (evalDimension ctx d)) \<and>
                  int (length es) =
                    upper (dimRange (evalDimension ctx d)) - lower (dimRange (evalDimension ctx d)) + 1))"
proof -
  let ?dim = "evalDimension ctx d"
  consider "\<not> isRange ?dim" | "isRange ?dim" "width (dimRange ?dim) > maxInstanceArray ctx"
    | "isRange ?dim" "width (dimRange ?dim) \<le> maxInstanceArray ctx"
    by linarith
  then show ?thesis
  proof cases
    case 1
    with assms createEmpty_frame [of syn st p st'] show ?thesis by auto
  next
    case 2
    with assms createEmpty_frame [of syn "addDiag MaxInstanceArrayExceeded st" p st']
    show ?thesis by auto
  next
    case 3
    with assms have nov: "\<not> INT32_MAX \<le> upper (dimRange ?dim)"
      by (auto split: if_splits)
    with 3 assms obtain elems st1 where
      r: "leafElements leaf ctx syn ds [lower (dimRange ?dim) .. upper (dimRange ?dim)] path [] st
            = Some (elems, st1)"
      and f: "finishArray syn False elems (dimRange ?dim) st1 = (p, st')"
      by (auto split: option.splits)
    from leafElements_length [OF r] have "int (length elems) = int (width (dimRange ?dim))"
      by (simp add: width_def)
    with 3 nov finishArray_result [OF f] show ?thesis by (auto simp: width_int)
  qed
qed

text \<open>
  The loop of a primitive or checker array does not return when the upper bound of a
  range within the limit is the largest 32-bit integer.
\<close>

lemma recurseLeafArray_overflow:
  assumes "isRange (evalDimension ctx d)"
    and "width (dimRange (evalDimension ctx d)) \<le> maxInstanceArray ctx"
    and "upper (dimRange (evalDimension ctx d)) = INT32_MAX"
  shows "recurseLeafArray leaf ctx syn (d # ds) path st = None"
  using assms by simp

text \<open>It returns when no range reaches that bound.\<close>

lemma recurseLeafArray_returns:
  "\<forall>d \<in> set dims. upper (dimRange (evalDimension ctx d)) < INT32_MAX \<Longrightarrow>
     \<exists>r. recurseLeafArray leaf ctx syn dims path st = Some r"
  "\<forall>d \<in> set ds. upper (dimRange (evalDimension ctx d)) < INT32_MAX \<Longrightarrow>
     \<exists>r. leafElements leaf ctx syn ds idxs path elements st = Some r"
proof (induction leaf ctx syn dims path st and leaf ctx syn ds idxs path elements st
    rule: recurseLeafArray_leafElements.induct)
  case (1 leaf ctx syn path st)
  then show ?case by simp
next
  case (2 leaf ctx syn d ds path st)
  let ?dim = "evalDimension ctx d"
  from "2.prems" have nov: "\<not> INT32_MAX \<le> upper (dimRange ?dim)"
    and rest: "\<forall>d \<in> set ds. upper (dimRange (evalDimension ctx d)) < INT32_MAX" by auto
  show ?case
  proof (cases "isRange ?dim \<and> \<not> width (dimRange ?dim) > maxInstanceArray ctx")
    case False
    then show ?thesis by auto
  next
    case True
    from "2.IH" [OF _ _ nov rest] True obtain r where
      "leafElements leaf ctx syn ds [lower (dimRange ?dim) .. upper (dimRange ?dim)] path [] st = Some r"
      by auto
    with True nov show ?thesis by (cases r) auto
  qed
next
  case (3 leaf ctx syn ds path elements st)
  then show ?case by simp
next
  case (4 leaf ctx syn ds i idxs path elements st)
  from "4.IH"(1) [OF "4.prems"(1)] obtain symbol st1 where
    r: "recurseLeafArray leaf ctx syn ds (path @ [i]) st = Some (symbol, st1)" by auto
  from "4.IH"(2) [OF r _ "4.prems"(1)] r show ?case by auto
qed

text \<open>Implicit nets: only nets are added, and only the vector of implicit nets grows.\<close>

lemma addImplicitNets_props:
  assumes "addImplicitNets ns (seen, st) = (seen', st')" and "\<And>q. Q q Net"
  shows "extends Q R st st' \<and> bodies st' = bodies st \<and> results st' = results st \<and>
         lookups st' = lookups st \<and> diags st' = diags st \<and> instantiated st' = instantiated st \<and>
         (\<exists>more. symbols st' = symbols st @ more)"
  using assms(1)
proof (induction ns arbitrary: seen st)
  case Nil
  then show ?case by (simp add: extends_refl)
next
  case (Cons n ns)
  show ?case
  proof (cases "n \<in> set seen")
    case True
    with Cons show ?thesis by simp
  next
    case False
    obtain net st1 where e: "emplaceSymbol (newSymbol n Net) st = (net, st1)"
      by (cases "emplaceSymbol (newSymbol n Net) st")
    let ?st2 = "st1\<lparr>implicitNets := implicitNets st1 @ [net]\<rparr>"
    from False Cons.prems e have rest: "addImplicitNets ns (seen @ [n], ?st2) = (seen', st')"
      by simp
    have 1: "extends Q R st st1"
      using e by (rule extends_emplaceSymbol) (simp_all add: newSymbol_def assms(2))
    have 2: "extends Q R st1 ?st2" by (rule extends_same) simp_all
    note 3 = Cons.IH [OF rest]
    from 1 2 3 have "extends Q R st st'" by (metis extends_trans)
    moreover from e have "instantiated st1 = instantiated st" by (auto simp: emplaceSymbol_def)
    ultimately show ?thesis using 3 emplaceSymbol_simps [OF e] by auto
  qed
qed

lemma createImplicitNets_props:
  assumes "createImplicitNets ctx syn (seen, st) = (seen', st')" and "\<And>q. Q q Net"
  shows "extends Q R st st' \<and> bodies st' = bodies st \<and> results st' = results st \<and>
         lookups st' = lookups st \<and> diags st' = diags st \<and> instantiated st' = instantiated st \<and>
         (\<exists>more. symbols st' = symbols st @ more)"
proof (cases "netTypeIsError ctx")
  case True
  with assms(1) show ?thesis by (simp add: createImplicitNets_def extends_refl)
next
  case False
  with assms(1) have "addImplicitNets (potentiallyImplicitNets ctx (nodeId syn)) (seen, st) = (seen', st')"
    by (simp add: createImplicitNets_def)
  then show ?thesis using assms(2) by (rule addImplicitNets_props)
qed

text \<open>
  A placeholder: the implicit nets of the instance, then one symbol that is pushed to the
  results; it has the name of the instance and the name of the definition.
\<close>

lemma createUninstantiatedDef_props:
  assumes "createUninstantiatedDef ctx moduleName syn (seen, st) = (seen', st')"
  shows "extends (isPlaceholderOrNet moduleName) (\<lambda>_. False) st st' \<and>
         bodies st' = bodies st \<and> lookups st' = lookups st \<and> diags st' = diags st \<and>
         instantiated st' = instantiated st \<and> (\<exists>more. symbols st' = symbols st @ more) \<and>
         (\<exists>p. results st' = results st @ [p] \<and> length (symbols st) \<le> p \<and>
              Suc p = length (symbols st') \<and>
              name (symbols st' ! p) = getName syn \<and>
              symData (symbols st' ! p) = UninstantiatedDef moduleName False)"
proof -
  obtain seen1 st1 where n: "createImplicitNets ctx syn (seen, st) = (seen1, st1)"
    by (cases "createImplicitNets ctx syn (seen, st)")
  let ?s = "(newSymbol (getName syn) (UninstantiatedDef moduleName False))\<lparr>syntaxNode := Some (nodeId syn)\<rparr>"
  obtain p st2 where e: "emplaceSymbol ?s st1 = (p, st2)" by (cases "emplaceSymbol ?s st1")
  from assms n e have st': "st' = pushResult p st2" by (simp add: createUninstantiatedDef_def)
  have net: "\<And>q. isPlaceholderOrNet moduleName q Net" by (simp add: isPlaceholderOrNet_def)
  note 1 = createImplicitNets_props
    [where Q = "isPlaceholderOrNet moduleName" and R = "\<lambda>_. False", OF n net]
  have 2: "extends (isPlaceholderOrNet moduleName) (\<lambda>_. False) st1 st2"
    using e by (rule extends_emplaceSymbol) (simp_all add: newSymbol_def isPlaceholderOrNet_def)
  have 3: "extends (isPlaceholderOrNet moduleName) (\<lambda>_. False) st2 st'"
    unfolding st' by (rule extends_same) simp_all
  from 1 2 3 have ext: "extends (isPlaceholderOrNet moduleName) (\<lambda>_. False) st st'"
    by (metis extends_trans)
  from 1 have "length (symbols st) \<le> length (symbols st1)" by (auto dest: extends_lengths)
  moreover from e have "instantiated st2 = instantiated st1" by (auto simp: emplaceSymbol_def)
  ultimately show ?thesis using ext 1 emplaceSymbol_simps [OF e] st'
    by (auto simp: newSymbol_def pushResult_def)
qed


lemma fold_createUninstantiatedDef_props:
  assumes "fold (createUninstantiatedDef ctx m) insts (seen, st) = (seen', st')"
  shows "extends (isPlaceholderOrNet m) (\<lambda>_. False) st st' \<and>
         bodies st' = bodies st \<and> lookups st' = lookups st \<and> diags st' = diags st \<and>
         instantiated st' = instantiated st \<and> (\<exists>more. symbols st' = symbols st @ more) \<and>
         (\<exists>ps. results st' = results st @ ps \<and>
               list_all2 (\<lambda>p inst. length (symbols st) \<le> p \<and> p < length (symbols st') \<and>
                           name (symbols st' ! p) = getName inst \<and>
                           symData (symbols st' ! p) = UninstantiatedDef m False) ps insts)"
  using assms
proof (induction insts arbitrary: seen st)
  case Nil
  then show ?case by (simp add: extends_refl)
next
  case (Cons inst insts)
  obtain seen1 st1 where c: "createUninstantiatedDef ctx m inst (seen, st) = (seen1, st1)"
    by (cases "createUninstantiatedDef ctx m inst (seen, st)")
  with Cons.prems have rest: "fold (createUninstantiatedDef ctx m) insts (seen1, st1) = (seen', st')"
    by simp
  note 1 = createUninstantiatedDef_props [OF c]
  note 2 = Cons.IH [OF rest]
  from 1 obtain p where p: "results st1 = results st @ [p]" "length (symbols st) \<le> p"
    "Suc p = length (symbols st1)" "name (symbols st1 ! p) = getName inst"
    "symData (symbols st1 ! p) = UninstantiatedDef m False" by blast
  from 2 obtain ps where ps: "results st' = results st1 @ ps"
    "list_all2 (\<lambda>p inst. length (symbols st1) \<le> p \<and> p < length (symbols st') \<and>
                           name (symbols st' ! p) = getName inst \<and>
                           symData (symbols st' ! p) = UninstantiatedDef m False) ps insts" by blast
  from 2 obtain more where more: "symbols st' = symbols st1 @ more" by blast
  from 1 obtain more1 where more1: "symbols st1 = symbols st @ more1" by blast
  have len: "length (symbols st) \<le> length (symbols st1)" using more1 by simp
  have pst': "symbols st' ! p = symbols st1 ! p" using p(3) more by (simp add: nth_append)
  have tl: "list_all2 (\<lambda>p inst. length (symbols st) \<le> p \<and> p < length (symbols st') \<and>
                           name (symbols st' ! p) = getName inst \<and>
                           symData (symbols st' ! p) = UninstantiatedDef m False) ps insts"
    by (rule list_all2_mono [OF ps(2)]) (use len in simp)
  have hd: "length (symbols st) \<le> p \<and> p < length (symbols st') \<and>
            name (symbols st' ! p) = getName inst \<and>
            symData (symbols st' ! p) = UninstantiatedDef m False"
    using p pst' more by simp
  have all: "list_all2 (\<lambda>p inst. length (symbols st) \<le> p \<and> p < length (symbols st') \<and>
                           name (symbols st' ! p) = getName inst \<and>
                           symData (symbols st' ! p) = UninstantiatedDef m False) (p # ps) (inst # insts)"
    using hd tl by simp
  have res: "results st' = results st @ (p # ps)" using p(1) ps(1) by simp
  have ext: "extends (isPlaceholderOrNet m) (\<lambda>_. False) st st'"
    using 1 2 by (blast intro: extends_trans)
  have app: "symbols st' = symbols st @ (more1 @ more)" using more more1 by simp
  have fr: "bodies st' = bodies st \<and> lookups st' = lookups st \<and> diags st' = diags st \<and>
         instantiated st' = instantiated st" using 1 2 by simp
  from ext fr app res all show ?case by blast
qed

lemma createUninstantiatedDefs_props:
  assumes "createUninstantiatedDefs ctx m insts st = st'"
  shows "extends (isPlaceholderOrNet m) (\<lambda>_. False) st st' \<and>
         bodies st' = bodies st \<and> lookups st' = lookups st \<and> diags st' = diags st \<and>
         instantiated st' = instantiated st \<and> (\<exists>more. symbols st' = symbols st @ more) \<and>
         (\<exists>ps. results st' = results st @ ps \<and>
               list_all2 (\<lambda>p inst. length (symbols st) \<le> p \<and> p < length (symbols st') \<and>
                           name (symbols st' ! p) = getName inst \<and>
                           symData (symbols st' ! p) = UninstantiatedDef m False) ps insts)"
proof -
  obtain seen' where "fold (createUninstantiatedDef ctx m) insts ([], st) = (seen', st')"
    using assms by (cases "fold (createUninstantiatedDef ctx m) insts ([], st)")
       (simp add: createUninstantiatedDefs_def)
  then show ?thesis by (rule fold_createUninstantiatedDef_props)
qed

text \<open>Primitive instances.\<close>

lemma createPrimInst_eq:
  "createPrimInst prim syn path st =
     (length (symbols st),
      st\<lparr>symbols := symbols st @
           [\<lparr>name = getName syn, symData = PrimitiveInstance prim path,
             syntaxNode = Some (nodeId syn), parentScope = None\<rparr>]\<rparr>)"
  by (simp add: createPrimInst_def emplaceSymbol_def newSymbol_def)

lemma createPrimInst_extends:
  assumes "createPrimInst prim syn path st = (p, st')" and "\<And>q. Q q (PrimitiveInstance prim path)"
  shows "extends Q R st st'"
  using assms(1) unfolding createPrimInst_def
  by (rule extends_emplaceSymbol) (simp_all add: newSymbol_def assms(2))

lemma createPrimInst_frame:
  "createPrimInst prim syn path st = (p, st') \<Longrightarrow>
     results st' = results st \<and> implicitNets st' = implicitNets st \<and>
     lookups st' = lookups st \<and> (\<exists>new. diags st' = diags st @ new) \<and>
     length (symbols st) \<le> p \<and> p < length (symbols st') \<and>
     length (symbols st) \<le> length (symbols st')"
  by (auto simp: createPrimInst_eq)

text \<open>Checker instances: the invalid instance, and the instance proper.\<close>

lemma CheckerInstanceSymbol_createInvalid_eq:
  "CheckerInstanceSymbol_createInvalid chk st =
     (length (symbols st),
      st\<lparr>symbols := symbols st @
           [\<lparr>name = checkerName chk, symData = CheckerInstance (length (bodies st)) [],
             syntaxNode = Some (checkerSyntax chk), parentScope = None\<rparr>],
         bodies := bodies st @
           [\<lparr>bodyOf = OfChecker chk 0 False, isUninstantiated = True, isFromBind = False,
             parentInstance = Some (length (symbols st))\<rparr>]\<rparr>)"
  by (simp add: CheckerInstanceSymbol_createInvalid_def CheckerInstanceSymbol_new_def
      emplaceBody_def emplaceSymbol_def updBody_def updSymbol_def newSymbol_def)

lemma checkerInstanceBody_eq:
  "checkerInstanceBody ctx chk syn path isProcedural fromBind depth parentIsFromBind parentIsChecker st =
     (if parentIsFromBind \<and> fromBind
      then CheckerInstanceSymbol_createInvalid chk (addDiag BindUnderBind st)
      else
        (length (symbols st),
         st\<lparr>symbols := symbols st @
              [\<lparr>name = getName syn, symData = CheckerInstance (length (bodies st)) path,
                syntaxNode = Some (nodeId syn), parentScope = None\<rparr>],
            bodies := bodies st @
              [\<lparr>bodyOf = OfChecker chk depth isProcedural, isUninstantiated = False,
                isFromBind = (fromBind \<or> parentIsFromBind),
                parentInstance = Some (length (symbols st))\<rparr>],
            diags := diags st @ checkerDiags ctx parentIsChecker isProcedural @
                       checkerConnectionDiags ctx chk syn\<rparr>))"
  by (simp add: checkerInstanceBody_def CheckerInstanceSymbol_new_def emplaceBody_def
      emplaceSymbol_def updBody_def updSymbol_def newSymbol_def Let_def addDiag_def
      checkerDiags_def)


lemma createInvalid_props:
  assumes "CheckerInstanceSymbol_createInvalid chk st = (p, st')"
    and "\<And>q b pa. Q q (CheckerInstance b pa)"
    and "\<And>body. (\<exists>d ip. bodyOf body = OfChecker chk d ip) \<Longrightarrow> R body"
  shows "extends Q R st st' \<and> results st' = results st \<and> implicitNets st' = implicitNets st \<and>
         lookups st' = lookups st \<and> diags st' = diags st \<and>
         p = length (symbols st) \<and> length (symbols st') = Suc (length (symbols st))"
proof -
  let ?s = "\<lparr>name = checkerName chk, symData = CheckerInstance (length (bodies st)) [],
             syntaxNode = Some (checkerSyntax chk), parentScope = None\<rparr>"
  let ?body = "\<lparr>bodyOf = OfChecker chk 0 False, isUninstantiated = True, isFromBind = False,
             parentInstance = Some (length (symbols st))\<rparr>"
  from assms(1) have s: "symbols st' = symbols st @ [?s]" and bd: "bodies st' = bodies st @ [?body]"
    and fr: "results st' = results st \<and> implicitNets st' = implicitNets st \<and>
         lookups st' = lookups st \<and> diags st' = diags st \<and> p = length (symbols st)"
    by (auto simp: CheckerInstanceSymbol_createInvalid_eq)
  have ref: "bodyRef (symData ?s) = Some (length (bodies st))" by simp
  have bp: "parentInstance ?body = Some (length (symbols st))" by simp
  have Q: "Q (length (symbols st)) (symData ?s)" by (simp add: assms(2))
  have R: "R ?body" by (rule assms(3)) auto
  from s bd ref bp Q R have "extends Q R st st'" by (rule extends_new_instance)
  with fr s show ?thesis by simp
qed

lemma checkerInstanceBody_props:
  assumes "checkerInstanceBody ctx chk syn path ip fb depth pfb pc st = (p, st')"
    and "\<And>q b pa. Q q (CheckerInstance b pa)"
    and "\<And>body. (\<exists>d ip. bodyOf body = OfChecker chk d ip) \<Longrightarrow> R body"
  shows "extends Q R st st' \<and> results st' = results st \<and> implicitNets st' = implicitNets st \<and>
         lookups st' = lookups st \<and> (\<exists>new. diags st' = diags st @ new) \<and>
         p = length (symbols st) \<and> length (symbols st') = Suc (length (symbols st))"
proof (cases "pfb \<and> fb")
  case True
  with assms(1) have c: "CheckerInstanceSymbol_createInvalid chk (addDiag BindUnderBind st) = (p, st')"
    by (simp add: checkerInstanceBody_eq)
  note 1 = createInvalid_props [where Q = Q and R = R, OF c assms(2,3)]
  have "extends Q R st (addDiag BindUnderBind st)" by (rule extends_same) simp_all
  with 1 have "extends Q R st st'" by (blast intro: extends_trans)
  with 1 show ?thesis by simp
next
  case False
  let ?s = "\<lparr>name = getName syn, symData = CheckerInstance (length (bodies st)) path,
                syntaxNode = Some (nodeId syn), parentScope = None\<rparr>"
  let ?body = "\<lparr>bodyOf = OfChecker chk depth ip, isUninstantiated = False,
                isFromBind = (fb \<or> pfb), parentInstance = Some (length (symbols st))\<rparr>"
  from False assms(1) have s: "symbols st' = symbols st @ [?s]"
    and bd: "bodies st' = bodies st @ [?body]"
    and fr: "results st' = results st \<and> implicitNets st' = implicitNets st \<and>
         lookups st' = lookups st \<and>
         diags st' = diags st @ checkerDiags ctx pc ip @ checkerConnectionDiags ctx chk syn \<and>
         p = length (symbols st)"
    by (auto simp: checkerInstanceBody_eq)
  have ref: "bodyRef (symData ?s) = Some (length (bodies st))" by simp
  have bp: "parentInstance ?body = Some (length (symbols st))" by simp
  have Q: "Q (length (symbols st)) (symData ?s)" by (simp add: assms(2))
  have R: "R ?body" by (rule assms(3)) auto
  from s bd ref bp Q R have "extends Q R st st'" by (rule extends_new_instance)
  with fr s show ?thesis by simp
qed

lemma fromSyntaxOne_props:
  assumes "CheckerInstanceSymbol_fromSyntaxOne ctx chk syn ip fb path st = (p, st')"
    and "\<And>q b pa. Q q (CheckerInstance b pa)"
    and "\<And>body. (\<exists>d ip. bodyOf body = OfChecker chk d ip) \<Longrightarrow> R body"
  shows "extends Q R st st' \<and> results st' = results st \<and> implicitNets st' = implicitNets st \<and>
         lookups st' = lookups st \<and> (\<exists>new. diags st' = diags st @ new) \<and>
         p = length (symbols st) \<and> length (symbols st') = Suc (length (symbols st))"
proof -
  consider
      (body) depth pfb pc where
        "checkerInstanceBody ctx chk syn path ip fb depth pfb pc st = (p, st')"
    | (deep) "CheckerInstanceSymbol_createInvalid chk (addDiag MaxInstanceDepthExceeded st) = (p, st')"
    using assms(1)
    by (auto simp: CheckerInstanceSymbol_fromSyntaxOne_def
        split: option.splits AssertionParent.splits if_splits)
  then show ?thesis
  proof cases
    case body
    then show ?thesis using assms(2,3) by (rule checkerInstanceBody_props)
  next
    case deep
    note 1 = createInvalid_props [where Q = Q and R = R, OF deep assms(2,3)]
    have "extends Q R st (addDiag MaxInstanceDepthExceeded st)" by (rule extends_same) simp_all
    with 1 have "extends Q R st st'" by (blast intro: extends_trans)
    with 1 show ?thesis by simp
  qed
qed

section \<open>Instance arrays\<close>

text \<open>
  C3.  The claim is that every dimension that is a proper range within the limit gives
  an array of hi - lo + 1 elements, uniformly for module-like, primitive and checker
  instances.  For a range whose upper bound is the largest 32-bit integer this holds for
  module-like instances only: the loops of \<^verbatim>\<open>recursePrimArray\<close> and
  \<^verbatim>\<open>recurseCheckerArray\<close> count with a signed 32-bit index up to and including the
  upper bound, so the increment after the last element overflows and no array is
  returned, while \<^verbatim>\<open>InstanceBuilder::recurse\<close> counts from 0 below the width and
  returns the array.
\<close>

theorem C3_primitive_and_checker_array_loops_overflow:
  assumes "isRange (evalDimension ctx d)"
    and "width (dimRange (evalDimension ctx d)) \<le> maxInstanceArray ctx"
    and "upper (dimRange (evalDimension ctx d)) = INT32_MAX"
  shows "recursePrimArray ctx prim syn (d # ds) path st = None \<and>
         recurseCheckerArray ctx chk syn isProcedural fromBind (d # ds) path st = None \<and>
         (\<exists>p st' es. recurse ctx b syn ov (d # ds) path st = (p, st') \<and>
            symData (symbols st' ! p) = InstanceArray es (dimRange (evalDimension ctx d)) \<and>
            int (length es) =
              upper (dimRange (evalDimension ctx d)) - lower (dimRange (evalDimension ctx d)) + 1)"
proof -
  obtain p st' where r: "recurse ctx b syn ov (d # ds) path st = (p, st')"
    by (cases "recurse ctx b syn ov (d # ds) path st")
  from recurse_dimension [OF r] assms(1,2) r
  have "\<exists>p st' es. recurse ctx b syn ov (d # ds) path st = (p, st') \<and>
            symData (symbols st' ! p) = InstanceArray es (dimRange (evalDimension ctx d)) \<and>
            int (length es) =
              upper (dimRange (evalDimension ctx d)) - lower (dimRange (evalDimension ctx d)) + 1"
    by blast
  moreover have "recursePrimArray ctx prim syn (d # ds) path st = None"
    unfolding recursePrimArray_def using assms by (rule recurseLeafArray_overflow)
  moreover have "recurseCheckerArray ctx chk syn isProcedural fromBind (d # ds) path st = None"
    unfolding recurseCheckerArray_def using assms by (rule recurseLeafArray_overflow)
  ultimately show ?thesis by blast
qed

theorem C3_overflow_witness:
  "isRange (evalDimension
      ((plainContext (OtherScope ''top'' None))
         \<lparr>evalDimension := \<lambda>d. \<lparr>isRange = True,
            dimRange = \<lparr>rangeLeft = 2147483647, rangeRight = 2147483647\<rparr>\<rparr>\<rparr>) 0) \<and>
   width \<lparr>rangeLeft = 2147483647, rangeRight = 2147483647\<rparr> = 1 \<and>
   upper \<lparr>rangeLeft = 2147483647, rangeRight = 2147483647\<rparr> = INT32_MAX \<and>
   recursePrimArray
     ((plainContext (OtherScope ''top'' None))
         \<lparr>evalDimension := \<lambda>d. \<lparr>isRange = True,
            dimRange = \<lparr>rangeLeft = 2147483647, rangeRight = 2147483647\<rparr>\<rparr>\<rparr>)
     \<lparr>primName = ''and'', primitiveKind = NInput, primPorts = []\<rparr>
     (namedInstance 0 ''g'' [0]) [0] [] emptyElaboration = None \<and>
   recurseCheckerArray
     ((plainContext (OtherScope ''top'' None))
         \<lparr>evalDimension := \<lambda>d. \<lparr>isRange = True,
            dimRange = \<lparr>rangeLeft = 2147483647, rangeRight = 2147483647\<rparr>\<rparr>\<rparr>)
     (plainChecker ''c'') (namedInstance 0 ''g'' [0]) False False [0] [] emptyElaboration = None \<and>
   (\<exists>p st' es.
      recurse
        ((plainContext (OtherScope ''top'' None))
           \<lparr>evalDimension := \<lambda>d. \<lparr>isRange = True,
              dimRange = \<lparr>rangeLeft = 2147483647, rangeRight = 2147483647\<rparr>\<rparr>\<rparr>)
        \<lparr>ibDefinition = topDefinition, ibParentOverrideNode = None, ibResolvedConfig = None,
          ibNewConfigRoot = None, ibIsFromBind = False\<rparr>
        (namedInstance 0 ''g'' [0]) None [0] [] emptyElaboration = (p, st') \<and>
      symData (symbols st' ! p) =
        InstanceArray es \<lparr>rangeLeft = 2147483647, rangeRight = 2147483647\<rparr> \<and>
      length es = 1)"
  using C3_primitive_and_checker_array_loops_overflow
    [of "(plainContext (OtherScope ''top'' None))
           \<lparr>evalDimension := \<lambda>d. \<lparr>isRange = True,
              dimRange = \<lparr>rangeLeft = 2147483647, rangeRight = 2147483647\<rparr>\<rparr>\<rparr>"
        0 "\<lparr>primName = ''and'', primitiveKind = NInput, primPorts = []\<rparr>"
        "namedInstance 0 ''g'' [0]" "[]" "[]" emptyElaboration "(plainChecker ''c'')" False False
        "\<lparr>ibDefinition = topDefinition, ibParentOverrideNode = None, ibResolvedConfig = None,
          ibNewConfigRoot = None, ibIsFromBind = False\<rparr>" None]
  by (simp add: plainContext_def width_def upper_def lower_def INT32_MAX_def)

section \<open>Uninstantiated scopes\<close>

text \<open>
  The flag of the walk is set by an untaken generate arm, an uninstantiated instance body
  or an uninstantiated checker body on the way; once set it stays.
\<close>

lemma findParentInstance_flag_mono:
  "u \<Longrightarrow> fst (snd (findParentInstance sc u c))"
  by (induction sc u c rule: findParentInstance.induct) (auto split: option.splits)

lemma findParentInstance_uninstantiated:
  "Scope_isUninstantiated sc \<Longrightarrow> fst (snd (findParentInstance sc u c))"
  by (induction sc u c rule: findParentInstance.induct)
     (auto split: option.splits simp: findParentInstance_flag_mono)

lemma setMustBeChecker_idem [simp]: "setMustBeChecker (setMustBeChecker s) = setMustBeChecker s"
  by (cases "symData s") auto

lemma setMustBeChecker_name [simp]: "name (setMustBeChecker s) = name s"
  by (cases "symData s") auto

lemma setMustBeChecker_bodyRef [simp]:
  "bodyRef (symData (setMustBeChecker s)) = bodyRef (symData s)"
  by (cases "symData s") auto

declare setMustBeChecker.simps [simp del]

lemma fold_setMustBeChecker:
  "bodies (fold (\<lambda>p. updSymbol p setMustBeChecker) ps st) = bodies st \<and>
   diags (fold (\<lambda>p. updSymbol p setMustBeChecker) ps st) = diags st \<and>
   lookups (fold (\<lambda>p. updSymbol p setMustBeChecker) ps st) = lookups st \<and>
   instantiated (fold (\<lambda>p. updSymbol p setMustBeChecker) ps st) = instantiated st \<and>
   results (fold (\<lambda>p. updSymbol p setMustBeChecker) ps st) = results st \<and>
   length (symbols (fold (\<lambda>p. updSymbol p setMustBeChecker) ps st)) = length (symbols st) \<and>
   (\<forall>q < length (symbols st).
      symbols (fold (\<lambda>p. updSymbol p setMustBeChecker) ps st) ! q =
        (if q \<in> set ps then setMustBeChecker (symbols st ! q) else symbols st ! q))"
proof (induction ps arbitrary: st)
  case Nil
  then show ?case by simp
next
  case (Cons p ps)
  let ?st1 = "updSymbol p setMustBeChecker st"
  note IH = Cons.IH [of ?st1]
  have len: "length (symbols ?st1) = length (symbols st)" by simp
  have nth: "\<And>q. q < length (symbols st) \<Longrightarrow>
      symbols ?st1 ! q = (if q = p then setMustBeChecker (symbols st ! q) else symbols st ! q)"
    by (simp add: updSymbol_def nth_list_update)
  show ?case
  proof (intro conjI allI impI)
    fix q assume q: "q < length (symbols st)"
    with IH len have "symbols (fold (\<lambda>p. updSymbol p setMustBeChecker) ps ?st1) ! q =
        (if q \<in> set ps then setMustBeChecker (symbols ?st1 ! q) else symbols ?st1 ! q)"
      by simp
    with nth [OF q]
    show "symbols (fold (\<lambda>p. updSymbol p setMustBeChecker) (p # ps) st) ! q =
        (if q \<in> set (p # ps) then setMustBeChecker (symbols st ! q) else symbols st ! q)"
      by (cases "q = p") simp_all
  qed (use IH in \<open>simp_all add: updSymbol_def\<close>)
qed


lemma setMustBeChecker_placeholder [simp]:
  "isPlaceholderOrNet m q (symData (setMustBeChecker s)) = isPlaceholderOrNet m q (symData s)"
  by (cases "symData s") (auto simp: setMustBeChecker.simps isPlaceholderOrNet_def)

lemma setMustBeChecker_marks:
  "symData s = UninstantiatedDef m c \<Longrightarrow> symData (setMustBeChecker s) = UninstantiatedDef m True"
  by (simp add: setMustBeChecker.simps)

lemma fromSyntax_uninstantiated:
  assumes "fst (snd (findParentInstance (scope ctx) False False))"
  shows "InstanceSymbol_fromSyntax ctx syn fromBind st =
           Some (createUninstantiatedDefs ctx (typeName syn) (instances syn) st)"
  using assms
  by (cases "findParentInstance (scope ctx) False False")
     (simp add: InstanceSymbol_fromSyntax_def UninstantiatedDefSymbol_fromSyntax_def)

lemma fromCheckerSyntax_uninstantiated:
  assumes u: "Scope_isUninstantiated (scope ctx)"
    and old: "\<forall>p \<in> set (results st). p < length (symbols st) \<and> isUninstantiatedDef (symbols st ! p)"
  shows "\<exists>st'. CheckerInstanceSymbol_fromCheckerSyntax ctx syn fromBind st = Some st' \<and>
           lookups st' = lookups st \<and> diags st' = diags st \<and>
           instantiated st' = instantiated st \<and> bodies st' = bodies st \<and>
           length (symbols st) \<le> length (symbols st') \<and>
           (\<forall>q. length (symbols st) \<le> q \<and> q < length (symbols st') \<longrightarrow>
                isPlaceholderOrNet (typeName syn) q (symData (symbols st' ! q))) \<and>
           (\<exists>ps. results st' = results st @ ps \<and>
                 list_all2 (\<lambda>p inst. length (symbols st) \<le> p \<and> p < length (symbols st') \<and>
                             name (symbols st' ! p) = getName inst \<and>
                             symData (symbols st' ! p) = UninstantiatedDef (typeName syn) True)
                   ps (instances syn))"
proof -
  let ?m = "typeName syn"
  let ?st1 = "createUninstantiatedDefs ctx ?m (instances syn) st"
  let ?st' = "fold (\<lambda>p. updSymbol p setMustBeChecker) (results ?st1) ?st1"
  note props = createUninstantiatedDefs_props [of ctx ?m "instances syn" st, OF refl]
  from props obtain more where more: "symbols ?st1 = symbols st @ more" by blast
  from props obtain ps where res: "results ?st1 = results st @ ps"
    and all2: "list_all2 (\<lambda>p inst. length (symbols st) \<le> p \<and> p < length (symbols ?st1) \<and>
                           name (symbols ?st1 ! p) = getName inst \<and>
                           symData (symbols ?st1 ! p) = UninstantiatedDef ?m False) ps (instances syn)"
    by blast
  from props have ext: "extends (isPlaceholderOrNet ?m) (\<lambda>_. False) st ?st1" by blast
  from props have fr: "bodies ?st1 = bodies st" "lookups ?st1 = lookups st" "diags ?st1 = diags st"
    "instantiated ?st1 = instantiated st" by blast+
  have new: "\<And>p. p \<in> set ps \<Longrightarrow> length (symbols st) \<le> p \<and> p < length (symbols ?st1) \<and>
                  symData (symbols ?st1 ! p) = UninstantiatedDef ?m False"
    using all2 by (auto simp: list_all2_conv_all_nth in_set_conv_nth)
  have chk: "list_all (\<lambda>p. p < length (symbols ?st1) \<and> isUninstantiatedDef (symbols ?st1 ! p))
               (results ?st1)"
    unfolding list_all_iff res
  proof
    fix p assume "p \<in> set (results st @ ps)"
    then consider "p \<in> set (results st)" | "p \<in> set ps" by auto
    then show "p < length (symbols ?st1) \<and> isUninstantiatedDef (symbols ?st1 ! p)"
    proof cases
      case 1
      with old have "p < length (symbols st)" "isUninstantiatedDef (symbols st ! p)" by auto
      then show ?thesis by (simp add: more nth_append)
    next
      case 2
      from new [OF 2] show ?thesis by (simp add: isUninstantiatedDef_def)
    qed
  qed
  with u have run: "CheckerInstanceSymbol_fromCheckerSyntax ctx syn fromBind st = Some ?st'"
    by (simp add: CheckerInstanceSymbol_fromCheckerSyntax_def
        UninstantiatedDefSymbol_fromCheckerSyntax_def Let_def)
  note f = fold_setMustBeChecker [of "results ?st1" ?st1]
  from f have len: "length (symbols ?st') = length (symbols ?st1)" by blast
  from f have nth: "\<And>q. q < length (symbols ?st1) \<Longrightarrow>
      symbols ?st' ! q = (if q \<in> set (results ?st1) then setMustBeChecker (symbols ?st1 ! q)
                         else symbols ?st1 ! q)" by blast
  have a: "lookups ?st' = lookups st \<and> diags ?st' = diags st \<and>
           instantiated ?st' = instantiated st \<and> bodies ?st' = bodies st"
    using f fr by simp
  have b: "length (symbols st) \<le> length (symbols ?st')"
    using len more by simp
  have c: "\<forall>q. length (symbols st) \<le> q \<and> q < length (symbols ?st') \<longrightarrow>
                isPlaceholderOrNet ?m q (symData (symbols ?st' ! q))"
  proof (intro allI impI)
    fix q assume q: "length (symbols st) \<le> q \<and> q < length (symbols ?st')"
    with len have "isPlaceholderOrNet ?m q (symData (symbols ?st1 ! q))"
      using extends_new(1) [OF ext, of q] by simp
    with q len nth [of q] show "isPlaceholderOrNet ?m q (symData (symbols ?st' ! q))"
      by (cases "q \<in> set (results ?st1)") simp_all
  qed
  have d: "list_all2 (\<lambda>p inst. length (symbols st) \<le> p \<and> p < length (symbols ?st') \<and>
                             name (symbols ?st' ! p) = getName inst \<and>
                             symData (symbols ?st' ! p) = UninstantiatedDef ?m True)
                   ps (instances syn)"
    using all2
  proof (rule list.rel_mono_strong)
    fix p inst
    assume p: "p \<in> set ps"
      and P: "length (symbols st) \<le> p \<and> p < length (symbols ?st1) \<and>
              name (symbols ?st1 ! p) = getName inst \<and>
              symData (symbols ?st1 ! p) = UninstantiatedDef ?m False"
    from p res have "p \<in> set (results ?st1)" by simp
    with P nth [of p] have "symbols ?st' ! p = setMustBeChecker (symbols ?st1 ! p)" by simp
    with P len setMustBeChecker_marks [of "symbols ?st1 ! p" ?m False]
    show "length (symbols st) \<le> p \<and> p < length (symbols ?st') \<and>
          name (symbols ?st' ! p) = getName inst \<and>
          symData (symbols ?st' ! p) = UninstantiatedDef ?m True"
      by simp
  qed
  have e: "results ?st' = results st @ ps" using f res by simp
  from run a b c d e show ?thesis by blast
qed

subsection \<open>Primitive instantiations make no such test\<close>

text \<open>
  A gate, and a user-defined primitive, instantiated by a primitive instantiation in a
  block of an untaken generate arm: the scope is uninstantiated, and a primitive instance
  is created all the same (for the identifier after a lookup of the definition).
\<close>

theorem C6_primitive_in_untaken_generate_arm:
  "Scope_isUninstantiated (scope (primitiveContext untakenArm)) \<and>
   PrimitiveInstanceSymbol_fromPrimitiveSyntax (primitiveContext untakenArm)
     \<lparr>primTypeName = ''and'', typeIsIdentifier = False, hasStrength = False, primDelay = None,
       primInstances = [namedInstance 0 ''g1'' []]\<rparr> emptyElaboration =
   Some \<lparr>symbols = [\<lparr>name = ''g1'',
                      symData = PrimitiveInstance
                        \<lparr>primName = ''and'', primitiveKind = NInput, primPorts = []\<rparr> [],
                      syntaxNode = Some 0, parentScope = None\<rparr>],
         bodies = [], diags = [], lookups = [], instantiated = [], results = [0],
         implicitNets = []\<rparr> \<and>
   PrimitiveInstanceSymbol_fromPrimitiveSyntax (primitiveContext untakenArm)
     \<lparr>primTypeName = ''udp'', typeIsIdentifier = True, hasStrength = False, primDelay = None,
       primInstances = [namedInstance 0 ''u1'' []]\<rparr> emptyElaboration =
   Some \<lparr>symbols = [\<lparr>name = ''u1'',
                      symData = PrimitiveInstance
                        \<lparr>primName = ''udp'', primitiveKind = UserDefined, primPorts = []\<rparr> [],
                      syntaxNode = Some 0, parentScope = None\<rparr>],
         bodies = [], diags = [], lookups = [DefinitionLookup ''udp''], instantiated = [],
         results = [0], implicitNets = []\<rparr>"
  by (simp add: PrimitiveInstanceSymbol_fromPrimitiveSyntax_def primitiveContext_def
      plainContext_def untakenArm_def namedInstance_def emptyElaboration_def noteLookup_def
      createImplicitNets_def recursePrimArray_def createPrimInst_eq getName_def pushResult_def)

text \<open>
  C6, amended.  For a hierarchy instantiation (\<^verbatim>\<open>InstanceSymbol::fromSyntax\<close>) and for a
  checker instantiation (\<^verbatim>\<open>CheckerInstanceSymbol::fromSyntax\<close>) in an uninstantiated scope
  (inside an untaken generate arm, an uninstantiated instance body or an uninstantiated
  checker body) only placeholders are created: the call returns, the trace of lookups,
  the diagnostics, the definitions noted as instantiated and the bodies are as before,
  every new symbol is a placeholder for the name of the statement or an implicit net, and
  the results grow by one placeholder per instance of the statement, in order and under
  the name of the instance.  The checker overload marks the placeholders as checkers; it
  reads every symbol of the results vector as a placeholder, so the vector it is handed
  holds placeholders only.
\<close>

theorem C6_uninstantiated_scope_creates_placeholders:
  "(Scope_isUninstantiated (scope ctx) \<longrightarrow>
      (\<exists>st'. InstanceSymbol_fromSyntax ctx syn fromBind st = Some st' \<and>
         lookups st' = lookups st \<and> diags st' = diags st \<and>
         instantiated st' = instantiated st \<and> bodies st' = bodies st \<and>
         extends (isPlaceholderOrNet (typeName syn)) (\<lambda>_. False) st st' \<and>
         (\<exists>ps. results st' = results st @ ps \<and>
               list_all2 (\<lambda>p inst. length (symbols st) \<le> p \<and> p < length (symbols st') \<and>
                           name (symbols st' ! p) = getName inst \<and>
                           symData (symbols st' ! p) = UninstantiatedDef (typeName syn) False)
                 ps (instances syn)))) \<and>
   (Scope_isUninstantiated (scope ctx) \<and>
    (\<forall>p \<in> set (results st). p < length (symbols st) \<and> isUninstantiatedDef (symbols st ! p)) \<longrightarrow>
      (\<exists>st'. CheckerInstanceSymbol_fromCheckerSyntax ctx syn fromBind st = Some st' \<and>
         lookups st' = lookups st \<and> diags st' = diags st \<and>
         instantiated st' = instantiated st \<and> bodies st' = bodies st \<and>
         length (symbols st) \<le> length (symbols st') \<and>
         (\<forall>q. length (symbols st) \<le> q \<and> q < length (symbols st') \<longrightarrow>
              isPlaceholderOrNet (typeName syn) q (symData (symbols st' ! q))) \<and>
         (\<exists>ps. results st' = results st @ ps \<and>
               list_all2 (\<lambda>p inst. length (symbols st) \<le> p \<and> p < length (symbols st') \<and>
                           name (symbols st' ! p) = getName inst \<and>
                           symData (symbols st' ! p) = UninstantiatedDef (typeName syn) True)
                 ps (instances syn))))"
proof (intro conjI impI)
  assume "Scope_isUninstantiated (scope ctx)"
  then have u: "fst (snd (findParentInstance (scope ctx) False False))"
    by (rule findParentInstance_uninstantiated)
  let ?st' = "createUninstantiatedDefs ctx (typeName syn) (instances syn) st"
  have run: "InstanceSymbol_fromSyntax ctx syn fromBind st = Some ?st'"
    using u by (rule fromSyntax_uninstantiated)
  note props = createUninstantiatedDefs_props [of ctx "typeName syn" "instances syn" st, OF refl]
  from run props
  show "\<exists>st'. InstanceSymbol_fromSyntax ctx syn fromBind st = Some st' \<and>
         lookups st' = lookups st \<and> diags st' = diags st \<and>
         instantiated st' = instantiated st \<and> bodies st' = bodies st \<and>
         extends (isPlaceholderOrNet (typeName syn)) (\<lambda>_. False) st st' \<and>
         (\<exists>ps. results st' = results st @ ps \<and>
               list_all2 (\<lambda>p inst. length (symbols st) \<le> p \<and> p < length (symbols st') \<and>
                           name (symbols st' ! p) = getName inst \<and>
                           symData (symbols st' ! p) = UninstantiatedDef (typeName syn) False)
                 ps (instances syn))"
    by blast
next
  assume "Scope_isUninstantiated (scope ctx) \<and>
    (\<forall>p \<in> set (results st). p < length (symbols st) \<and> isUninstantiatedDef (symbols st ! p))"
  then show "\<exists>st'. CheckerInstanceSymbol_fromCheckerSyntax ctx syn fromBind st = Some st' \<and>
         lookups st' = lookups st \<and> diags st' = diags st \<and>
         instantiated st' = instantiated st \<and> bodies st' = bodies st \<and>
         length (symbols st) \<le> length (symbols st') \<and>
         (\<forall>q. length (symbols st) \<le> q \<and> q < length (symbols st') \<longrightarrow>
              isPlaceholderOrNet (typeName syn) q (symData (symbols st' ! q))) \<and>
         (\<exists>ps. results st' = results st @ ps \<and>
               list_all2 (\<lambda>p inst. length (symbols st) \<le> p \<and> p < length (symbols st') \<and>
                           name (symbols st' ! p) = getName inst \<and>
                           symData (symbols st' ! p) = UninstantiatedDef (typeName syn) True)
                 ps (instances syn))"
    using fromCheckerSyntax_uninstantiated [of ctx st syn fromBind] by blast
qed

theorem C6_untaken_generate_arm_witness:
  "Scope_isUninstantiated (scope (plainContext untakenArm)) \<and>
   results emptyElaboration = [] \<and>
   (\<exists>st'. InstanceSymbol_fromSyntax (plainContext untakenArm)
            (statement ''m'' [namedInstance 0 ''a'' [], namedInstance 1 ''b'' []]) False
            emptyElaboration = Some st' \<and>
          lookups st' = [] \<and> diags st' = [] \<and> instantiated st' = [] \<and> bodies st' = [] \<and>
          (\<exists>ps. results st' = ps \<and>
             list_all2 (\<lambda>p inst. p < length (symbols st') \<and>
                           name (symbols st' ! p) = getName inst \<and>
                           symData (symbols st' ! p) = UninstantiatedDef ''m'' False)
               ps [namedInstance 0 ''a'' [], namedInstance 1 ''b'' []])) \<and>
   (\<exists>st'. CheckerInstanceSymbol_fromCheckerSyntax (plainContext untakenArm)
            (statement ''m'' [namedInstance 0 ''a'' [], namedInstance 1 ''b'' []]) False
            emptyElaboration = Some st' \<and>
          lookups st' = [] \<and> diags st' = [] \<and> instantiated st' = [] \<and> bodies st' = [] \<and>
          (\<exists>ps. results st' = ps \<and>
             list_all2 (\<lambda>p inst. p < length (symbols st') \<and>
                           name (symbols st' ! p) = getName inst \<and>
                           symData (symbols st' ! p) = UninstantiatedDef ''m'' True)
               ps [namedInstance 0 ''a'' [], namedInstance 1 ''b'' []]))"
proof -
  let ?ctx = "plainContext untakenArm"
  let ?syn = "statement ''m'' [namedInstance 0 ''a'' [], namedInstance 1 ''b'' []]"
  have 2: "Scope_isUninstantiated (scope ?ctx)" by (simp add: plainContext_def untakenArm_def)
  have 3: "\<forall>p \<in> set (results emptyElaboration).
       p < length (symbols emptyElaboration) \<and> isUninstantiatedDef (symbols emptyElaboration ! p)"
    by (simp add: emptyElaboration_def)
  have e: "symbols emptyElaboration = []" "results emptyElaboration = []"
    "lookups emptyElaboration = []" "diags emptyElaboration = []"
    "instantiated emptyElaboration = []" "bodies emptyElaboration = []"
    by (simp_all add: emptyElaboration_def)
  have s: "typeName ?syn = ''m''"
    "instances ?syn = [namedInstance 0 ''a'' [], namedInstance 1 ''b'' []]"
    by (simp_all add: statement_def)
  from C6_uninstantiated_scope_creates_placeholders [of ?ctx ?syn False emptyElaboration] 2 3
  show ?thesis unfolding e s by (simp only: simp_thms append_Nil list.size le0) blast
qed

section \<open>The loops over the instances of a statement\<close>

lemma createAll_props:
  assumes "createAll ctx b insts (seen, st) = (seen', st')"
  shows "extends (\<lambda>p d. builtBy b p d \<or> d = Net) (bodyBuiltBy b) st st' \<and>
         lookups st' = lookups st \<and> (\<exists>new. diags st' = diags st @ new) \<and>
         (\<exists>ps. results st' = results st @ ps \<and> length ps = length insts)"
  using assms
proof (induction insts arbitrary: seen st)
  case Nil
  then show ?case by (simp add: extends_refl)
next
  case (Cons inst insts)
  let ?Q = "\<lambda>p d. builtBy b p d \<or> d = Net"
  obtain seen1 st1 where n: "createImplicitNets ctx inst (seen, st) = (seen1, st1)"
    by (cases "createImplicitNets ctx inst (seen, st)")
  obtain p st2 where c: "create ctx b inst st1 = (p, st2)" by (cases "create ctx b inst st1")
  from Cons.prems n c have rest: "createAll ctx b insts (seen1, pushResult p st2) = (seen', st')"
    by simp
  note 1 = createImplicitNets_props [where Q = ?Q and R = "bodyBuiltBy b", OF n]
  have 2: "extends ?Q (bodyBuiltBy b) st1 st2"
    using create_extends [OF c] by (rule extends_mono) simp_all
  note f2 = create_frame [OF c]
  have 3: "extends ?Q (bodyBuiltBy b) st2 (pushResult p st2)"
    by (rule extends_same) (simp_all add: pushResult_def)
  note 4 = Cons.IH [OF rest]
  from 1 2 3 4 have ext: "extends ?Q (bodyBuiltBy b) st st'" by (blast intro: extends_trans)
  from 1 f2 4 have lk: "lookups st' = lookups st" by (simp add: pushResult_def)
  from f2 obtain new1 where d1: "diags st2 = diags st1 @ new1" by blast
  from 4 obtain new2 where d2: "diags st' = diags (pushResult p st2) @ new2" by blast
  from 1 d1 d2 have dg: "diags st' = diags st @ (new1 @ new2)" by (simp add: pushResult_def)
  from 4 obtain ps where r: "results st' = results (pushResult p st2) @ ps"
    and l: "length ps = length insts" by blast
  from 1 f2 r have "results st' = results st @ (p # ps)" by (simp add: pushResult_def)
  with l have rs: "\<exists>ps. results st' = results st @ ps \<and> length ps = length (inst # insts)"
    by (intro exI [of _ "p # ps"]) simp
  from ext lk dg rs show ?case by blast
qed

lemma recursePrimArray_props:
  assumes "recursePrimArray ctx prim syn dims path st = Some (p, st')"
  shows "extends (\<lambda>p d. True) (\<lambda>b. False) st st' \<and> results st' = results st \<and>
         lookups st' = lookups st \<and> (\<exists>new. diags st' = diags st @ new)"
proof -
  from assms have r: "recurseLeafArray (createPrimInst prim syn) ctx syn dims path st = Some (p, st')"
    by (simp add: recursePrimArray_def)
  have "extends (\<lambda>p d. True) (\<lambda>b. False) st st'"
    using _ _ r
  proof (rule recurseLeafArray_extends(1))
    fix path st p st' assume "createPrimInst prim syn path st = (p, st')"
    then show "extends (\<lambda>p d. True) (\<lambda>b. False) st st'" by (rule createPrimInst_extends) simp
  qed simp
  moreover have "results st' = results st \<and> implicitNets st' = implicitNets st \<and>
       lookups st' = lookups st \<and> (\<exists>new. diags st' = diags st @ new) \<and>
       length (symbols st) \<le> p \<and> p < length (symbols st') \<and>
       length (symbols st) \<le> length (symbols st')"
    using _ r
  proof (rule recurseLeafArray_frame(1))
    fix path st p st' assume "createPrimInst prim syn path st = (p, st')"
    then show "results st' = results st \<and> implicitNets st' = implicitNets st \<and>
       lookups st' = lookups st \<and> (\<exists>new. diags st' = diags st @ new) \<and>
       length (symbols st) \<le> p \<and> p < length (symbols st') \<and>
       length (symbols st) \<le> length (symbols st')"
      by (rule createPrimInst_frame)
  qed
  ultimately show ?thesis by blast
qed

lemma recurseCheckerArray_props:
  assumes "recurseCheckerArray ctx chk syn ip fb dims path st = Some (p, st')"
  shows "extends (\<lambda>p d. True) (\<lambda>b. True) st st' \<and> results st' = results st \<and>
         lookups st' = lookups st \<and> (\<exists>new. diags st' = diags st @ new)"
proof -
  let ?leaf = "CheckerInstanceSymbol_fromSyntaxOne ctx chk syn ip fb"
  from assms have r: "recurseLeafArray ?leaf ctx syn dims path st = Some (p, st')"
    by (simp add: recurseCheckerArray_def)
  have leaf: "\<And>path st p st'. ?leaf path st = (p, st') \<Longrightarrow>
       extends (\<lambda>p d. True) (\<lambda>b. True) st st' \<and>
       results st' = results st \<and> implicitNets st' = implicitNets st \<and>
       lookups st' = lookups st \<and> (\<exists>new. diags st' = diags st @ new) \<and>
       p = length (symbols st) \<and> length (symbols st') = Suc (length (symbols st))"
    by (rule fromSyntaxOne_props) simp_all
  have "extends (\<lambda>p d. True) (\<lambda>b. True) st st'"
    using _ _ r
  proof (rule recurseLeafArray_extends(1))
    fix path st p st' assume "?leaf path st = (p, st')"
    from leaf [OF this] show "extends (\<lambda>p d. True) (\<lambda>b. True) st st'" by blast
  qed simp
  moreover have "results st' = results st \<and> implicitNets st' = implicitNets st \<and>
       lookups st' = lookups st \<and> (\<exists>new. diags st' = diags st @ new) \<and>
       length (symbols st) \<le> p \<and> p < length (symbols st') \<and>
       length (symbols st) \<le> length (symbols st')"
    using _ r
  proof (rule recurseLeafArray_frame(1))
    fix path st p st' assume "?leaf path st = (p, st')"
    from leaf [OF this]
    show "results st' = results st \<and> implicitNets st' = implicitNets st \<and>
       lookups st' = lookups st \<and> (\<exists>new. diags st' = diags st @ new) \<and>
       length (symbols st) \<le> p \<and> p < length (symbols st') \<and>
       length (symbols st) \<le> length (symbols st')"
      by simp
  qed
  ultimately show ?thesis by blast
qed


lemma createPrimitivesLoop_props:
  assumes "createPrimitivesLoop ctx prim insts (seen, st) = Some st'"
  shows "extends (\<lambda>p d. True) (\<lambda>b. False) st st' \<and>
         lookups st' = lookups st \<and> (\<exists>new. diags st' = diags st @ new) \<and>
         (\<exists>ps. results st' = results st @ ps \<and> length ps = length insts)"
  using assms
proof (induction insts arbitrary: seen st)
  case Nil
  then show ?case by (simp add: extends_refl)
next
  case (Cons inst insts)
  let ?Q = "\<lambda>(p::nat) (d::SymbolData). True" and ?R = "\<lambda>b::BodySymbol. False"
  obtain seen1 st1 where n: "createImplicitNets ctx inst (seen, st) = (seen1, st1)"
    by (cases "createImplicitNets ctx inst (seen, st)")
  note 1 = createImplicitNets_props [where Q = ?Q and R = ?R, OF n]
  have "\<exists>p st2. createPrimitivesLoop ctx prim insts (seen1, pushResult p st2) = Some st' \<and>
          extends ?Q ?R st1 st2 \<and> results st2 = results st1 \<and> lookups st2 = lookups st1 \<and>
          (\<exists>new. diags st2 = diags st1 @ new)"
  proof (cases "decl inst")
    case None
    obtain p st2 where c: "createPrimInst prim inst [] st1 = (p, st2)"
      by (cases "createPrimInst prim inst [] st1")
    with Cons.prems n None
    have "createPrimitivesLoop ctx prim insts (seen1, pushResult p st2) = Some st'" by simp
    moreover have "extends ?Q ?R st1 st2" using c by (rule createPrimInst_extends) simp
    moreover note createPrimInst_frame [OF c]
    ultimately show ?thesis by blast
  next
    case (Some d)
    with Cons.prems n obtain p st2 where
      c: "recursePrimArray ctx prim inst (dimensions d) [] st1 = Some (p, st2)"
      and "createPrimitivesLoop ctx prim insts (seen1, pushResult p st2) = Some st'"
      by (auto split: option.splits)
    with recursePrimArray_props [OF c] show ?thesis by blast
  qed
  then obtain p st2 where rest: "createPrimitivesLoop ctx prim insts (seen1, pushResult p st2) = Some st'"
    and 2: "extends ?Q ?R st1 st2" and f2: "results st2 = results st1" "lookups st2 = lookups st1"
    and d2: "\<exists>new. diags st2 = diags st1 @ new"
    by blast
  have 3: "extends ?Q ?R st2 (pushResult p st2)"
    by (rule extends_same) (simp_all add: pushResult_def)
  note 4 = Cons.IH [OF rest]
  from 1 2 3 4 have ext: "extends ?Q ?R st st'" by (blast intro: extends_trans)
  from 1 f2 4 have lk: "lookups st' = lookups st" by (simp add: pushResult_def)
  from d2 obtain new1 where d1: "diags st2 = diags st1 @ new1" by blast
  from 4 obtain new2 where d3: "diags st' = diags (pushResult p st2) @ new2" by blast
  from 1 d1 d3 have dg: "diags st' = diags st @ (new1 @ new2)" by (simp add: pushResult_def)
  from 4 obtain ps where r: "results st' = results (pushResult p st2) @ ps"
    and l: "length ps = length insts" by blast
  from 1 f2 r have "results st' = results st @ (p # ps)" by (simp add: pushResult_def)
  with l have rs: "\<exists>ps. results st' = results st @ ps \<and> length ps = length (inst # insts)"
    by (intro exI [of _ "p # ps"]) simp
  from ext lk dg rs show ?case by blast
qed

lemma createCheckersLoop_props:
  assumes "createCheckersLoop ctx chk ip fb insts (seen, st) = Some st'"
  shows "extends (\<lambda>p d. True) (\<lambda>b. True) st st' \<and>
         lookups st' = lookups st \<and> (\<exists>new. diags st' = diags st @ new) \<and>
         (\<exists>ps. results st' = results st @ ps \<and> length ps = length insts)"
  using assms
proof (induction insts arbitrary: seen st)
  case Nil
  then show ?case by (simp add: extends_refl)
next
  case (Cons inst insts)
  let ?Q = "\<lambda>(p::nat) (d::SymbolData). True" and ?R = "\<lambda>b::BodySymbol. True"
  obtain seen1 st1 where
    n: "(if \<not> ip then createImplicitNets ctx inst (seen, st) else (seen, st)) = (seen1, st1)"
    by (cases "if \<not> ip then createImplicitNets ctx inst (seen, st) else (seen, st)")
  have 1: "extends ?Q ?R st st1 \<and> results st1 = results st \<and> lookups st1 = lookups st \<and>
           diags st1 = diags st"
  proof (cases ip)
    case True
    with n show ?thesis by (simp add: extends_refl)
  next
    case False
    with n have "createImplicitNets ctx inst (seen, st) = (seen1, st1)" by simp
    from createImplicitNets_props [where Q = ?Q and R = ?R, OF this] show ?thesis by simp
  qed
  have "\<exists>p st2. createCheckersLoop ctx chk ip fb insts (seen1, pushResult p st2) = Some st' \<and>
          extends ?Q ?R st1 st2 \<and> results st2 = results st1 \<and> lookups st2 = lookups st1 \<and>
          (\<exists>new. diags st2 = diags st1 @ new)"
  proof (cases "decl inst")
    case None
    let ?st0 = "addDiag InstanceNameRequired st1"
    obtain p st2 where c: "CheckerInstanceSymbol_fromSyntaxOne ctx chk inst ip fb [] ?st0 = (p, st2)"
      by (cases "CheckerInstanceSymbol_fromSyntaxOne ctx chk inst ip fb [] ?st0")
    with Cons.prems n None
    have r: "createCheckersLoop ctx chk ip fb insts (seen1, pushResult p st2) = Some st'" by simp
    note f = fromSyntaxOne_props [where Q = ?Q and R = ?R, OF c]
    have "extends ?Q ?R st1 ?st0" by (rule extends_same) simp_all
    with f have e: "extends ?Q ?R st1 st2" by (blast intro: extends_trans)
    from f obtain new where "diags st2 = diags ?st0 @ new" by auto
    then have "diags st2 = diags st1 @ (InstanceNameRequired # new)" by (simp add: addDiag_def)
    with r e f show ?thesis by (auto simp: addDiag_def)
  next
    case (Some d)
    with Cons.prems n obtain p st2 where
      c: "recurseCheckerArray ctx chk inst ip fb (dimensions d) [] st1 = Some (p, st2)"
      and "createCheckersLoop ctx chk ip fb insts (seen1, pushResult p st2) = Some st'"
      by (auto split: option.splits)
    with recurseCheckerArray_props [OF c] show ?thesis by blast
  qed
  then obtain p st2 where rest: "createCheckersLoop ctx chk ip fb insts (seen1, pushResult p st2) = Some st'"
    and 2: "extends ?Q ?R st1 st2" and f2: "results st2 = results st1" "lookups st2 = lookups st1"
    and d2: "\<exists>new. diags st2 = diags st1 @ new"
    by blast
  have 3: "extends ?Q ?R st2 (pushResult p st2)"
    by (rule extends_same) (simp_all add: pushResult_def)
  note 4 = Cons.IH [OF rest]
  from 1 2 3 4 have ext: "extends ?Q ?R st st'" by (blast intro: extends_trans)
  from 1 f2 4 have lk: "lookups st' = lookups st" by (simp add: pushResult_def)
  from d2 obtain new1 where d1: "diags st2 = diags st1 @ new1" by blast
  from 4 obtain new2 where d3: "diags st' = diags (pushResult p st2) @ new2" by blast
  from 1 d1 d3 have dg: "diags st' = diags st @ (new1 @ new2)" by (simp add: pushResult_def)
  from 4 obtain ps where r: "results st' = results (pushResult p st2) @ ps"
    and l: "length ps = length insts" by blast
  from 1 f2 r have "results st' = results st @ (p # ps)" by (simp add: pushResult_def)
  with l have rs: "\<exists>ps. results st' = results st @ ps \<and> length ps = length (inst # insts)"
    by (intro exI [of _ "p # ps"]) simp
  from ext lk dg rs show ?case by blast
qed

lemma createCheckers_props:
  assumes "createCheckers ctx chk syn ip fb st = Some st'"
  shows "extends (\<lambda>p d. True) (\<lambda>b. True) st st' \<and>
         lookups st' = lookups st \<and> (\<exists>new. diags st' = diags st @ new) \<and>
         (\<exists>ps. results st' = results st @ ps \<and> length ps = length (instances syn))"
proof -
  let ?st0 = "if hasParameters syn then addDiag CheckerParameterAssign st else st"
  from assms have "createCheckersLoop ctx chk ip fb (instances syn) ([], ?st0) = Some st'"
    by (simp add: createCheckers_def)
  note 1 = createCheckersLoop_props [OF this]
  have 0: "extends (\<lambda>p d. True) (\<lambda>b. True) st ?st0" by (rule extends_same) simp_all
  have f: "lookups ?st0 = lookups st" "results ?st0 = results st"
    "\<exists>new. diags ?st0 = diags st @ new" by (simp_all add: addDiag_def)
  from 0 1 have "extends (\<lambda>p d. True) (\<lambda>b. True) st st'" by (blast intro: extends_trans)
  moreover from 1 f have "lookups st' = lookups st" by simp
  moreover from 1 f(3) have "\<exists>new. diags st' = diags st @ new" by (metis append.assoc)
  moreover from 1 f have "\<exists>ps. results st' = results st @ ps \<and> length ps = length (instances syn)"
    by simp
  ultimately show ?thesis by blast
qed

section \<open>The statement as a whole\<close>

lemma containmentDiag_simps [simp]:
  "symbols (containmentDiag cap d st) = symbols st" "bodies (containmentDiag cap d st) = bodies st"
  "results (containmentDiag cap d st) = results st" "lookups (containmentDiag cap d st) = lookups st"
  by (simp_all add: containmentDiag_def split: option.splits)

lemma primitiveParentDiag_simps [simp]:
  "symbols (primitiveParentDiag cap fb st) = symbols st"
  "bodies (primitiveParentDiag cap fb st) = bodies st"
  "results (primitiveParentDiag cap fb st) = results st"
  "lookups (primitiveParentDiag cap fb st) = lookups st"
  by (simp_all add: primitiveParentDiag_def)

lemma createInstances_props:
  assumes "createInstances ctx syn cap def spec confRule newRoot (fb, seen, st) = Some (fb', seen', st')"
  shows "extends (\<lambda>p d. True) (\<lambda>b. True) st st' \<and> lookups st' = lookups st"
proof (cases def)
  case None
  let ?m = "typeName syn"
  from assms None
  have u: "UninstantiatedDefSymbol_fromSyntaxSpecific ctx syn spec (seen, st) = (seen', st')"
    by (auto simp: createInstances_def split: prod.splits)
  have "extends (isPlaceholderOrNet ?m) (\<lambda>_. False) st st' \<and> lookups st' = lookups st"
  proof (cases spec)
    case None
    with u have "fold (createUninstantiatedDef ctx ?m) (instances syn) (seen, st) = (seen', st')"
      by (simp add: UninstantiatedDefSymbol_fromSyntaxSpecific_def)
    from fold_createUninstantiatedDef_props [OF this] show ?thesis by blast
  next
    case (Some inst)
    with u have "createUninstantiatedDef ctx ?m inst (seen, st) = (seen', st')"
      by (simp add: UninstantiatedDefSymbol_fromSyntaxSpecific_def)
    from createUninstantiatedDef_props [OF this] show ?thesis by blast
  qed
  then show ?thesis by (blast intro: extends_mono)
next
  case (Some found)
  show ?thesis
  proof (cases found)
    case (PrimitiveFound prim)
    with assms Some obtain st1 where
      c: "createPrimitivesLoop ctx prim (instances syn) ([], st) = Some st1"
      and st': "st' = primitiveParentDiag cap fb st1"
      by (auto simp: createInstances_def PrimitiveInstanceSymbol_fromSyntax_def
          split: option.splits)
    note 1 = createPrimitivesLoop_props [OF c]
    from 1 have "extends (\<lambda>p d. True) (\<lambda>b. True) st st1" by (blast intro: extends_mono)
    moreover have "extends (\<lambda>p d. True) (\<lambda>b. True) st1 st'"
      unfolding st' by (rule extends_same) simp_all
    ultimately have "extends (\<lambda>p d. True) (\<lambda>b. True) st st'" by (rule extends_trans)
    with 1 st' show ?thesis by simp
  next
    case (DefinitionFound dfn)
    let ?st1 = "containmentDiag cap dfn (st\<lparr>instantiated := instantiated st @ [defName dfn]\<rparr>)"
    let ?pfb = "case cParentInst cap of None \<Rightarrow> False | Some pb \<Rightarrow> pbIsFromBind pb"
    have 0: "extends (\<lambda>p d. True) (\<lambda>b. True) st ?st1" by (rule extends_same) simp_all
    have l0: "lookups ?st1 = lookups st" by simp
    show ?thesis
    proof (cases "?pfb \<and> fb")
      case True
      with assms Some DefinitionFound have st': "st' = addDiag BindUnderBind ?st1"
        by (simp add: createInstances_def Let_def)
      have "extends (\<lambda>p d. True) (\<lambda>b. True) st st'"
        unfolding st' by (rule extends_same) simp_all
      with st' show ?thesis by simp
    next
      case False
      with assms Some DefinitionFound obtain lc where
        c: "createAll ctx
              \<lparr>ibDefinition = dfn, ibParentOverrideNode = cParentOverrideNode cap,
                ibResolvedConfig = lc, ibNewConfigRoot = newRoot, ibIsFromBind = (fb \<or> ?pfb)\<rparr>
              (case spec of Some inst \<Rightarrow> [inst] | None \<Rightarrow> instances syn) (seen, ?st1) = (seen', st')"
        by (auto simp: createInstances_def Let_def split: option.splits prod.splits)
      note 1 = createAll_props [OF c]
      from 1 have "extends (\<lambda>p d. True) (\<lambda>b. True) ?st1 st'" by (blast intro: extends_mono)
      with 0 have "extends (\<lambda>p d. True) (\<lambda>b. True) st st'" by (rule extends_trans)
      with 1 l0 show ?thesis by simp
    qed
  qed
qed

lemma resolveByRule_props:
  assumes "resolveByRule ctx nm rule st = (def, newRoot, st1)"
  shows "symbols st1 = symbols st \<and> bodies st1 = bodies st"
  using assms
  by (auto simp: resolveByRule_def Let_def split: option.splits RuleDefinitionFound.splits if_splits)

lemma perInstance_props:
  assumes "perInstance ctx syn cap overrideMap insts explicitDef (fb, seen, st) = Some (fb', seen', st')"
  shows "extends (\<lambda>p d. True) (\<lambda>b. True) st st'"
  using assms
proof (induction insts arbitrary: explicitDef fb seen st)
  case Nil
  then show ?case by (simp add: extends_refl)
next
  case (Cons inst insts)
  let ?Q = "\<lambda>(p::nat) (d::SymbolData). True" and ?R = "\<lambda>b::BodySymbol. True"
  have "\<exists>def spec confRule newRoot st0 fb1 seen1 st1 explicitDef'.
          symbols st0 = symbols st \<and> bodies st0 = bodies st \<and>
          createInstances ctx syn cap def spec confRule newRoot (fb, seen, st0) = Some (fb1, seen1, st1) \<and>
          perInstance ctx syn cap overrideMap insts explicitDef' (fb1, seen1, st1) = Some (fb', seen', st')"
  proof (cases "case map_of overrideMap (getName inst) of None \<Rightarrow> None | Some child \<Rightarrow> nodeRule child")
    case (Some rule)
    obtain def newRoot st0 where r: "resolveByRule ctx (typeName syn) rule st = (def, newRoot, st0)"
      by (cases "resolveByRule ctx (typeName syn) rule st")
    with Cons.prems Some obtain acc1 where
      c: "createInstances ctx syn cap def (Some inst) (Some rule) newRoot (fb, seen, st0) = Some acc1"
      and p: "perInstance ctx syn cap overrideMap insts explicitDef acc1 = Some (fb', seen', st')"
      by (auto split: option.splits)
    obtain fb1 seen1 st1 where acc1: "acc1 = (fb1, seen1, st1)" by (cases acc1)
    from resolveByRule_props [OF r] c p acc1 show ?thesis by blast
  next
    case None
    show ?thesis
    proof (cases explicitDef)
      case (Some def)
      with Cons.prems None obtain acc1 where
        c: "createInstances ctx syn cap def (Some inst) None None (fb, seen, st) = Some acc1"
        and p: "perInstance ctx syn cap overrideMap insts explicitDef acc1 = Some (fb', seen', st')"
        by (auto split: option.splits)
      obtain fb1 seen1 st1 where acc1: "acc1 = (fb1, seen1, st1)" by (cases acc1)
      from c p acc1 show ?thesis by blast
    next
      case N: None
      let ?st0 = "noteLookup (DefinitionLookup (typeName syn)) st"
      from Cons.prems None N obtain acc1 where
        c: "createInstances ctx syn cap (getDefinition ctx (typeName syn)) (Some inst) None None
              (fb, seen, ?st0) = Some acc1"
        and p: "perInstance ctx syn cap overrideMap insts (Some (getDefinition ctx (typeName syn))) acc1
              = Some (fb', seen', st')"
        by (auto split: option.splits)
      obtain fb1 seen1 st1 where acc1: "acc1 = (fb1, seen1, st1)" by (cases acc1)
      have "symbols ?st0 = symbols st \<and> bodies ?st0 = bodies st" by simp
      with c p acc1 show ?thesis by blast
    qed
  qed
  then obtain def spec confRule newRoot st0 fb1 seen1 st1 explicitDef' where
    s0: "symbols st0 = symbols st" "bodies st0 = bodies st"
    and c: "createInstances ctx syn cap def spec confRule newRoot (fb, seen, st0) = Some (fb1, seen1, st1)"
    and p: "perInstance ctx syn cap overrideMap insts explicitDef' (fb1, seen1, st1) = Some (fb', seen', st')"
    by blast
  have "extends ?Q ?R st st0" using s0 by (rule extends_same)
  moreover from createInstances_props [OF c] have "extends ?Q ?R st0 st1" by blast
  moreover from Cons.IH [OF p] have "extends ?Q ?R st1 st'" .
  ultimately show ?case by (blast intro: extends_trans)
qed

lemma createSimple_props:
  assumes "createSimple ctx syn cap fb st = Some st'"
  shows "extends (\<lambda>p d. True) (\<lambda>b. True) st st'"
proof -
  let ?st0 = "noteLookup (DefinitionLookup (typeName syn)) st"
  from assms obtain fb' seen' where
    c: "createInstances ctx syn cap (getDefinition ctx (typeName syn)) None None None (fb, [], ?st0)
          = Some (fb', seen', st')"
    by (auto simp: createSimple_def)
  have "extends (\<lambda>p d. True) (\<lambda>b. True) st ?st0" by (rule extends_same) simp_all
  moreover from createInstances_props [OF c] have "extends (\<lambda>p d. True) (\<lambda>b. True) ?st0 st'" by blast
  ultimately show ?thesis by (rule extends_trans)
qed

lemma InstanceSymbol_fromSyntax_extends:
  assumes "InstanceSymbol_fromSyntax ctx syn fb st = Some st'"
  shows "extends (\<lambda>p d. True) (\<lambda>b. True) st st'"
proof -
  let ?Q = "\<lambda>(p::nat) (d::SymbolData). True" and ?R = "\<lambda>b::BodySymbol. True"
  let ?st1 = "noteLookup (NameLookup (typeName syn)) st"
  have 0: "extends ?Q ?R st ?st1" by (rule extends_same) simp_all
  obtain parentInst isUninst inChecker where
    f: "findParentInstance (scope ctx) False False = (parentInst, isUninst, inChecker)"
    by (cases "findParentInstance (scope ctx) False False")
  consider (uninst) "st' = createUninstantiatedDefs ctx (typeName syn) (instances syn) st"
    | (checker) chk where "createCheckers ctx chk syn False fb ?st1 = Some st'"
    | (simple) cap where "createSimple ctx syn cap fb ?st1 = Some st'"
    | (rules) cap overrideMap fb' seen' where
        "perInstance ctx syn cap overrideMap (instances syn) None (fb, [], ?st1) = Some (fb', seen', st')"
    using assms f
    by (auto simp: InstanceSymbol_fromSyntax_def UninstantiatedDefSymbol_fromSyntax_def
        CheckerInstanceSymbol_fromSyntax_def Let_def
        split: if_splits option.splits LocalSymbol.splits)
  then show ?thesis
  proof cases
    case uninst
    from createUninstantiatedDefs_props [OF uninst [symmetric]] show ?thesis
      by (blast intro: extends_mono)
  next
    case checker
    from createCheckers_props [OF checker] 0 show ?thesis by (blast intro: extends_trans)
  next
    case simple
    from createSimple_props [OF simple] 0 show ?thesis by (blast intro: extends_trans)
  next
    case rules
    from perInstance_props [OF rules] 0 show ?thesis by (blast intro: extends_trans)
  qed
qed

section \<open>The back-pointer of a body\<close>

lemma keeps_refl: "keeps st st"
  by (simp add: keeps_def)

lemma keeps_trans: "keeps st st1 \<Longrightarrow> keeps st1 st2 \<Longrightarrow> keeps st st2"
  unfolding keeps_def by (metis (no_types, lifting) le_trans less_le_trans)

lemma marked_keeps:
  "keeps st (fold (\<lambda>p. updSymbol p setMustBeChecker) ps st)"
  using fold_setMustBeChecker [of ps st] by (simp add: keeps_def)

lemma marked_backPointers:
  assumes "backPointersOk st"
  shows "backPointersOk (fold (\<lambda>p. updSymbol p setMustBeChecker) ps st)"
  using assms fold_setMustBeChecker [of ps st] by (simp add: backPointersOk_def)

lemma fromCheckerSyntax_keeps:
  assumes ok: "backPointersOk st"
    and run: "CheckerInstanceSymbol_fromCheckerSyntax ctx syn fb st = Some st'"
  shows "backPointersOk st' \<and> keeps st st'"
proof (cases "Scope_isUninstantiated (scope ctx)")
  case True
  let ?st1 = "createUninstantiatedDefs ctx (typeName syn) (instances syn) st"
  from True run have st': "st' = fold (\<lambda>p. updSymbol p setMustBeChecker) (results ?st1) ?st1"
    by (auto simp: CheckerInstanceSymbol_fromCheckerSyntax_def
        UninstantiatedDefSymbol_fromCheckerSyntax_def Let_def split: if_splits)
  from createUninstantiatedDefs_props [of ctx "typeName syn" "instances syn" st, OF refl]
  have e: "extends (isPlaceholderOrNet (typeName syn)) (\<lambda>_. False) st ?st1" by blast
  from extends_backPointers [OF e ok] have "backPointersOk st'"
    unfolding st' by (rule marked_backPointers)
  moreover from extends_keeps [OF e] marked_keeps [of ?st1 "results ?st1"]
  have "keeps st st'" unfolding st' by (rule keeps_trans)
  ultimately show ?thesis by blast
next
  case False
  let ?st1 = "noteLookup (NameLookup (typeName syn)) st"
  have 0: "extends (\<lambda>p d. True) (\<lambda>b. True) st ?st1" by (rule extends_same) simp_all
  consider (checker) chk where
      "createCheckers ctx chk syn (inCheckerInstanceStatement syn) fb ?st1 = Some st'"
    | (other) "symbols st' = symbols st" "bodies st' = bodies st"
    using False run
    by (auto simp: CheckerInstanceSymbol_fromCheckerSyntax_def Let_def
        split: option.splits LocalSymbol.splits)
  then have "extends (\<lambda>p d. True) (\<lambda>b. True) st st'"
  proof cases
    case checker
    from createCheckers_props [OF checker] 0 show ?thesis by (blast intro: extends_trans)
  next
    case other
    then show ?thesis by (rule extends_same)
  qed
  with ok show ?thesis by (blast intro: extends_backPointers extends_keeps)
qed

lemma factory_extends:
  "InstanceSymbol_fromDefinition n dfn ov u fb st = (p, st') \<Longrightarrow>
     extends (\<lambda>p d. True) (\<lambda>b. True) st st'"
  by (rule extends_new_instance [where s = "newSymbol n (Instance (length (bodies st)) [] None)"
        and body = "\<lparr>bodyOf = OfDefinition dfn ov, isUninstantiated = u, isFromBind = fb,
                     parentInstance = Some (length (symbols st))\<rparr>"])
     (auto simp: InstanceSymbol_fromDefinition_eq newSymbol_def)

text \<open>An instance \<open>u\<close> of a module \<open>m\<close> in the body of \<open>top\<close>.\<close>

lemma module_instance_example:
  "InstanceSymbol_fromSyntax
     ((plainContext (InstanceBodyScope (topBody False False None) None))
        \<lparr>getDefinition := \<lambda>n. Some (DefinitionFound \<lparr>defName = ''m'', definitionKind = Module\<rparr>)\<rparr>)
     (statement ''m'' [namedInstance 0 ''u'' []]) False emptyElaboration =
   Some \<lparr>symbols = [\<lparr>name = ''u'', symData = Instance 0 [] None, syntaxNode = Some 0,
                      parentScope = None\<rparr>],
         bodies = [\<lparr>bodyOf = OfDefinition \<lparr>defName = ''m'', definitionKind = Module\<rparr> None,
                     isUninstantiated = False, isFromBind = False, parentInstance = Some 0\<rparr>],
         diags = [], lookups = [NameLookup ''m'', DefinitionLookup ''m''],
         instantiated = [''m''], results = [0], implicitNets = []\<rparr>"
  by (simp add: InstanceSymbol_fromSyntax_def plainContext_def topBody_def statement_def
      namedInstance_def emptyElaboration_def createSimple_def createInstances_def Let_def
      noteLookup_def containmentDiag_def topDefinition_def localConfig_def
      createImplicitNets_def create_def createInstance_eq pushResult_def getName_def builderConfig_def)

text \<open>
  C4.  The constructors of an instance and of a checker instance set the back-pointer of
  the body they are given to the new instance.  Every operation that creates instances
  (the two overloads of \<^verbatim>\<open>fromSyntax\<close> for a statement, and the factory functions)
  takes a state in which every instance is the parent instance of its body to such a
  state again, and leaves every instance and every body that was there as it was: no
  later operation changes a back-pointer.
\<close>

theorem C4_back_pointer_invariant:
  "(body < length (bodies st) \<longrightarrow>
      (\<forall>p st'. InstanceSymbol_new n body st = (p, st') \<or>
               CheckerInstanceSymbol_new n body st = (p, st') \<longrightarrow>
          bodyRef (symData (symbols st' ! p)) = Some body \<and>
          parentInstance (bodies st' ! body) = Some p)) \<and>
   (backPointersOk st \<and>
    (InstanceSymbol_fromSyntax ctx syn fromBind st = Some st' \<or>
     CheckerInstanceSymbol_fromCheckerSyntax ctx syn fromBind st = Some st' \<or>
     (\<exists>p. InstanceSymbol_createDefault dfn ov st = (p, st')) \<or>
     (\<exists>p. InstanceSymbol_createInvalid dfn st = (p, st')) \<or>
     (\<exists>p. InstanceSymbol_createVirtual dfn st = (p, st')) \<or>
     (\<exists>p. CheckerInstanceSymbol_createInvalid chk st = (p, st'))) \<longrightarrow>
    backPointersOk st' \<and> keeps st st')"
proof (intro conjI impI allI)
  fix p st'
  assume b: "body < length (bodies st)"
    and "InstanceSymbol_new n body st = (p, st') \<or> CheckerInstanceSymbol_new n body st = (p, st')"
  then show "bodyRef (symData (symbols st' ! p)) = Some body"
    and "parentInstance (bodies st' ! body) = Some p"
    by (auto simp: InstanceSymbol_new_def CheckerInstanceSymbol_new_def emplaceSymbol_def
        updBody_def newSymbol_def)
next
  assume a: "backPointersOk st \<and>
    (InstanceSymbol_fromSyntax ctx syn fromBind st = Some st' \<or>
     CheckerInstanceSymbol_fromCheckerSyntax ctx syn fromBind st = Some st' \<or>
     (\<exists>p. InstanceSymbol_createDefault dfn ov st = (p, st')) \<or>
     (\<exists>p. InstanceSymbol_createInvalid dfn st = (p, st')) \<or>
     (\<exists>p. InstanceSymbol_createVirtual dfn st = (p, st')) \<or>
     (\<exists>p. CheckerInstanceSymbol_createInvalid chk st = (p, st')))"
  then have ok: "backPointersOk st" by blast
  from a consider
      (stmt) "InstanceSymbol_fromSyntax ctx syn fromBind st = Some st'"
    | (chk) "CheckerInstanceSymbol_fromCheckerSyntax ctx syn fromBind st = Some st'"
    | (factory) p m o2 u where "InstanceSymbol_fromDefinition m dfn o2 u False st = (p, st')"
    | (invalid) p where "CheckerInstanceSymbol_createInvalid chk st = (p, st')"
    unfolding InstanceSymbol_createDefault_def InstanceSymbol_createInvalid_def
      InstanceSymbol_createVirtual_def by blast
  then have "backPointersOk st' \<and> keeps st st'"
  proof cases
    case stmt
    from InstanceSymbol_fromSyntax_extends [OF stmt] ok show ?thesis
      by (blast intro: extends_backPointers extends_keeps)
  next
    case chk
    with ok show ?thesis by (rule fromCheckerSyntax_keeps)
  next
    case factory
    from factory_extends [OF factory] ok show ?thesis
      by (blast intro: extends_backPointers extends_keeps)
  next
    case invalid
    have "extends (\<lambda>p d. True) (\<lambda>b. True) st st'"
      using createInvalid_props [where Q = "\<lambda>p d. True" and R = "\<lambda>b. True", OF invalid] by simp
    with ok show ?thesis by (blast intro: extends_backPointers extends_keeps)
  qed
  then show "backPointersOk st'" and "keeps st st'" by blast+
qed

theorem C4_module_instance_witness:
  "0 < length (bodies (snd (emplaceBody
       \<lparr>bodyOf = OfDefinition topDefinition None, isUninstantiated = False, isFromBind = False,
         parentInstance = None\<rparr> emptyElaboration))) \<and>
   (\<exists>p st'. InstanceSymbol_new ''u'' 0 (snd (emplaceBody
       \<lparr>bodyOf = OfDefinition topDefinition None, isUninstantiated = False, isFromBind = False,
         parentInstance = None\<rparr> emptyElaboration)) = (p, st') \<and>
       bodyRef (symData (symbols st' ! p)) = Some 0 \<and> parentInstance (bodies st' ! 0) = Some p) \<and>
   backPointersOk emptyElaboration \<and>
   (\<exists>st'. InstanceSymbol_fromSyntax
       ((plainContext (InstanceBodyScope (topBody False False None) None))
          \<lparr>getDefinition := \<lambda>n. Some (DefinitionFound \<lparr>defName = ''m'', definitionKind = Module\<rparr>)\<rparr>)
       (statement ''m'' [namedInstance 0 ''u'' []]) False emptyElaboration = Some st' \<and>
     symData (symbols st' ! 0) = Instance 0 [] None \<and> parentInstance (bodies st' ! 0) = Some 0 \<and>
     backPointersOk st' \<and> keeps emptyElaboration st')"
proof -
  let ?b = "\<lparr>bodyOf = OfDefinition topDefinition None, isUninstantiated = False,
             isFromBind = False, parentInstance = None\<rparr>"
  let ?st = "snd (emplaceBody ?b emptyElaboration)"
  let ?ctx = "(plainContext (InstanceBodyScope (topBody False False None) None))
          \<lparr>getDefinition := \<lambda>n. Some (DefinitionFound \<lparr>defName = ''m'', definitionKind = Module\<rparr>)\<rparr>"
  let ?syn = "statement ''m'' [namedInstance 0 ''u'' []]"
  let ?st' = "\<lparr>symbols = [\<lparr>name = ''u'', symData = Instance 0 [] None, syntaxNode = Some 0,
                      parentScope = None\<rparr>],
         bodies = [\<lparr>bodyOf = OfDefinition \<lparr>defName = ''m'', definitionKind = Module\<rparr> None,
                     isUninstantiated = False, isFromBind = False, parentInstance = Some 0\<rparr>],
         diags = [], lookups = [NameLookup ''m'', DefinitionLookup ''m''],
         instantiated = [''m''], results = [0], implicitNets = []\<rparr>"
  have 1: "0 < length (bodies ?st)" by (simp add: emplaceBody_def)
  obtain p st1 where new: "InstanceSymbol_new ''u'' 0 ?st = (p, st1)"
    by (cases "InstanceSymbol_new ''u'' 0 ?st")
  have 2: "backPointersOk emptyElaboration" by (simp add: backPointersOk_def emptyElaboration_def)
  note run = module_instance_example
  note thm1 = C4_back_pointer_invariant [where body = 0 and st = ?st and n = "''u''"]
  note thm2 = C4_back_pointer_invariant [where st = emptyElaboration and ctx = ?ctx and syn = ?syn
      and fromBind = False and st' = ?st']
  from thm1 1 new have a: "bodyRef (symData (symbols st1 ! p)) = Some 0 \<and>
      parentInstance (bodies st1 ! 0) = Some p" by blast
  from thm2 2 run have b: "backPointersOk ?st' \<and> keeps emptyElaboration ?st'" by blast
  have c: "symData (symbols ?st' ! 0) = Instance 0 [] None \<and> parentInstance (bodies ?st' ! 0) = Some 0"
    by simp
  from 1 new a 2 run b c show ?thesis by blast
qed

section \<open>A configuration block as the new root\<close>




section \<open>What a step leaves untouched, and what it reports\<close>













section \<open>One instance of a statement\<close>


section \<open>One pass over the instances of a statement\<close>




section \<open>The step for one instance\<close>







section \<open>The results of a pass, instance by instance\<close>






section \<open>Instances without a name\<close>





end
